(* ===== verification/Prelude.thy ===== *)
theory Prelude
  imports Main "HOL-Library.Char_ord" "HOL-Library.List_Lexorder" "HOL-Library.Sublist" "HOL-Library.Multiset"
begin

text \<open>
  Shared vocabulary of the development: the type synonyms for Go's strings, times and errors,
  the lemma collections, and the generic facts on the three container idioms the program uses
  everywhere: an index built by assigning into a Go map in a loop (the last entry wins), a scan
  of a slice for the first match, and a map of slices built by appending.
\<close>

type_synonym gostring = string
type_synonym goerror = "string option" \<comment> \<open>a Go \<open>error\<close> by its text; \<open>None\<close> is \<open>nil\<close>\<close>
type_synonym gotime = int \<comment> \<open>nanoseconds; \<open>time.Time\<close> and \<open>time.Duration\<close>\<close>

named_theorems gostr \<open>equations of the modelled string and path functions\<close>
named_theorems plan \<open>facts on target selection\<close>
named_theorems disk_simps \<open>reads after writes on the state directory\<close>

section \<open>Indexes: the last entry with a key wins\<close>

definition indexBy :: "('a \<Rightarrow> 'k) \<Rightarrow> 'a list \<Rightarrow> 'k \<rightharpoonup> 'a" where
  "indexBy key xs = foldl (\<lambda>m x. m(key x \<mapsto> x)) Map.empty xs"

lemma indexBy_Nil [simp]: "indexBy key [] = Map.empty"
  by (simp add: indexBy_def)

lemma indexBy_snoc [simp]: "indexBy key (xs @ [x]) = (indexBy key xs)(key x \<mapsto> x)"
  by (simp add: indexBy_def)

lemma indexBy_SomeD: "indexBy key xs k = Some x \<Longrightarrow> x \<in> set xs \<and> key x = k"
  by (induction xs rule: rev_induct) (auto split: if_splits)

lemma indexBy_None_iff: "indexBy key xs k = None \<longleftrightarrow> k \<notin> key ` set xs"
  by (induction xs rule: rev_induct) auto

lemma dom_indexBy [simp]: "dom (indexBy key xs) = key ` set xs"
  by (auto simp: dom_def indexBy_None_iff)

lemma indexBy_mem:
  assumes "distinct (map key xs)" and "x \<in> set xs"
  shows "indexBy key xs (key x) = Some x"
  using assms
proof (induction xs rule: rev_induct)
  case Nil
  then show ?case by simp
next
  case (snoc y ys)
  then show ?case by (cases "x = y") (auto simp: image_iff)
qed

lemma indexBy_eq_map_of_rev: "indexBy key xs = map_of (rev (map (\<lambda>x. (key x, x)) xs))"
  by (induction xs rule: rev_induct) auto

lemma indexBy_code [code]: "indexBy key xs k = List.find (\<lambda>x. key x = k) (rev xs)"
proof (induction xs rule: rev_induct)
  case Nil
  then show ?case by simp
next
  case (snoc x xs)
  then show ?case by (cases "key x = k") simp_all
qed

text \<open>With distinct keys the last-wins index and the first-match scan agree.\<close>

lemma find_Some_iff_indexBy:
  assumes "distinct (map key xs)"
  shows "List.find (\<lambda>x. key x = k) xs = indexBy key xs k"
proof (cases "List.find (\<lambda>x. key x = k) xs")
  case None
  then have "k \<notin> key ` set xs" by (auto simp: find_None_iff)
  with None show ?thesis by (metis indexBy_None_iff)
next
  case (Some x)
  then have "x \<in> set xs" "key x = k" by (auto simp: find_Some_iff)
  with Some indexBy_mem [OF assms] show ?thesis by auto
qed

lemma find_SomeD: "List.find P xs = Some x \<Longrightarrow> x \<in> set xs \<and> P x"
  by (auto simp: find_Some_iff)

section \<open>Maps of slices\<close>

definition groupBy :: "('a \<Rightarrow> 'k) \<Rightarrow> 'a list \<Rightarrow> 'k \<Rightarrow> 'a list" where
  "groupBy key xs = foldl (\<lambda>m x. m(key x := m (key x) @ [x])) (\<lambda>_. []) xs"

lemma groupBy_filter: "groupBy key xs k = filter (\<lambda>x. key x = k) xs"
  unfolding groupBy_def by (induction xs rule: rev_induct) auto

section \<open>Order of first occurrence\<close>

fun firsts :: "'a list \<Rightarrow> 'a list" where
  "firsts [] = []"
| "firsts (x # xs) = x # filter (\<lambda>y. y \<noteq> x) (firsts xs)"

lemma set_firsts [simp]: "set (firsts xs) = set xs"
  by (induction xs) auto

lemma distinct_firsts [simp]: "distinct (firsts xs)"
  by (induction xs) auto

lemma firsts_filter: "firsts (filter P xs) = filter P (firsts xs)"
  by (induction xs) (auto simp: conj_commute intro: filter_cong)

lemma firsts_snoc: "firsts (xs @ [x]) = (if x \<in> set xs then firsts xs else firsts xs @ [x])"
  by (induction xs) (auto simp: filter_id_conv)

section \<open>Lists and options\<close>

lemma filter_False_iff: "filter P xs = [] \<longleftrightarrow> (\<forall>x\<in>set xs. \<not> P x)"
  by (simp add: filter_empty_conv)

lemma option_all_split: "(case m of None \<Rightarrow> True | Some x \<Rightarrow> P x) \<longleftrightarrow> (\<forall>x. m = Some x \<longrightarrow> P x)"
  by (cases m) auto

lemma concat_map_Nil: "(\<And>x. x \<in> set xs \<Longrightarrow> f x = []) \<Longrightarrow> concat (map f xs) = []"
  by auto

lemma filter_concat_map: "filter P (concat (map f xs)) = concat (map (\<lambda>x. filter P (f x)) xs)"
  by (induction xs) auto

lemma concat_map_filter_if:
  "concat (map f (filter P xs)) = concat (map (\<lambda>x. if P x then f x else []) xs)"
  by (induction xs) auto

end
