(* ===== verification/Go_Strings.thy ===== *)
theory Go_Strings
  imports Prelude
begin

text \<open>
  What the program uses of Go's packages \<open>strings\<close> and \<open>strconv\<close>, on strings as lists of bytes.
  Case mapping and white space are those of ASCII: the source applies them to paths, state words and
  environment values. For project names, the letters outside ASCII that map into it are added in \<open>Compose\<close>.
\<close>

section \<open>Prefixes, suffixes, cutting\<close>

definition hasPrefix :: "gostring \<Rightarrow> gostring \<Rightarrow> bool" where
  "hasPrefix s p \<longleftrightarrow> take (length p) s = p"

definition hasSuffix :: "gostring \<Rightarrow> gostring \<Rightarrow> bool" where
  "hasSuffix s p \<longleftrightarrow> hasPrefix (rev s) (rev p)"

definition trimPrefix :: "gostring \<Rightarrow> gostring \<Rightarrow> gostring" where
  "trimPrefix s p = (if hasPrefix s p then drop (length p) s else s)"

definition trimSuffix :: "gostring \<Rightarrow> gostring \<Rightarrow> gostring" where
  "trimSuffix s p = (if hasSuffix s p then take (length s - length p) s else s)"

lemma hasPrefix_iff [gostr]: "hasPrefix s p \<longleftrightarrow> (\<exists>r. s = p @ r)"
  unfolding hasPrefix_def by (metis append_eq_conv_conj append_take_drop_id)

lemma hasSuffix_iff [gostr]: "hasSuffix s p \<longleftrightarrow> (\<exists>r. s = r @ p)"
  unfolding hasSuffix_def hasPrefix_iff by (metis rev_append rev_rev_ident)

lemma hasPrefix_append [simp]: "hasPrefix (p @ r) p"
  by (simp add: hasPrefix_def)

lemma hasPrefix_Nil [simp]: "hasPrefix s []"
  by (simp add: hasPrefix_def)

lemma hasPrefix_Nil1 [simp]: "hasPrefix [] p \<longleftrightarrow> p = []"
  by (auto simp: hasPrefix_def)

lemma hasPrefix_Cons [simp]: "hasPrefix (c # s) (d # p) \<longleftrightarrow> c = d \<and> hasPrefix s p"
  by (simp add: hasPrefix_def)

lemma hasSuffix_append [simp]: "hasSuffix (r @ p) p"
  by (auto simp: hasSuffix_iff)

lemma trimPrefix_append [simp]: "trimPrefix (p @ r) p = r"
  by (simp add: trimPrefix_def)

lemma trimSuffix_append [simp]: "trimSuffix (r @ p) p = r"
  by (simp add: trimSuffix_def)

lemma trimSuffix_no: "\<not> hasSuffix s p \<Longrightarrow> trimSuffix s p = s"
  by (simp add: trimSuffix_def)

text \<open>\<open>strings.Cut\<close>: around the first occurrence of the separator; \<open>None\<close> is \<open>ok = false\<close>.\<close>

fun strCut :: "gostring \<Rightarrow> gostring \<Rightarrow> (gostring \<times> gostring) option" where
  "strCut sep [] = (if sep = [] then Some ([], []) else None)"
| "strCut sep (c # cs) =
     (if hasPrefix (c # cs) sep then Some ([], drop (length sep) (c # cs))
      else map_option (\<lambda>(a, b). (c # a, b)) (strCut sep cs))"

lemma strCut_Some_append: "strCut sep s = Some (a, b) \<Longrightarrow> s = a @ sep @ b"
proof (induction s arbitrary: a)
  case Nil
  then show ?case by (simp split: if_splits)
next
  case (Cons c cs)
  then show ?case by (auto simp: gostr split: if_splits)
qed

lemma strCut_None_iff: "strCut sep s = None \<longleftrightarrow> (\<forall>a b. s \<noteq> a @ sep @ b)"
proof (induction s)
  case Nil
  then show ?case by auto
next
  case (Cons c cs)
  show ?case
  proof (cases "hasPrefix (c # cs) sep")
    case True
    then show ?thesis by (auto simp: gostr) (metis append_Nil)
  next
    case False
    have "(\<exists>a b. c # cs = a @ sep @ b) \<longleftrightarrow> (\<exists>a b. cs = a @ sep @ b)"
      using False by (auto simp: gostr) (metis append_eq_Cons_conv, metis append_Cons)
    with False Cons show ?thesis by auto
  qed
qed

lemma strCut_char: "c \<notin> set a \<Longrightarrow> strCut [c] (a @ c # b) = Some (a, b)"
  by (induction a) auto

lemma strCut_char_none: "strCut [c] s = None \<longleftrightarrow> c \<notin> set s"
  by (induction s) auto

definition strContains :: "gostring \<Rightarrow> gostring \<Rightarrow> bool" where
  "strContains s sub \<longleftrightarrow> strCut sub s \<noteq> None"

definition containsAny :: "gostring \<Rightarrow> gostring \<Rightarrow> bool" where
  "containsAny s chars \<longleftrightarrow> (\<exists>c \<in> set s. c \<in> set chars)"

section \<open>Splitting and joining\<close>

text \<open>\<open>strings.Split\<close> on a one-byte separator.\<close>

fun splitOn :: "char \<Rightarrow> gostring \<Rightarrow> gostring list" where
  "splitOn sep [] = [[]]"
| "splitOn sep (c # cs) =
     (if c = sep then [] # splitOn sep cs
      else (case splitOn sep cs of [] \<Rightarrow> [[c]] | p # ps \<Rightarrow> (c # p) # ps))"

fun strJoin :: "gostring \<Rightarrow> gostring list \<Rightarrow> gostring" where
  "strJoin sep [] = []"
| "strJoin sep [x] = x"
| "strJoin sep (x # y # ys) = x @ sep @ strJoin sep (y # ys)"

lemma splitOn_not_Nil [simp]: "splitOn sep s \<noteq> []"
  by (cases s) (auto split: list.splits)

lemma strJoin_Cons: "xs \<noteq> [] \<Longrightarrow> strJoin sep (x # xs) = x @ sep @ strJoin sep xs"
  by (cases xs) auto

lemma strJoin_splitOn [gostr]: "strJoin [sep] (splitOn sep s) = s"
proof (induction s)
  case (Cons c cs)
  then show ?case
    by (cases "splitOn sep cs"; cases "tl (splitOn sep cs)") (auto simp: strJoin_Cons)
qed simp

lemma splitOn_no_sep: "sep \<notin> set s \<Longrightarrow> splitOn sep s = [s]"
  by (induction s) auto

lemma splitOn_append:
  "splitOn sep (a @ sep # b) = splitOn sep a @ splitOn sep b"
proof (induction a)
  case (Cons c a)
  then show ?case by (cases "splitOn sep a") auto
qed simp

lemma splitOn_segments: "p \<in> set (splitOn sep s) \<Longrightarrow> sep \<notin> set p"
proof (induction s arbitrary: p)
  case (Cons c cs)
  then show ?case
    by (cases "splitOn sep cs") (auto split: if_splits)
qed simp

lemma splitOn_strJoin:
  "xs \<noteq> [] \<Longrightarrow> \<forall>x\<in>set xs. sep \<notin> set x \<Longrightarrow> splitOn sep (strJoin [sep] xs) = xs"
proof (induction xs)
  case (Cons x xs)
  then show ?case
    by (cases xs) (auto simp: splitOn_no_sep splitOn_append)
qed simp

text \<open>\<open>strings.SplitN\<close> on a one-byte separator.\<close>

fun splitN :: "char \<Rightarrow> nat \<Rightarrow> gostring \<Rightarrow> gostring list" where
  "splitN sep 0 s = []"
| "splitN sep (Suc 0) s = [s]"
| "splitN sep (Suc (Suc n)) s =
     (case strCut [sep] s of None \<Rightarrow> [s] | Some (a, b) \<Rightarrow> a # splitN sep (Suc n) b)"

text \<open>\<open>strings.FieldsFunc\<close>: maximal non-empty runs of bytes outside the separator class.\<close>

fun fieldsAux :: "(char \<Rightarrow> bool) \<Rightarrow> gostring \<Rightarrow> gostring \<Rightarrow> gostring list" where
  "fieldsAux f acc [] = (if acc = [] then [] else [acc])"
| "fieldsAux f acc (c # cs) =
     (if f c then (if acc = [] then [] else [acc]) @ fieldsAux f [] cs
      else fieldsAux f (acc @ [c]) cs)"

definition fieldsFunc :: "(char \<Rightarrow> bool) \<Rightarrow> gostring \<Rightarrow> gostring list" where
  "fieldsFunc f s = fieldsAux f [] s"

section \<open>Bytewise rewriting\<close>

text \<open>
  \<open>strings.ReplaceAll\<close> with a one-byte pattern and \<open>strings.NewReplacer\<close> with one-byte
  patterns rewrite every byte independently.
\<close>

definition replaceBytes :: "(char \<Rightarrow> gostring) \<Rightarrow> gostring \<Rightarrow> gostring" where
  "replaceBytes f s = concat (map f s)"

lemma replaceBytes_simps [simp]:
  "replaceBytes f [] = []"
  "replaceBytes f (c # s) = f c @ replaceBytes f s"
  by (simp_all add: replaceBytes_def)

lemma replaceBytes_append [simp]: "replaceBytes f (a @ b) = replaceBytes f a @ replaceBytes f b"
  by (simp add: replaceBytes_def)

definition isSpace :: "char \<Rightarrow> bool" where
  "isSpace c \<longleftrightarrow> c \<in> {CHR 0x09, CHR 0x0A, CHR 0x0B, CHR 0x0C, CHR 0x0D, CHR '' ''}"

definition trimFunc :: "(char \<Rightarrow> bool) \<Rightarrow> gostring \<Rightarrow> gostring" where
  "trimFunc f s = rev (dropWhile f (rev (dropWhile f s)))"

definition trimSpace :: "gostring \<Rightarrow> gostring" where
  "trimSpace s = trimFunc isSpace s"

definition toLowerByte :: "char \<Rightarrow> char" where
  "toLowerByte c = (if of_char c \<ge> (65::nat) \<and> of_char c \<le> (90::nat)
                    then char_of (of_char c + (32::nat)) else c)"

definition toLower :: "gostring \<Rightarrow> gostring" where
  "toLower s = map toLowerByte s"

definition equalFold :: "gostring \<Rightarrow> gostring \<Rightarrow> bool" where
  "equalFold s t \<longleftrightarrow> toLower s = toLower t"

lemma set_trimFunc: "set (trimFunc f s) \<subseteq> set s"
proof
  fix x
  assume "x \<in> set (trimFunc f s)"
  then have "x \<in> set (dropWhile f s)"
    unfolding trimFunc_def by (metis set_dropWhileD set_rev)
  then show "x \<in> set s" by (metis set_dropWhileD)
qed

lemma trimFunc_hd: "trimFunc f s \<noteq> [] \<Longrightarrow> \<not> f (hd (trimFunc f s))"
proof -
  assume a: "trimFunc f s \<noteq> []"
  let ?d = "dropWhile f s"
  obtain r where r: "rev ?d = r @ dropWhile f (rev ?d)"
    by (metis takeWhile_dropWhile_id)
  then have eq: "?d = trimFunc f s @ rev r"
    unfolding trimFunc_def by (metis rev_append rev_rev_ident)
  then have "hd ?d = hd (trimFunc f s)" "?d \<noteq> []" using a by auto
  then show ?thesis using hd_dropWhile [of f s] by simp
qed

lemma trimFunc_last: "trimFunc f s \<noteq> [] \<Longrightarrow> \<not> f (last (trimFunc f s))"
  unfolding trimFunc_def by (metis hd_dropWhile last_rev rev_is_Nil_conv)

lemma trimFunc_id: "s \<noteq> [] \<Longrightarrow> \<not> f (hd s) \<Longrightarrow> \<not> f (last s) \<Longrightarrow> trimFunc f s = s"
proof -
  assume a: "s \<noteq> []" "\<not> f (hd s)" "\<not> f (last s)"
  then have 1: "dropWhile f s = s" by (cases s) auto
  from a have "dropWhile f (rev s) = rev s" by (cases s rule: rev_cases) auto
  with 1 show ?thesis by (simp add: trimFunc_def)
qed

lemma trimFunc_Nil [simp]: "trimFunc f [] = []"
  by (simp add: trimFunc_def)

lemma trimFunc_idem [simp]: "trimFunc f (trimFunc f s) = trimFunc f s"
  by (cases "trimFunc f s = []") (simp_all add: trimFunc_id trimFunc_hd trimFunc_last)

section \<open>Numbers and booleans\<close>

definition digitChar :: "nat \<Rightarrow> char" where
  "digitChar d = char_of (48 + d)"

fun itoaNat :: "nat \<Rightarrow> gostring" where
  "itoaNat n = (if n < 10 then [digitChar n] else itoaNat (n div 10) @ [digitChar (n mod 10)])"

declare itoaNat.simps [simp del]

definition itoa :: "int \<Rightarrow> gostring" where
  "itoa i = (if i < 0 then CHR ''-'' # itoaNat (nat (- i)) else itoaNat (nat i))"

definition isDigit :: "char \<Rightarrow> bool" where
  "isDigit c \<longleftrightarrow> of_char c \<ge> (48::nat) \<and> of_char c \<le> (57::nat)"

definition digitVal :: "char \<Rightarrow> nat" where
  "digitVal c = of_char c - 48"

definition digitsVal :: "gostring \<Rightarrow> nat" where
  "digitsVal s = foldl (\<lambda>n c. 10 * n + digitVal c) 0 s"

text \<open>\<open>strconv.Atoi\<close> on a 64-bit platform; \<open>None\<close> is a non-nil error.\<close>

definition atoi :: "gostring \<Rightarrow> int option" where
  "atoi s =
     (let neg = hasPrefix s ''-'';
          ds = (if neg \<or> hasPrefix s ''+'' then tl s else s);
          v = (if neg then - int (digitsVal ds) else int (digitsVal ds))
      in if ds = [] \<or> \<not> list_all isDigit ds then None
         else if v < - (2 ^ 63) \<or> v \<ge> 2 ^ 63 then None
         else Some v)"

lemma digitChar_val: "d < 10 \<Longrightarrow> isDigit (digitChar d) \<and> digitVal (digitChar d) = d"
  by (auto simp: isDigit_def digitVal_def digitChar_def)

lemma itoaNat_digits: "list_all isDigit (itoaNat n) \<and> itoaNat n \<noteq> []"
proof (induction n rule: itoaNat.induct)
  case (1 n)
  show ?case
  proof (cases "n < 10")
    case True
    then show ?thesis by (simp add: digitChar_val itoaNat.simps [of n])
  next
    case False
    with 1 show ?thesis by (subst (1 2) itoaNat.simps) (simp add: digitChar_val)
  qed
qed

lemma digitsVal_snoc [simp]: "digitsVal (s @ [c]) = 10 * digitsVal s + digitVal c"
  by (simp add: digitsVal_def)

lemma digitsVal_itoaNat: "digitsVal (itoaNat n) = n"
proof (induction n rule: itoaNat.induct)
  case (1 n)
  show ?case
  proof (cases "n < 10")
    case True
    then show ?thesis
      by (subst itoaNat.simps) (simp add: digitsVal_def digitChar_val)
  next
    case False
    with 1 have "digitsVal (itoaNat (n div 10)) = n div 10" by simp
    with False show ?thesis by (subst itoaNat.simps) (simp add: digitChar_val)
  qed
qed

lemma itoaNat_inj: "itoaNat m = itoaNat n \<Longrightarrow> m = n"
  by (metis digitsVal_itoaNat)

definition parseBool :: "gostring \<Rightarrow> bool option" where
  "parseBool s =
     (if s \<in> {''1'', ''t'', ''T'', ''true'', ''TRUE'', ''True''} then Some True
      else if s \<in> {''0'', ''f'', ''F'', ''false'', ''FALSE'', ''False''} then Some False
      else None)"

text \<open>Hexadecimal digits as \<open>encoding/hex\<close> writes them.\<close>

definition isLowerHex :: "char \<Rightarrow> bool" where
  "isLowerHex c \<longleftrightarrow> isDigit c \<or> (of_char c \<ge> (97::nat) \<and> of_char c \<le> (102::nat))"

definition hexChar :: "nat \<Rightarrow> char" where
  "hexChar d = (if d < 10 then char_of (48 + d) else char_of (87 + d))"

definition hexEncode :: "nat list \<Rightarrow> gostring" where
  "hexEncode bs = concat (map (\<lambda>b. [hexChar (b div 16 mod 16), hexChar (b mod 16)]) bs)"

lemma isLowerHex_hexChar: "d < 16 \<Longrightarrow> isLowerHex (hexChar d)"
  by (auto simp: isLowerHex_def hexChar_def isDigit_def)

lemma hexEncode_length [simp]: "length (hexEncode bs) = 2 * length bs"
  by (induction bs) (auto simp: hexEncode_def)

lemma hexEncode_chars: "list_all isLowerHex (hexEncode bs)"
  by (induction bs) (auto simp: hexEncode_def isLowerHex_hexChar)

end
