(* ===== verification/Go_Glob.thy ===== *)
theory Go_Glob
  imports Go_Strings
begin

text \<open>
  Go's \<open>filepath.Match\<close> on Unix, as the library computes it: the pattern is cut into chunks at
  unbracketed stars, each chunk is matched against a prefix of the name, a starred chunk is tried
  at every later position up to the next slash. A chunk is scanned to its end even after a
  mismatch, so that a malformed pattern is always reported; the main lemma says so.
\<close>

section \<open>Runes\<close>

definition byteVal :: "char \<Rightarrow> nat" where
  "byteVal c = of_char c"

definition isCont :: "char \<Rightarrow> bool" where
  "isCont c \<longleftrightarrow> byteVal c \<ge> 128 \<and> byteVal c < 192"

abbreviation contBits :: "char \<Rightarrow> nat" where "contBits c \<equiv> byteVal c - 128"

definition runeError :: nat where "runeError = 65533"

text \<open>
  \<open>utf8.DecodeRuneInString\<close>: the rune and the rest of the string; an invalid encoding yields
  \<open>RuneError\<close> of width 1, flagged by the boolean.
\<close>

definition decodeRune :: "gostring \<Rightarrow> nat \<times> bool \<times> gostring" where
  "decodeRune s =
     (case s of
        [] \<Rightarrow> (runeError, False, [])
      | c0 # r0 \<Rightarrow>
          let b0 = byteVal c0; bad = (runeError, True, r0) in
          if b0 < 128 then (b0, False, r0)
          else if b0 < 194 \<or> b0 > 244 then bad
          else if b0 < 224 then
            (case r0 of c1 # r1 \<Rightarrow>
                if isCont c1 then ((b0 - 192) * 64 + contBits c1, False, r1) else bad
              | _ \<Rightarrow> bad)
          else if b0 < 240 then
            (case r0 of c1 # c2 # r2 \<Rightarrow>
                if isCont c1 \<and> isCont c2 \<and> (b0 = 224 \<longrightarrow> byteVal c1 \<ge> 160) \<and> (b0 = 237 \<longrightarrow> byteVal c1 < 160)
                then ((b0 - 224) * 4096 + contBits c1 * 64 + contBits c2, False, r2) else bad
              | _ \<Rightarrow> bad)
          else
            (case r0 of c1 # c2 # c3 # r3 \<Rightarrow>
                if isCont c1 \<and> isCont c2 \<and> isCont c3 \<and> (b0 = 240 \<longrightarrow> byteVal c1 \<ge> 144) \<and> (b0 = 244 \<longrightarrow> byteVal c1 < 144)
                then ((b0 - 240) * 262144 + contBits c1 * 4096 + contBits c2 * 64 + contBits c3, False, r3)
                else bad
              | _ \<Rightarrow> bad))"

lemma decodeRune_shorter: "s \<noteq> [] \<Longrightarrow> length (snd (snd (decodeRune s))) < length s"
  unfolding decodeRune_def by (auto simp: Let_def split: list.splits if_splits)

section \<open>Matching one chunk\<close>

datatype chunk_result = BadPattern | NoMatch | Rest gostring

text \<open>\<open>getEsc\<close>: one possibly escaped rune of a character class; \<open>None\<close> is \<open>ErrBadPattern\<close>.\<close>

definition getEsc :: "gostring \<Rightarrow> (nat \<times> gostring) option" where
  "getEsc chunk =
     (if chunk = [] \<or> hd chunk = CHR ''-'' \<or> hd chunk = CHR '']'' then None
      else let chunk' = (if hd chunk = CHR 0x5C then tl chunk else chunk) in
        if chunk' = [] then None
        else case decodeRune chunk' of (r, bad, rest) \<Rightarrow>
          if bad \<or> rest = [] then None else Some (r, rest))"

lemma getEsc_shorter: "getEsc chunk = Some (r, rest) \<Longrightarrow> length rest < length chunk"
proof -
  assume a: "getEsc chunk = Some (r, rest)"
  let ?c = "if hd chunk = CHR 0x5C then tl chunk else chunk"
  from a have "?c \<noteq> []" "snd (snd (decodeRune ?c)) = rest"
    by (auto simp: getEsc_def Let_def split: if_splits prod.splits)
  then have "length rest < length ?c" using decodeRune_shorter by metis
  then show ?thesis by (auto split: if_splits)
qed

lemma getEsc_nonempty: "getEsc chunk = Some (r, rest) \<Longrightarrow> rest \<noteq> []"
  by (auto simp: getEsc_def Let_def split: if_splits prod.splits)

text \<open>
  The ranges of a class up to its closing bracket: whether rune \<open>r\<close> is in one of them, and the
  rest of the chunk after the bracket.
\<close>

function classLoop :: "nat \<Rightarrow> bool \<Rightarrow> bool \<Rightarrow> gostring \<Rightarrow> (bool \<times> gostring) option" where
  "classLoop r found nrange chunk =
     (if chunk \<noteq> [] \<and> hd chunk = CHR '']'' \<and> nrange then Some (found, tl chunk)
      else case getEsc chunk of
          None \<Rightarrow> None
        | Some (lo, chunk1) \<Rightarrow>
            if hd chunk1 = CHR ''-'' then
              (case getEsc (tl chunk1) of
                 None \<Rightarrow> None
               | Some (hi, chunk2) \<Rightarrow> classLoop r (found \<or> (lo \<le> r \<and> r \<le> hi)) True chunk2)
            else classLoop r (found \<or> lo = r) True chunk1)"
  by pat_completeness auto
termination
proof (relation "measure (\<lambda>(r, f, n, c). length c)", goal_cases)
  case 1
  show ?case by simp
next
  case (2 r found nrange chunk x2 lo chunk1 x2a hi chunk2)
  then have "length chunk1 < length chunk" "length chunk2 < length (tl chunk1)"
    using getEsc_shorter by metis+
  then show ?case by simp
next
  case (3 r found nrange chunk x2 lo chunk1)
  then show ?case using getEsc_shorter by fastforce
qed

declare classLoop.simps [simp del]

lemma classLoop_close:
  "chunk \<noteq> [] \<Longrightarrow> hd chunk = CHR '']'' \<Longrightarrow> classLoop r f True chunk = Some (f, tl chunk)"
  by (subst classLoop.simps) simp

lemma classLoop_bad:
  "\<lbrakk>\<not> (chunk \<noteq> [] \<and> hd chunk = CHR '']'' \<and> n); getEsc chunk = None\<rbrakk> \<Longrightarrow> classLoop r f n chunk = None"
  by (subst classLoop.simps) auto

lemma classLoop_range:
  "\<lbrakk>\<not> (chunk \<noteq> [] \<and> hd chunk = CHR '']'' \<and> n); getEsc chunk = Some (lo, chunk1); hd chunk1 = CHR ''-''\<rbrakk>
   \<Longrightarrow> classLoop r f n chunk =
       (case getEsc (tl chunk1) of None \<Rightarrow> None
        | Some (hi, chunk2) \<Rightarrow> classLoop r (f \<or> (lo \<le> r \<and> r \<le> hi)) True chunk2)"
  by (subst classLoop.simps) auto

lemma classLoop_single:
  "\<lbrakk>\<not> (chunk \<noteq> [] \<and> hd chunk = CHR '']'' \<and> n); getEsc chunk = Some (lo, chunk1); hd chunk1 \<noteq> CHR ''-''\<rbrakk>
   \<Longrightarrow> classLoop r f n chunk = classLoop r (f \<or> lo = r) True chunk1"
  by (subst classLoop.simps) auto

text \<open>
  The remainder of a class does not depend on the rune it is asked about, and it is shorter.
\<close>

fun classRest :: "(bool \<times> gostring) option \<Rightarrow> gostring option" where
  "classRest x = map_option snd x"

lemma classRest_SomeD: "classRest x = Some rest \<Longrightarrow> \<exists>m. x = Some (m, rest)"
  by (cases x) (simp_all, metis prod.collapse)

lemma classLoop_shape:
  "classRest (classLoop r f n chunk) = classRest (classLoop r' f' n chunk)"
proof (induction r f n chunk arbitrary: f' rule: classLoop.induct)
  case (1 r f n chunk)
  note IH1 = "1.IH"(1) and IH2 = "1.IH"(2)
  show ?case
  proof (cases "chunk \<noteq> [] \<and> hd chunk = CHR '']'' \<and> n")
    case True
    then show ?thesis by (simp add: classLoop_close)
  next
    case False
    show ?thesis
    proof (cases "getEsc chunk")
      case None
      with False show ?thesis by (simp add: classLoop_bad)
    next
      case (Some p)
      then obtain lo chunk1 where e: "getEsc chunk = Some (lo, chunk1)" by (cases p) auto
      show ?thesis
      proof (cases "hd chunk1 = CHR ''-''")
        case True
        note eq = classLoop_range [OF False e True]
        show ?thesis
        proof (cases "getEsc (tl chunk1)")
          case None
          then show ?thesis by (simp add: eq)
        next
          case (Some q)
          then obtain hi chunk2 where e2: "getEsc (tl chunk1) = Some (hi, chunk2)" by (cases q) auto
          from IH1 [OF False e refl True e2 refl] show ?thesis by (simp add: eq e2)
        qed
      next
        case nd: False
        from IH2 [OF False e refl nd] show ?thesis by (simp add: classLoop_single [OF False e nd])
      qed
    qed
  qed
qed

lemma classLoop_shorter: "classLoop r f n chunk = Some (m, rest) \<Longrightarrow> length rest < length chunk"
proof (induction r f n chunk rule: classLoop.induct)
  case (1 r f n chunk)
  note IH1 = "1.IH"(1) and IH2 = "1.IH"(2)
  show ?case
  proof (cases "chunk \<noteq> [] \<and> hd chunk = CHR '']'' \<and> n")
    case True
    with "1.prems" have "rest = tl chunk" by (simp add: classLoop_close)
    with True show ?thesis by simp
  next
    case False
    with "1.prems" obtain lo chunk1 where e: "getEsc chunk = Some (lo, chunk1)"
      by (cases "getEsc chunk") (auto simp: classLoop_bad)
    note s1 = getEsc_shorter [OF e]
    show ?thesis
    proof (cases "hd chunk1 = CHR ''-''")
      case True
      from "1.prems" obtain hi chunk2 where e2: "getEsc (tl chunk1) = Some (hi, chunk2)"
        and c: "classLoop r (f \<or> (lo \<le> r \<and> r \<le> hi)) True chunk2 = Some (m, rest)"
        by (auto simp: classLoop_range [OF False e True] split: option.splits)
      show ?thesis
        using IH1 [OF False e refl True e2 refl c] s1 getEsc_shorter [OF e2] by simp
    next
      case nd: False
      from "1.prems" have c: "classLoop r (f \<or> lo = r) True chunk1 = Some (m, rest)"
        by (simp add: classLoop_single [OF False e nd])
      show ?thesis using IH2 [OF False e refl nd c] s1 by simp
    qed
  qed
qed

definition literalStep :: "char \<Rightarrow> gostring \<Rightarrow> bool \<Rightarrow> gostring \<times> bool" where
  "literalStep c s failed = (if failed then (s, True) else (tl s, hd s \<noteq> c))"

definition classBody :: "gostring \<Rightarrow> bool \<times> gostring" where
  "classBody cs = (if cs \<noteq> [] \<and> hd cs = CHR ''^'' then (True, tl cs) else (False, cs))"

definition takeRune :: "gostring \<Rightarrow> bool \<Rightarrow> nat \<times> gostring" where
  "takeRune s failed = (if failed then (0, s) else (fst (decodeRune s), snd (snd (decodeRune s))))"

lemma classBody_shorter: "length (snd (classBody cs)) \<le> length cs"
  by (simp add: classBody_def)

function matchLoop :: "gostring \<Rightarrow> gostring \<Rightarrow> bool \<Rightarrow> chunk_result" where
  "matchLoop [] s failed0 = (if failed0 then NoMatch else Rest s)"
| "matchLoop (c # cs) s failed0 =
     (let failed = failed0 \<or> s = [] in
      if c = CHR ''['' then
        (case classLoop (fst (takeRune s failed)) False False (snd (classBody cs)) of
           None \<Rightarrow> BadPattern
         | Some (found, rest) \<Rightarrow>
             matchLoop rest (snd (takeRune s failed)) (failed \<or> found = fst (classBody cs)))
      else if c = CHR ''?'' then
        matchLoop cs (snd (takeRune s failed)) (failed \<or> hd s = CHR ''/'')
      else if c = CHR 0x5C then
        (case cs of
           [] \<Rightarrow> BadPattern
         | d # ds \<Rightarrow> matchLoop ds (fst (literalStep d s failed)) (snd (literalStep d s failed)))
      else matchLoop cs (fst (literalStep c s failed)) (snd (literalStep c s failed)))"
  by pat_completeness auto
termination
proof (relation "measure (\<lambda>(c, s, f). length c)", goal_cases)
  case (2 c cs s failed0 x x2 found rest)
  then have "length rest < length (snd (classBody cs))"
    using classLoop_shorter by metis
  with classBody_shorter [of cs] show ?case by simp
qed simp_all

declare matchLoop.simps(2) [simp del]

definition matchChunk :: "gostring \<Rightarrow> gostring \<Rightarrow> chunk_result" where
  "matchChunk chunk s = matchLoop chunk s False"

text \<open>Malformedness of a chunk depends on the chunk only.\<close>

lemma matchLoop_bad: "matchLoop chunk s f = BadPattern \<longleftrightarrow> matchLoop chunk s' f' = BadPattern"
proof (induction "length chunk" arbitrary: chunk s f s' f' rule: less_induct)
  case less
  show ?case
  proof (cases chunk)
    case (Cons c cs)
    have tail: "matchLoop cs t g = BadPattern \<longleftrightarrow> matchLoop cs t' g' = BadPattern" for t g t' g'
      using less Cons by simp
    consider "c = CHR ''[''" | "c = CHR ''?''" | "c = CHR 0x5C"
      | "c \<noteq> CHR ''[''" "c \<noteq> CHR ''?''" "c \<noteq> CHR 0x5C" by blast
    then show ?thesis
    proof cases
      case 1
      let ?cl = "\<lambda>s f. classLoop (fst (takeRune s (f \<or> s = []))) False False (snd (classBody cs))"
      have shape: "classRest (?cl s f) = classRest (?cl s' f')" by (rule classLoop_shape)
      show ?thesis
      proof (cases "?cl s f")
        case None
        with shape have "?cl s' f' = None" by simp
        with None 1 Cons show ?thesis by (simp add: matchLoop.simps(2) Let_def)
      next
        case (Some p)
        then obtain m rest where p: "?cl s f = Some (m, rest)" by (cases p) auto
        have "classRest (?cl s' f') = Some rest" unfolding shape [symmetric] p by simp
        then obtain m' where p': "?cl s' f' = Some (m', rest)" using classRest_SomeD by metis
        have "length rest < length chunk"
          using classLoop_shorter [OF p] classBody_shorter [of cs] Cons by simp
        then have "matchLoop rest t g = BadPattern \<longleftrightarrow> matchLoop rest t' g' = BadPattern" for t g t' g'
          using less by simp
        with p p' 1 Cons show ?thesis by (simp add: matchLoop.simps(2) Let_def)
      qed
    next
      case 2
      with Cons tail show ?thesis by (simp add: matchLoop.simps(2) Let_def)
    next
      case 3
      show ?thesis
      proof (cases cs)
        case Nil
        with 3 Cons show ?thesis by (simp add: matchLoop.simps(2) Let_def)
      next
        case (Cons d ds)
        then have "matchLoop ds t g = BadPattern \<longleftrightarrow> matchLoop ds t' g' = BadPattern" for t g t' g'
          using less \<open>chunk = c # cs\<close> by simp
        with 3 Cons \<open>chunk = c # cs\<close> show ?thesis by (simp add: matchLoop.simps(2) Let_def)
      qed
    next
      case 4
      with Cons tail show ?thesis by (simp add: matchLoop.simps(2) Let_def)
    qed
  qed simp
qed

lemma matchChunk_bad: "matchChunk chunk s = BadPattern \<longleftrightarrow> matchChunk chunk s' = BadPattern"
  unfolding matchChunk_def by (rule matchLoop_bad)

section \<open>The whole pattern\<close>

text \<open>\<open>scanChunk\<close>: whether stars lead, the next chunk and the rest of the pattern.\<close>

fun scanBody :: "bool \<Rightarrow> gostring \<Rightarrow> gostring \<times> gostring" where
  "scanBody inrange [] = ([], [])"
| "scanBody inrange (c # cs) =
     (if c = CHR 0x5C then
        (case cs of
           [] \<Rightarrow> ([c], [])
         | d # ds \<Rightarrow> (case scanBody inrange ds of (a, b) \<Rightarrow> (c # d # a, b)))
      else if c = CHR ''*'' \<and> \<not> inrange then ([], c # cs)
      else (case scanBody (if c = CHR ''['' then True else if c = CHR '']'' then False else inrange) cs of
              (a, b) \<Rightarrow> (c # a, b)))"

definition scanChunk :: "gostring \<Rightarrow> bool \<times> gostring \<times> gostring" where
  "scanChunk pattern =
     (let p = dropWhile (\<lambda>c. c = CHR ''*'') pattern
      in (pattern \<noteq> [] \<and> hd pattern = CHR ''*'', scanBody False p))"

lemma scanBody_length: "scanBody r p = (a, b) \<Longrightarrow> length a + length b = length p"
  by (induction r p arbitrary: a b rule: scanBody.induct)
     (auto split: if_splits list.splits prod.splits)

lemma scanChunk_shorter:
  assumes "p \<noteq> []" and "scanChunk p = (star, chunk, rest)"
  shows "length rest < length p"
proof -
  let ?d = "dropWhile (\<lambda>c. c = CHR ''*'') p"
  have b: "scanBody False ?d = (chunk, rest)" and star: "star = (hd p = CHR ''*'')"
    using assms by (auto simp: scanChunk_def Let_def)
  have len: "length chunk + length rest = length ?d" using scanBody_length [OF b] .
  show ?thesis
  proof (cases "hd p = CHR ''*''")
    case True
    with assms(1) have "length ?d < length p"
      by (cases p) (auto intro: le_imp_less_Suc length_dropWhile_le)
    with len show ?thesis by simp
  next
    case False
    with assms(1) have d: "?d = p" by (cases p) auto
    with b assms(1) False have "chunk \<noteq> []"
      by (cases p) (auto split: if_splits list.splits prod.splits)
    then have "0 < length chunk" by simp
    then show ?thesis using len unfolding d by linarith
  qed
qed

text \<open>Trying a starred chunk at every later position of the name, never across a slash.\<close>

fun trySkip :: "gostring \<Rightarrow> bool \<Rightarrow> gostring \<Rightarrow> chunk_result" where
  "trySkip chunk isLast [] = NoMatch"
| "trySkip chunk isLast (c # cs) =
     (if c = CHR ''/'' then NoMatch
      else (case matchChunk chunk cs of
              Rest t \<Rightarrow> if isLast \<and> t \<noteq> [] then trySkip chunk isLast cs else Rest t
            | BadPattern \<Rightarrow> BadPattern
            | NoMatch \<Rightarrow> trySkip chunk isLast cs))"

text \<open>The check of the remaining chunks before a mismatch is returned.\<close>

function restOk :: "gostring \<Rightarrow> bool" where
  "restOk pattern =
     (if pattern = [] then True
      else (case scanChunk pattern of (star, chunk, rest) \<Rightarrow>
              matchChunk chunk [] \<noteq> BadPattern \<and> restOk rest))"
  by pat_completeness auto
termination
  by (relation "measure length") (auto dest: scanChunk_shorter [OF _ sym])

declare restOk.simps [simp del]

text \<open>\<open>filepath.Match\<close>; \<open>None\<close> is \<open>ErrBadPattern\<close>.\<close>

function globMatch :: "gostring \<Rightarrow> gostring \<Rightarrow> bool option" where
  "globMatch pattern name =
     (if pattern = [] then Some (name = [])
      else (case scanChunk pattern of (star, chunk, rest) \<Rightarrow>
        if star \<and> chunk = [] then Some (CHR ''/'' \<notin> set name)
        else (let mismatch = (if restOk rest then Some False else None);
                  skip = (if \<not> star then mismatch
                          else (case trySkip chunk (rest = []) name of
                                  Rest t \<Rightarrow> globMatch rest t
                                | BadPattern \<Rightarrow> None
                                | NoMatch \<Rightarrow> mismatch))
              in (case matchChunk chunk name of
                    Rest t \<Rightarrow> if t = [] \<or> rest \<noteq> [] then globMatch rest t else skip
                  | BadPattern \<Rightarrow> None
                  | NoMatch \<Rightarrow> skip))))"
  by pat_completeness auto
termination
  by (relation "measure (\<lambda>(p, n). length p)") (auto dest: scanChunk_shorter [OF _ sym])

declare globMatch.simps [simp del]

section \<open>A malformed pattern is always reported\<close>

lemma scanChunk_empty: "scanChunk p = (star, [], rest) \<Longrightarrow> rest = []"
proof -
  assume a: "scanChunk p = (star, [], rest)"
  let ?d = "dropWhile (\<lambda>c. c = CHR ''*'') p"
  from a have b: "scanBody False ?d = ([], rest)" by (simp add: scanChunk_def Let_def)
  show ?thesis
  proof (cases ?d)
    case (Cons c cs)
    then have "c \<noteq> CHR ''*''" using hd_dropWhile [of "\<lambda>c. c = CHR ''*''" p] by auto
    with b Cons show ?thesis by (auto split: if_splits list.splits prod.splits)
  next
    case Nil
    with b show ?thesis by (simp only: scanBody.simps prod.inject)
  qed
qed

lemma trySkip_bad: "trySkip chunk l name = BadPattern \<Longrightarrow> matchChunk chunk [] = BadPattern"
  by (induction chunk l name rule: trySkip.induct)
     (auto split: if_splits chunk_result.splits intro: matchChunk_bad [THEN iffD1])

lemma restOk_step:
  "p \<noteq> [] \<Longrightarrow> scanChunk p = (star, chunk, rest) \<Longrightarrow>
   restOk p \<longleftrightarrow> matchChunk chunk [] \<noteq> BadPattern \<and> restOk rest"
  by (subst restOk.simps) simp

lemma restOk_Nil [simp]: "restOk []"
  by (simp add: restOk.simps)

lemma globMatch_Nil [simp]: "globMatch [] name = Some (name = [])"
  by (simp add: globMatch.simps)

lemma globMatch_bad: "globMatch p name = None \<longleftrightarrow> \<not> restOk p"
proof (induction "length p" arbitrary: p name rule: less_induct)
  case less
  show ?case
  proof (cases "p = []")
    case False
    obtain star chunk rest where sc: "scanChunk p = (star, chunk, rest)" by (metis prod_cases3)
    note ok = restOk_step [OF False sc]
    have IH: "globMatch rest t = None \<longleftrightarrow> \<not> restOk rest" for t
      using less scanChunk_shorter [OF False sc] by blast
    note unf = globMatch.simps [of p name]
    show ?thesis
    proof (cases "star \<and> chunk = []")
      case True
      with sc have "rest = []" by (auto dest: scanChunk_empty)
      with True False sc ok show ?thesis by (simp add: unf matchChunk_def)
    next
      case ns: False
      show ?thesis
      proof (cases "matchChunk chunk [] = BadPattern")
        case True
        then have "matchChunk chunk name = BadPattern" using matchChunk_bad by blast
        with True ns False sc ok show ?thesis by (simp add: unf Let_def)
      next
        case nb: False
        then have "matchChunk chunk name \<noteq> BadPattern" "trySkip chunk (rest = []) name \<noteq> BadPattern"
          using matchChunk_bad trySkip_bad by blast+
        with nb ns False sc ok IH show ?thesis
          by (auto simp: unf Let_def split: chunk_result.splits)
      qed
    qed
  qed simp
qed

section \<open>Patterns without metacharacters, and a leading star\<close>

definition isMeta :: "char \<Rightarrow> bool" where
  "isMeta c \<longleftrightarrow> c = CHR ''*'' \<or> c = CHR ''?'' \<or> c = CHR ''['' \<or> c = CHR 0x5C"

definition literalPattern :: "gostring \<Rightarrow> bool" where
  "literalPattern p \<longleftrightarrow> (\<forall>c\<in>set p. \<not> isMeta c)"

lemma literalPattern_Cons [simp]: "literalPattern (c # p) \<longleftrightarrow> \<not> isMeta c \<and> literalPattern p"
  by (auto simp: literalPattern_def)

lemma matchLoop_literal_failed: "literalPattern p \<Longrightarrow> matchLoop p s True = NoMatch"
  by (induction p arbitrary: s) (auto simp: matchLoop.simps(2) isMeta_def literalStep_def)

lemma matchLoop_literal:
  "literalPattern p \<Longrightarrow>
   matchLoop p s False = (if hasPrefix s p then Rest (drop (length p) s) else NoMatch)"
proof (induction p arbitrary: s)
  case (Cons c p)
  show ?case
  proof (cases s)
    case Nil
    with Cons show ?thesis
      by (auto simp: matchLoop.simps(2) isMeta_def literalStep_def matchLoop_literal_failed)
  next
    case (Cons a s')
    with Cons.IH Cons.prems show ?thesis
      by (cases "a = c")
         (auto simp: matchLoop.simps(2) isMeta_def literalStep_def matchLoop_literal_failed)
  qed
qed simp

lemma scanBody_literal: "literalPattern p \<Longrightarrow> scanBody r p = (p, [])"
  by (induction p arbitrary: r) (auto simp: isMeta_def split: prod.splits)

lemma dropWhile_literal: "literalPattern p \<Longrightarrow> dropWhile (\<lambda>c. c = CHR ''*'') p = p"
  by (cases p) (auto simp: isMeta_def)

lemma scanChunk_literal: "literalPattern p \<Longrightarrow> scanChunk p = (False, p, [])"
  by (cases p) (auto simp: scanChunk_def Let_def scanBody_literal dropWhile_literal isMeta_def)

lemma scanChunk_star_literal: "literalPattern p \<Longrightarrow> scanChunk (CHR ''*'' # p) = (True, p, [])"
  by (simp add: scanChunk_def Let_def scanBody_literal dropWhile_literal)

lemma globMatch_literal [plan]: "literalPattern p \<Longrightarrow> globMatch p name = Some (name = p)"
proof (cases p)
  case (Cons c cs)
  assume "literalPattern p"
  then show ?thesis
    using Cons
    by (subst globMatch.simps)
       (auto simp: scanChunk_literal matchChunk_def matchLoop_literal gostr Let_def)
qed simp

lemma restOk_literal: "literalPattern p \<Longrightarrow> restOk p"
  using globMatch_bad globMatch_literal by (metis option.distinct(1))

lemma trySkip_literal:
  "\<lbrakk>literalPattern p; CHR ''/'' \<notin> set name\<rbrakk> \<Longrightarrow>
   trySkip p True name = (if \<exists>a. a \<noteq> [] \<and> name = a @ p then Rest [] else NoMatch)"
proof (induction name)
  case (Cons c cs)
  have step: "(\<exists>a. a \<noteq> [] \<and> c # cs = a @ p) \<longleftrightarrow> cs = p \<or> (\<exists>a. a \<noteq> [] \<and> cs = a @ p)"
    by (metis append_Cons append_Nil list.distinct(1) neq_Nil_conv list.inject)
  have m: "matchChunk p cs = (if hasPrefix cs p then Rest (drop (length p) cs) else NoMatch)"
    using Cons.prems by (simp add: matchChunk_def matchLoop_literal)
  have nsl: "c \<noteq> CHR ''/''" using Cons.prems by auto
  show ?case
  proof (cases "cs = p")
    case True
    with nsl m show ?thesis unfolding step by (simp add: hasPrefix_def)
  next
    case False
    have "trySkip p True (c # cs) = trySkip p True cs"
      using Cons.prems m False by (auto simp: gostr)
    with Cons False show ?thesis unfolding step by simp
  qed
qed simp

lemma globMatch_star_literal [plan]:
  assumes "literalPattern p" and "CHR ''/'' \<notin> set name"
  shows "globMatch (CHR ''*'' # p) name = Some (hasSuffix name p)"
proof (cases "p = []")
  case True
  with assms show ?thesis
    by (subst globMatch.simps) (simp add: scanChunk_star_literal hasSuffix_def)
next
  case False
  have suf: "hasSuffix name p \<longleftrightarrow> name = p \<or> (\<exists>a. a \<noteq> [] \<and> name = a @ p)"
    by (auto simp: hasSuffix_iff)
  show ?thesis
    using assms False
    by (subst globMatch.simps)
       (auto simp: scanChunk_star_literal matchChunk_def matchLoop_literal trySkip_literal suf Let_def
          hasPrefix_def)
qed

end
