(* ===== verification/Go_Path.thy ===== *)
theory Go_Path
  imports Go_Strings
begin

text \<open>
  What the program uses of Go's packages \<open>path\<close> and \<open>path/filepath\<close> on Unix: \<open>Clean\<close>, \<open>Join\<close>,
  \<open>Dir\<close> and \<open>Base\<close>. A path is cleaned segment by segment with a stack, as the library's lexical
  processing does.
\<close>

abbreviation slash :: char where "slash \<equiv> CHR ''/''"

fun cleanSegs :: "bool \<Rightarrow> gostring list \<Rightarrow> gostring list \<Rightarrow> gostring list" where
  "cleanSegs rooted out [] = rev out"
| "cleanSegs rooted out (s # ss) =
     (if s = [] \<or> s = ''.'' then cleanSegs rooted out ss
      else if s = ''..'' then
        (case out of
           [] \<Rightarrow> cleanSegs rooted (if rooted then [] else [''..'']) ss
         | t # ts \<Rightarrow> if t = ''..'' then cleanSegs rooted (s # out) ss else cleanSegs rooted ts ss)
      else cleanSegs rooted (s # out) ss)"

definition isRooted :: "gostring \<Rightarrow> bool" where
  "isRooted p \<longleftrightarrow> hasPrefix p ''/''"

definition renderSegs :: "bool \<Rightarrow> gostring list \<Rightarrow> gostring" where
  "renderSegs rooted segs =
     (if rooted then slash # strJoin ''/'' segs
      else if segs = [] then ''.'' else strJoin ''/'' segs)"

definition pathClean :: "gostring \<Rightarrow> gostring" where
  "pathClean p =
     (if p = [] then ''.''
      else renderSegs (isRooted p) (cleanSegs (isRooted p) [] (splitOn slash p)))"

definition pathJoin :: "gostring list \<Rightarrow> gostring" where
  "pathJoin elems =
     (let ys = filter (\<lambda>x. x \<noteq> []) elems
      in if ys = [] then [] else pathClean (strJoin ''/'' ys))"

definition pathDir :: "gostring \<Rightarrow> gostring" where
  "pathDir p = pathClean (rev (dropWhile (\<lambda>c. c \<noteq> slash) (rev p)))"

definition pathBase :: "gostring \<Rightarrow> gostring" where
  "pathBase p =
     (if p = [] then ''.''
      else let q = rev (dropWhile (\<lambda>c. c = slash) (rev p))
           in if q = [] then ''/'' else last (splitOn slash q))"

section \<open>Ordinary segments\<close>

definition safeSeg :: "gostring \<Rightarrow> bool" where
  "safeSeg s \<longleftrightarrow> s \<noteq> [] \<and> slash \<notin> set s \<and> s \<noteq> ''.'' \<and> s \<noteq> ''..''"

lemma safeSegD: "safeSeg s \<Longrightarrow> s \<noteq> [] \<and> slash \<notin> set s"
  by (simp add: safeSeg_def)

lemma cleanSegs_safe_snoc:
  "safeSeg s \<Longrightarrow> cleanSegs rooted out (xs @ [s]) = cleanSegs rooted out xs @ [s]"
  by (induction rooted out xs rule: cleanSegs.induct)
     (auto simp: safeSeg_def split: list.splits)

lemma cleanSegs_safe_append:
  "\<forall>s\<in>set ss. safeSeg s \<Longrightarrow> cleanSegs rooted out (xs @ ss) = cleanSegs rooted out xs @ ss"
proof (induction ss arbitrary: xs)
  case (Cons s ss)
  then have "cleanSegs rooted out ((xs @ [s]) @ ss) = cleanSegs rooted out (xs @ [s]) @ ss"
    by (metis list.set_intros(2))
  with Cons.prems show ?case by (simp add: cleanSegs_safe_snoc)
qed simp

lemma cleanSegs_segs:
  "\<lbrakk>\<forall>s\<in>set out. slash \<notin> set s \<and> s \<noteq> []; \<forall>s\<in>set xs. slash \<notin> set s\<rbrakk>
   \<Longrightarrow> \<forall>s\<in>set (cleanSegs rooted out xs). slash \<notin> set s \<and> s \<noteq> []"
proof (induction xs arbitrary: out)
  case (Cons x xs)
  let ?P = "\<lambda>out'. cleanSegs rooted out (x # xs) = cleanSegs rooted out' xs \<and>
                   (\<forall>s\<in>set out'. slash \<notin> set s \<and> s \<noteq> [])"
  have "\<exists>out'. ?P out'"
  proof (cases "x = [] \<or> x = ''.''")
    case True
    with Cons.prems have "?P out" by simp
    then show ?thesis by (rule exI [where x = "out"])
  next
    case False
    show ?thesis
    proof (cases "x = ''..''")
      case True
      show ?thesis
      proof (cases out)
        case Nil
        with True have "?P (if rooted then [] else [''..''])" by simp
        then show ?thesis by (rule exI [where x = "if rooted then [] else [''..'']"])
      next
        case (Cons t ts)
        with True \<open>\<forall>s\<in>set out. slash \<notin> set s \<and> s \<noteq> []\<close>
        have "?P (if t = ''..'' then x # out else ts)" by simp
        then show ?thesis by (rule exI [where x = "if t = ''..'' then x # out else ts"])
      qed
    next
      case nd: False
      with False Cons.prems have "?P (x # out)" by simp
      then show ?thesis by (rule exI [where x = "x # out"])
    qed
  qed
  then obtain out' where eq: "cleanSegs rooted out (x # xs) = cleanSegs rooted out' xs"
    and out': "\<forall>s\<in>set out'. slash \<notin> set s \<and> s \<noteq> []" by (elim exE conjE)
  have xs: "\<forall>s\<in>set xs. slash \<notin> set s" using Cons.prems(2) by simp
  show ?case unfolding eq by (rule Cons.IH [OF out' xs])
qed simp

lemma splitOn_join_safe:
  assumes "\<forall>s\<in>set ss. safeSeg s"
  shows "splitOn slash (strJoin ''/'' (d # ss)) = splitOn slash d @ ss"
  using assms
proof (induction ss arbitrary: d)
  case (Cons s ss)
  have "splitOn slash (strJoin ''/'' (d # s # ss)) =
        splitOn slash d @ splitOn slash (strJoin ''/'' (s # ss))"
    by (simp add: splitOn_append)
  with Cons show ?case by (simp add: splitOn_no_sep safeSeg_def)
qed simp

lemma isRooted_join: "d \<noteq> [] \<Longrightarrow> isRooted (strJoin ''/'' (d # ss)) = isRooted d"
  by (cases d; cases ss) (auto simp: isRooted_def)

lemma pathJoin_safe:
  assumes "d \<noteq> []" and "\<forall>s\<in>set ss. safeSeg s"
  shows "pathJoin (d # ss) =
         renderSegs (isRooted d) (cleanSegs (isRooted d) [] (splitOn slash d) @ ss)"
proof -
  have f: "filter (\<lambda>x. x \<noteq> []) (d # ss) = d # ss"
    using assms by (auto simp: filter_id_conv safeSeg_def)
  have ne: "strJoin ''/'' (d # ss) \<noteq> []"
    using assms(1) by (cases ss) auto
  show ?thesis
    unfolding pathJoin_def f using ne assms
    by (simp add: pathClean_def isRooted_join splitOn_join_safe cleanSegs_safe_append)
qed

lemma strJoin_inj:
  assumes "strJoin ''/'' xs = strJoin ''/'' ys" "xs \<noteq> []" "ys \<noteq> []"
    and "\<forall>s\<in>set xs. slash \<notin> set s" "\<forall>s\<in>set ys. slash \<notin> set s"
  shows "xs = ys"
  using assms splitOn_strJoin by metis

text \<open>Joining ordinary segments to one directory is injective.\<close>

lemma pathJoin_inj:
  assumes d: "d \<noteq> []" and ss: "\<forall>s\<in>set ss. safeSeg s" and ts: "\<forall>s\<in>set ts. safeSeg s"
    and eq: "pathJoin (d # ss) = pathJoin (d # ts)" and ne: "ss \<noteq> []" "ts \<noteq> []"
  shows "ss = ts"
proof -
  let ?c = "cleanSegs (isRooted d) [] (splitOn slash d)"
  have c: "\<forall>s\<in>set ?c. slash \<notin> set s"
    using cleanSegs_segs [of "[]" "splitOn slash d"] splitOn_segments by (metis empty_iff list.set(1))
  have "strJoin ''/'' (?c @ ss) = strJoin ''/'' (?c @ ts)"
    using eq ne unfolding pathJoin_safe [OF d ss] pathJoin_safe [OF d ts]
    by (auto simp: renderSegs_def split: if_splits)
  then have "?c @ ss = ?c @ ts"
    using c ss ts ne by (intro strJoin_inj) (auto simp: safeSeg_def)
  then show ?thesis by simp
qed

lemma pathJoin_single_safe: "safeSeg s \<Longrightarrow> pathJoin [s] = s"
proof -
  assume s: "safeSeg s"
  then have "\<not> isRooted s" by (cases s) (auto simp: isRooted_def safeSeg_def)
  with s show ?thesis
    by (simp add: pathJoin_def pathClean_def renderSegs_def safeSeg_def splitOn_no_sep)
qed

section \<open>Paths that stay inside a directory\<close>

text \<open>A name without a parent segment, and a directory in its clean form, with at least one segment.\<close>

definition localName :: "gostring \<Rightarrow> bool" where
  "localName n \<longleftrightarrow> n \<noteq> [] \<and> ''..'' \<notin> set (splitOn slash n)"

definition tidyDir :: "gostring \<Rightarrow> bool" where
  "tidyDir d \<longleftrightarrow> (\<exists>rooted segs. d = renderSegs rooted segs \<and> segs \<noteq> [] \<and> (\<forall>s\<in>set segs. safeSeg s))"

definition inside :: "gostring \<Rightarrow> gostring \<Rightarrow> bool" where
  "inside d p \<longleftrightarrow> p = d \<or> hasPrefix p (d @ ''/'')"

lemma cleanSegs_snoc_local:
  "s \<noteq> ''..'' \<Longrightarrow> cleanSegs rooted out (xs @ [s]) = cleanSegs rooted out xs @ (if s = [] \<or> s = ''.'' then [] else [s])"
  by (induction rooted out xs rule: cleanSegs.induct) (auto split: list.splits)

lemma cleanSegs_append_local:
  "''..'' \<notin> set ss \<Longrightarrow> cleanSegs rooted out (xs @ ss) = cleanSegs rooted out xs @ filter (\<lambda>s. s \<noteq> [] \<and> s \<noteq> ''.'') ss"
proof (induction ss arbitrary: xs)
  case (Cons s ss)
  have "s \<noteq> ''..''" "''..'' \<notin> set ss" using Cons.prems by auto
  then show ?case using Cons.IH [of "xs @ [s]"] cleanSegs_snoc_local [of s rooted out xs] by auto
qed simp

lemma cleanSegs_local: "''..'' \<notin> set ss \<Longrightarrow> cleanSegs rooted [] ss = filter (\<lambda>s. s \<noteq> [] \<and> s \<noteq> ''.'') ss"
  using cleanSegs_append_local [of ss rooted "[]" "[]"] by simp

lemma splitOn_render:
  assumes "\<forall>s\<in>set segs. slash \<notin> set s" "segs \<noteq> []"
  shows "splitOn slash (renderSegs rooted segs) = (if rooted then [] # segs else segs)"
  using splitOn_append [of slash "[]" "strJoin ''/'' segs"] splitOn_strJoin [OF assms(2,1)] assms(2) by (simp add: renderSegs_def)

lemma render_extend:
  "\<lbrakk>segs \<noteq> []; ts \<noteq> []\<rbrakk> \<Longrightarrow> renderSegs rooted (segs @ ts) = renderSegs rooted segs @ ''/'' @ strJoin ''/'' ts"
proof (induction segs)
  case (Cons s segs)
  then show ?case by (cases segs; cases ts) (auto simp: renderSegs_def split: if_splits)
qed simp

lemma tidyDir_join:
  assumes "tidyDir d" "localName n"
  shows "inside d (pathJoin [d, n])"
proof -
  obtain rooted segs where d: "d = renderSegs rooted segs" "segs \<noteq> []" "\<forall>s\<in>set segs. safeSeg s"
    using assms(1) by (auto simp: tidyDir_def)
  have sl: "\<forall>s\<in>set segs. slash \<notin> set s" using d(3) by (simp add: safeSeg_def)
  have ne: "d \<noteq> []" using d by (cases segs; cases "tl segs") (auto simp: renderSegs_def safeSeg_def)
  have hd: "hd segs \<in> set segs" using d(2) by simp
  have r: "isRooted d = rooted"
  proof (cases rooted)
    case True
    then show ?thesis using d by (simp add: isRooted_def renderSegs_def)
  next
    case False
    have "d \<noteq> [] \<and> hd d \<noteq> slash"
      using d False hd sl by (cases segs; cases "tl segs"; cases "hd segs") (auto simp: renderSegs_def safeSeg_def)
    then show ?thesis using False by (cases d) (auto simp: isRooted_def)
  qed
  have n: "n \<noteq> []" "''..'' \<notin> set (splitOn slash n)" using assms(2) by (simp_all add: localName_def)
  let ?kept = "filter (\<lambda>s. s \<noteq> [] \<and> s \<noteq> ''.'') (splitOn slash n)"
  have dd: "cleanSegs rooted [] (splitOn slash d) = segs"
  proof -
    have "''..'' \<notin> set (splitOn slash d)" "filter (\<lambda>s. s \<noteq> [] \<and> s \<noteq> ''.'') (splitOn slash d) = segs"
      using splitOn_render [OF sl d(2), of rooted] d(1,3) by (auto simp: safeSeg_def intro: filter_True)
    then show ?thesis by (simp add: cleanSegs_local)
  qed
  have "pathJoin [d, n] = pathClean (d @ ''/'' @ n)" using ne n(1) by (simp add: pathJoin_def)
  also have "\<dots> = renderSegs rooted (cleanSegs rooted [] (splitOn slash d @ splitOn slash n))"
    using ne r splitOn_append [of slash d n] by (cases d) (simp_all add: pathClean_def isRooted_def)
  also have "\<dots> = renderSegs rooted (segs @ ?kept)" by (simp add: cleanSegs_append_local [OF n(2)] dd)
  finally show ?thesis using d(1,2) by (cases "?kept = []") (auto simp: inside_def render_extend hasPrefix_iff)
qed

lemma tidyDir_suffix:
  assumes "tidyDir d"
  shows "tidyDir (d @ ''.staging'')"
proof -
  obtain rooted segs where d: "d = renderSegs rooted segs" "segs \<noteq> []" "\<forall>s\<in>set segs. safeSeg s"
    using assms by (auto simp: tidyDir_def)
  let ?l = "last segs @ ''.staging''"
  have "last segs \<in> set segs" using d(2) by simp
  then have l: "safeSeg ?l" using d(3) by (auto simp: safeSeg_def append_eq_Cons_conv)
  have j: "strJoin ''/'' segs @ ''.staging'' = strJoin ''/'' (butlast segs @ [?l])"
    using d(2)
  proof (induction segs)
    case (Cons s segs)
    then show ?case by (cases segs; cases "butlast segs @ [last segs @ ''.staging'']") auto
  qed simp
  have "d @ ''.staging'' = renderSegs rooted (butlast segs @ [?l])"
    unfolding d(1) renderSegs_def using d(2) j by simp
  moreover have "\<forall>s\<in>set (butlast segs @ [?l]). safeSeg s" using d(3) l by (auto dest: in_set_butlastD)
  ultimately show ?thesis unfolding tidyDir_def by blast
qed

lemma inside_staging: "inside (d @ ''.staging'') p \<Longrightarrow> \<not> inside d p"
  by (auto simp: inside_def hasPrefix_iff)

lemma strJoin_nonempty: "\<lbrakk>xs \<noteq> []; \<forall>x\<in>set xs. x \<noteq> []\<rbrakk> \<Longrightarrow> strJoin sep xs \<noteq> []"
  by (cases xs; cases "tl xs") auto

lemma localName_pathClean:
  assumes q: "''..'' \<notin> set (splitOn slash q)"
  shows "localName (pathClean q)"
proof -
  let ?kept = "filter (\<lambda>s. s \<noteq> [] \<and> s \<noteq> ''.'') (splitOn slash q)"
  have c: "pathClean q = (if q = [] then ''.'' else renderSegs (isRooted q) ?kept)"
    by (simp add: pathClean_def cleanSegs_local [OF q])
  have sl: "\<forall>s\<in>set ?kept. slash \<notin> set s" using splitOn_segments by auto
  have ne: "strJoin ''/'' ?kept \<noteq> []" if "?kept \<noteq> []" using that by (intro strJoin_nonempty) auto
  show ?thesis
  proof (cases "q = [] \<or> ?kept = []")
    case True
    then show ?thesis unfolding c localName_def by (auto simp: renderSegs_def)
  next
    case False
    then have "splitOn slash (pathClean q) = (if isRooted q then [] # ?kept else ?kept)"
      using splitOn_render [OF sl, of "isRooted q"] unfolding c by simp
    moreover have "pathClean q \<noteq> []" using False ne unfolding c by (simp add: renderSegs_def)
    ultimately show ?thesis using q by (auto simp: localName_def split: if_splits)
  qed
qed

lemma localName_pathDir:
  assumes "localName n"
  shows "localName (pathDir n)"
proof -
  let ?q = "rev (dropWhile (\<lambda>c. c \<noteq> slash) (rev n))"
  have q: "''..'' \<notin> set (splitOn slash ?q)"
  proof (cases "slash \<in> set n")
    case False
    then have "dropWhile (\<lambda>c. c \<noteq> slash) (rev n) = []" by (auto simp: dropWhile_eq_Nil_conv)
    then show ?thesis by (simp only:) simp
  next
    case True
    then obtain a b where ab: "rev n = a @ slash # b" "slash \<notin> set a" by (metis set_rev split_list_first)
    have "\<forall>c\<in>set a. c \<noteq> slash" using ab(2) by auto
    then have "dropWhile (\<lambda>c. c \<noteq> slash) (rev n) = slash # b" unfolding ab(1) by (simp add: dropWhile_append2)
    moreover have "n = rev b @ slash # rev a" using ab(1) by (metis rev_append rev_rev_ident rev.simps(2) append.assoc append_Cons append_Nil)
    ultimately show ?thesis using assms splitOn_append [of slash "rev b" "rev a"] splitOn_append [of slash "rev b" "[]"]
      by (auto simp: localName_def)
  qed
  then show ?thesis unfolding pathDir_def by (rule localName_pathClean)
qed

end
