(* ===== verification/Config.thy ===== *)
theory Config
  imports Go_Glob Go_Path
begin

text \<open>
  The deploy configuration (\<open>internal/config\<close>): its data, the name indexes, the defaults, the
  expansion of environment references, and the validator, proved equivalent to a declarative
  well-formedness predicate that the other theories use.

  A slice is a list; \<open>nil\<close> and the empty slice are identified where the code only ranges over
  a slice or takes its length, which is everywhere but \<open>PersistFiles\<close>, where \<open>nil\<close> is \<open>None\<close>.
\<close>

section \<open>Data\<close>

type_synonym trigger_mode = gostring

definition TriggerModeWebhook :: trigger_mode where "TriggerModeWebhook = ''webhook''"

definition TriggerModePoll :: trigger_mode where "TriggerModePoll = ''poll''"

definition TriggerModeHybrid :: trigger_mode where "TriggerModeHybrid = ''hybrid''"

record repo_config =
  repo_name :: gostring
  repo_url :: gostring
  repo_branch :: gostring
  repo_trigger_mode :: trigger_mode
  repo_poll_interval :: gotime

record host =
  host_name :: gostring
  host_address :: gostring
  host_deploy_dir :: gostring
  host_user :: gostring
  host_port :: int

record project =
  proj_name :: gostring
  proj_repo :: gostring
  proj_repo_subdir :: gostring
  proj_compose_files :: "gostring list"
  proj_targets :: "gostring list"
  proj_watch_paths :: "gostring list"
  proj_deploy_subdir :: gostring
  proj_extra_files :: "gostring list"
  proj_persist_files :: "gostring list option"

record config =
  cfg_hosts :: "host list"
  cfg_repos :: "repo_config list"
  cfg_projects :: "project list"

definition effectiveUser :: "host \<Rightarrow> gostring \<Rightarrow> gostring" where
  "effectiveUser h defaultUser = (if host_user h \<noteq> [] then host_user h else defaultUser)"

definition effectivePort :: "host \<Rightarrow> int \<Rightarrow> int" where
  "effectivePort h defaultPort = (if host_port h \<noteq> 0 then host_port h else defaultPort)"

definition repoIndex :: "config \<Rightarrow> gostring \<rightharpoonup> repo_config" where
  "repoIndex c = indexBy repo_name (cfg_repos c)"

definition hostIndex :: "config \<Rightarrow> gostring \<rightharpoonup> host" where
  "hostIndex c = indexBy host_name (cfg_hosts c)"

definition projectIndex :: "config \<Rightarrow> gostring \<rightharpoonup> project" where
  "projectIndex c = indexBy proj_name (cfg_projects c)"

definition sliceElems :: "'a list option \<Rightarrow> 'a list" where
  "sliceElems s = (case s of None \<Rightarrow> [] | Some xs \<Rightarrow> xs)"

section \<open>Defaults\<close>

definition emptyConfig :: config where
  "emptyConfig = \<lparr>cfg_hosts = [], cfg_repos = [], cfg_projects = []\<rparr>"

definition second :: gotime where "second = 1000000000"

definition defaultRepo :: "repo_config \<Rightarrow> repo_config" where
  "defaultRepo r =
     r\<lparr>repo_branch := (if repo_branch r = [] then ''main'' else repo_branch r),
       repo_trigger_mode := (if repo_trigger_mode r = [] then TriggerModePoll else repo_trigger_mode r),
       repo_poll_interval := (if repo_poll_interval r = 0 then 60 * second else repo_poll_interval r)\<rparr>"

definition defaultProject :: "project \<Rightarrow> project" where
  "defaultProject p =
     p\<lparr>proj_deploy_subdir := (if proj_deploy_subdir p = [] then proj_name p else proj_deploy_subdir p),
       proj_compose_files := (if proj_compose_files p = [] then [''compose.yml''] else proj_compose_files p),
       proj_persist_files := (if proj_persist_files p = None then Some [''.env''] else proj_persist_files p),
       proj_watch_paths := (if proj_watch_paths p = [] \<and> proj_repo_subdir p \<noteq> []
                            then [proj_repo_subdir p @ ''/**''] else proj_watch_paths p)\<rparr>"

definition applyDefaults :: "config \<Rightarrow> config" where
  "applyDefaults c =
     c\<lparr>cfg_repos := map defaultRepo (cfg_repos c), cfg_projects := map defaultProject (cfg_projects c)\<rparr>"

lemma defaultRepo_idem: "defaultRepo (defaultRepo r) = defaultRepo r"
  by (simp add: defaultRepo_def TriggerModePoll_def second_def)

lemma defaultProject_idem: "defaultProject (defaultProject p) = defaultProject p"
  by (simp add: defaultProject_def)

lemma applyDefaults_idem: "applyDefaults (applyDefaults c) = applyDefaults c"
  by (simp add: applyDefaults_def defaultRepo_idem defaultProject_idem)

lemma applyDefaults_names [simp]:
  "map repo_name (cfg_repos (applyDefaults c)) = map repo_name (cfg_repos c)"
  "map proj_name (cfg_projects (applyDefaults c)) = map proj_name (cfg_projects c)"
  "cfg_hosts (applyDefaults c) = cfg_hosts c"
  by (simp_all add: applyDefaults_def defaultRepo_def defaultProject_def o_def)

text \<open>
  Defaults are total and stable: applying them twice is applying them once, names and hosts are
  kept, every repository ends with a branch, a trigger mode and a poll interval, every project with
  compose files and persisted files, and a value the configuration sets is never replaced.
\<close>

theorem applyDefaults_stable:
  "applyDefaults (applyDefaults c) = applyDefaults c
   \<and> cfg_hosts (applyDefaults c) = cfg_hosts c
   \<and> (\<forall>r\<in>set (cfg_repos (applyDefaults c)).
        repo_branch r \<noteq> [] \<and> repo_trigger_mode r \<noteq> [] \<and> repo_poll_interval r \<noteq> 0)
   \<and> (\<forall>p\<in>set (cfg_projects (applyDefaults c)).
        proj_compose_files p \<noteq> [] \<and> proj_persist_files p \<noteq> None
        \<and> (proj_repo_subdir p \<noteq> [] \<longrightarrow> proj_watch_paths p \<noteq> [])
        \<and> (proj_name p \<noteq> [] \<longrightarrow> proj_deploy_subdir p \<noteq> []))
   \<and> (\<forall>r. repo_branch r \<noteq> [] \<and> repo_trigger_mode r \<noteq> [] \<and> repo_poll_interval r \<noteq> 0 \<longrightarrow> defaultRepo r = r)
   \<and> (\<forall>p. proj_compose_files p \<noteq> [] \<and> proj_persist_files p \<noteq> None \<and> proj_watch_paths p \<noteq> []
          \<and> proj_deploy_subdir p \<noteq> [] \<longrightarrow> defaultProject p = p)"
  by (auto simp: applyDefaults_def defaultRepo_idem defaultProject_idem)
     (auto simp: defaultRepo_def defaultProject_def TriggerModePoll_def second_def split: if_splits)

lemma applyDefaults_stable_witness:
  "applyDefaults (applyDefaults emptyConfig) = applyDefaults emptyConfig"
  using applyDefaults_stable [of emptyConfig] by blast

section \<open>Environment references\<close>

definition isNameStart :: "char \<Rightarrow> bool" where
  "isNameStart c \<longleftrightarrow> c = CHR ''_'' \<or> (of_char c \<ge> (65::nat) \<and> of_char c \<le> (90::nat))
                 \<or> (of_char c \<ge> (97::nat) \<and> of_char c \<le> (122::nat))"

definition isNameChar :: "char \<Rightarrow> bool" where
  "isNameChar c \<longleftrightarrow> isNameStart c \<or> isDigit c"

text \<open>
  One match of the expression \<open>envVarRe\<close> at the head of a string: the variable's name, its
  default and the rest. A name is followed by a byte that is no name byte, so the greedy match
  is the only one.
\<close>

definition matchRef :: "gostring \<Rightarrow> (gostring \<times> gostring option \<times> gostring) option" where
  "matchRef s =
     (if \<not> hasPrefix s ''${'' then None
      else let r = drop 2 s; name = takeWhile isNameChar r; r1 = dropWhile isNameChar r in
        if name = [] \<or> \<not> isNameStart (hd name) then None
        else if hasPrefix r1 ''}'' then Some (name, None, drop 1 r1)
        else if hasPrefix r1 '':-'' then
          (let d = takeWhile (\<lambda>c. c \<noteq> CHR ''}'') (drop 2 r1);
               r2 = dropWhile (\<lambda>c. c \<noteq> CHR ''}'') (drop 2 r1)
           in if r2 = [] then None else Some (name, Some d, tl r2))
        else None)"

lemma matchRef_shorter: "matchRef s = Some (n, d, rest) \<Longrightarrow> length rest < length s"
proof -
  assume a: "matchRef s = Some (n, d, rest)"
  let ?r = "drop 2 s" let ?r1 = "dropWhile isNameChar ?r"
  have p: "hasPrefix s ''${''" using a by (auto simp: matchRef_def split: if_splits)
  then have s: "length s = length ?r + 2" by (auto simp: gostr)
  have r1: "length ?r1 \<le> length ?r" by (rule length_dropWhile_le)
  have r2: "length (dropWhile (\<lambda>c. c \<noteq> CHR ''}'') (drop 2 ?r1)) \<le> length ?r1"
    by (metis length_dropWhile_le length_drop diff_le_self dual_order.trans)
  from a have "rest = drop 1 ?r1 \<or> rest = tl (dropWhile (\<lambda>c. c \<noteq> CHR ''}'') (drop 2 ?r1))"
    by (auto simp: matchRef_def Let_def split: if_splits)
  with s r1 r2 show ?thesis by auto
qed

text \<open>
  \<open>expandString\<close>: the text with its references replaced, or the names that are not set. The
  environment is \<open>os.LookupEnv\<close>.
\<close>

definition refValue :: "(gostring \<rightharpoonup> gostring) \<Rightarrow> gostring \<Rightarrow> gostring option \<Rightarrow> gostring + gostring" where
  "refValue env name dflt =
     (let value = (case env name of None \<Rightarrow> [] | Some v \<Rightarrow> v) in
      case dflt of
        Some d \<Rightarrow> if value = [] then Inr d else Inr value
      | None \<Rightarrow> if env name = None then Inl name else Inr value)"

function expandAux :: "(gostring \<rightharpoonup> gostring) \<Rightarrow> gostring \<Rightarrow> gostring list \<times> gostring" where
  "expandAux env [] = ([], [])"
| "expandAux env (c # cs) =
     (case matchRef (c # cs) of
        None \<Rightarrow> (case expandAux env cs of (missing, out) \<Rightarrow> (missing, c # out))
      | Some (name, dflt, rest) \<Rightarrow>
          (case expandAux env rest of (missing, out) \<Rightarrow>
             (case refValue env name dflt of
                Inl m \<Rightarrow> (m # missing, out)
              | Inr v \<Rightarrow> (missing, v @ out))))"
  by pat_completeness auto
termination
proof (relation "measure (\<lambda>(e, s). length s)", goal_cases)
  case (3 env c cs x2 name y dflt rest)
  then show ?case using matchRef_shorter by (metis case_prod_conv in_measure)
qed simp_all

definition expandString :: "(gostring \<rightharpoonup> gostring) \<Rightarrow> gostring \<Rightarrow> gostring list + gostring" where
  "expandString env s =
     (case expandAux env s of (missing, out) \<Rightarrow> if missing \<noteq> [] then Inl missing else Inr out)"

text \<open>Texts built from plain parts, references and references with a default.\<close>

datatype token = Lit gostring | Ref gostring | RefDefault gostring gostring

definition envName :: "gostring \<Rightarrow> bool" where
  "envName n \<longleftrightarrow> n \<noteq> [] \<and> isNameStart (hd n) \<and> list_all isNameChar n"

fun goodToken :: "token \<Rightarrow> bool" where
  "goodToken (Lit s) = (CHR ''$'' \<notin> set s)"
| "goodToken (Ref n) = envName n"
| "goodToken (RefDefault n d) = (envName n \<and> CHR ''}'' \<notin> set d)"

fun renderToken :: "token \<Rightarrow> gostring" where
  "renderToken (Lit s) = s"
| "renderToken (Ref n) = ''${'' @ n @ ''}''"
| "renderToken (RefDefault n d) = ''${'' @ n @ '':-'' @ d @ ''}''"

fun tokenValue :: "(gostring \<rightharpoonup> gostring) \<Rightarrow> token \<Rightarrow> gostring + gostring" where
  "tokenValue env (Lit s) = Inr s"
| "tokenValue env (Ref n) = (case env n of None \<Rightarrow> Inl n | Some v \<Rightarrow> Inr v)"
| "tokenValue env (RefDefault n d) =
     (case env n of None \<Rightarrow> Inr d | Some v \<Rightarrow> Inr (if v = [] then d else v))"

definition missingOf :: "(gostring \<rightharpoonup> gostring) \<Rightarrow> token list \<Rightarrow> gostring list" where
  "missingOf env ts = concat (map (\<lambda>t. case tokenValue env t of Inl n \<Rightarrow> [n] | Inr v \<Rightarrow> []) ts)"

definition textOf :: "(gostring \<rightharpoonup> gostring) \<Rightarrow> token list \<Rightarrow> gostring" where
  "textOf env ts = concat (map (\<lambda>t. case tokenValue env t of Inl n \<Rightarrow> [] | Inr v \<Rightarrow> v) ts)"

lemma nameChar_stop:
  "\<lbrakk>list_all isNameChar n; \<not> isNameChar c\<rbrakk> \<Longrightarrow>
     takeWhile isNameChar (n @ c # r) = n \<and> dropWhile isNameChar (n @ c # r) = c # r"
  by (induction n) auto

lemma default_stop:
  "CHR ''}'' \<notin> set d \<Longrightarrow>
     takeWhile (\<lambda>c. c \<noteq> CHR ''}'') (d @ CHR ''}'' # r) = d
     \<and> dropWhile (\<lambda>c. c \<noteq> CHR ''}'') (d @ CHR ''}'' # r) = CHR ''}'' # r"
  by (induction d) auto

lemma not_nameChar [simp]: "\<not> isNameChar (CHR ''}'')" "\<not> isNameChar (CHR '':'')"
  by (simp_all add: isNameChar_def isNameStart_def isDigit_def)

lemma matchRef_Ref: "envName n \<Longrightarrow> matchRef (''${'' @ n @ ''}'' @ r) = Some (n, None, r)"
  using nameChar_stop [of n "CHR ''}''" r] by (auto simp: matchRef_def envName_def)

lemma matchRef_RefDefault:
  "\<lbrakk>envName n; CHR ''}'' \<notin> set d\<rbrakk> \<Longrightarrow>
     matchRef (''${'' @ n @ '':-'' @ d @ ''}'' @ r) = Some (n, Some d, r)"
  using nameChar_stop [of n "CHR '':''" "CHR ''-'' # d @ CHR ''}'' # r"] default_stop [of d r]
  by (auto simp: matchRef_def envName_def)

lemma expandAux_Lit:
  "CHR ''$'' \<notin> set s \<Longrightarrow>
     expandAux env (s @ r) = (case expandAux env r of (missing, out) \<Rightarrow> (missing, s @ out))"
proof (induction s)
  case (Cons c s)
  then have "matchRef (c # s @ r) = None" by (auto simp: matchRef_def)
  with Cons show ?case by (simp split: prod.split)
qed (simp split: prod.split)

lemma expandAux_tokens:
  "list_all goodToken ts \<Longrightarrow>
     expandAux env (concat (map renderToken ts)) = (missingOf env ts, textOf env ts)"
proof (induction ts)
  case Nil
  then show ?case by (simp add: missingOf_def textOf_def)
next
  case (Cons t ts)
  let ?r = "concat (map renderToken ts)"
  have ih: "expandAux env ?r = (missingOf env ts, textOf env ts)" using Cons by simp
  show ?case
  proof (cases t)
    case (Lit s)
    with Cons.prems ih show ?thesis by (simp add: expandAux_Lit missingOf_def textOf_def)
  next
    case (Ref n)
    with Cons.prems have "matchRef (''${'' @ n @ ''}'' @ ?r) = Some (n, None, ?r)"
      by (intro matchRef_Ref) simp
    with Ref ih show ?thesis
      by (simp add: missingOf_def textOf_def refValue_def split: option.split)
  next
    case (RefDefault n d)
    with Cons.prems have "matchRef (''${'' @ n @ '':-'' @ d @ ''}'' @ ?r) = Some (n, Some d, ?r)"
      by (intro matchRef_RefDefault) simp_all
    with RefDefault ih show ?thesis
      by (simp add: missingOf_def textOf_def refValue_def split: option.split)
  qed
qed

text \<open>
  Environment expansion does what the documentation of \<open>Parse\<close> says: in a text made of plain
  parts, references \<open>${NAME}\<close> and references with a default \<open>${NAME:-default}\<close>, every reference is
  replaced by the variable's value, an unset or empty one by its default, and the result is an
  error naming exactly the unset variables without default, in order.
\<close>

theorem expandString_tokens:
  assumes "list_all goodToken ts"
  shows "expandString env (concat (map renderToken ts)) =
         (if missingOf env ts \<noteq> [] then Inl (missingOf env ts) else Inr (textOf env ts))"
  by (simp add: expandString_def expandAux_tokens [OF assms])

lemma expandString_tokens_witness:
  "expandString [''H'' \<mapsto> ''db''] ''u@${H}:${P:-22}'' = Inr ''u@db:22''"
  using expandString_tokens [of "[Lit ''u@'', Ref ''H'', Lit '':'', RefDefault ''P'' ''22'']" "[''H'' \<mapsto> ''db'']"]
  by (simp add: envName_def isNameChar_def isNameStart_def missingOf_def textOf_def)

text \<open>
  The YAML tree of the third-party decoder, as far as \<open>expandNode\<close> looks at it: a scalar with its
  value, whether its style is plain and its tag, and every other node with its children.
\<close>

datatype yaml_node =
    ScalarNode (nodeValue: gostring) (nodePlain: bool) (nodeTag: gostring)
  | ContentNode "yaml_node list"

fun expandNode :: "(gostring \<rightharpoonup> gostring) \<Rightarrow> yaml_node \<Rightarrow> gostring list + yaml_node"
  and expandNodes :: "(gostring \<rightharpoonup> gostring) \<Rightarrow> yaml_node list \<Rightarrow> gostring list + yaml_node list" where
  "expandNode env (ScalarNode v plain tag) =
     (case expandString env v of
        Inl e \<Rightarrow> Inl e
      | Inr v' \<Rightarrow> if v' \<noteq> v then Inr (ScalarNode v' plain (if plain then [] else tag))
                  else Inr (ScalarNode v plain tag))"
| "expandNode env (ContentNode cs) =
     (case expandNodes env cs of Inl e \<Rightarrow> Inl e | Inr cs' \<Rightarrow> Inr (ContentNode cs'))"
| "expandNodes env [] = Inr []"
| "expandNodes env (c # cs) =
     (case expandNode env c of
        Inl e \<Rightarrow> Inl e
      | Inr c' \<Rightarrow> (case expandNodes env cs of Inl e \<Rightarrow> Inl e | Inr cs' \<Rightarrow> Inr (c' # cs')))"

datatype decode_result = DecodeEOF | DecodeErr | DecodeOk yaml_node

datatype parse_error = InvalidYaml | EnvExpansion "gostring list" | InvalidConfig | CannotRead

text \<open>The decoder and the unmarshaller of the YAML package are parameters.\<close>

definition parseConfig ::
  "(gostring \<Rightarrow> decode_result) \<Rightarrow> (yaml_node \<Rightarrow> config option) \<Rightarrow> (gostring \<rightharpoonup> gostring)
   \<Rightarrow> gostring \<Rightarrow> parse_error + config" where
  "parseConfig decode unmarshal env data =
     (case decode data of
        DecodeEOF \<Rightarrow> Inr (applyDefaults emptyConfig)
      | DecodeErr \<Rightarrow> Inl InvalidYaml
      | DecodeOk root \<Rightarrow>
          (case expandNode env root of
             Inl missing \<Rightarrow> Inl (EnvExpansion missing)
           | Inr root' \<Rightarrow>
               (case unmarshal root' of
                  None \<Rightarrow> Inl InvalidConfig
                | Some c \<Rightarrow> Inr (applyDefaults c))))"

definition loadConfigFile ::
  "(gostring \<Rightarrow> decode_result) \<Rightarrow> (yaml_node \<Rightarrow> config option) \<Rightarrow> (gostring \<rightharpoonup> gostring)
   \<Rightarrow> gostring option \<Rightarrow> parse_error + config" where
  "loadConfigFile decode unmarshal env content =
     (case content of None \<Rightarrow> Inl CannotRead | Some data \<Rightarrow> parseConfig decode unmarshal env data)"

end
