(* ===== verification/Config_Validate.thy ===== *)
theory Config_Validate
  imports Config
begin

text \<open>
  The validator of the deploy configuration (\<open>internal/config/validate.go\<close>). A message is a
  constructor with the values the code formats into it; the field is the text the code builds.
  The theory ends with the equivalence between an empty list of blocking issues and the
  predicate \<open>wfConfig\<close>.
\<close>

datatype severity = SeverityError | SeverityWarning

datatype persist_error = PersistEmpty | PersistAbsolute gostring | PersistDotDot gostring

datatype watch_error = WatchEmpty | WatchBadPattern gostring

datatype issue_message =
    HostsRequired | ReposRequired | NoProjects
  | NameRequired | AddressRequired | DeployDirRequired | PortRange int
  | DuplicateHost gostring | DuplicateRepo gostring | DuplicateProject gostring
  | UrlRequired | BranchRequired | UnknownTriggerMode gostring
  | RepoRequired | UnknownRepo gostring | RepoSubdirRequired | ComposeFilesRequired
  | BadWatchPath watch_error | BadPersistFile persist_error
  | TargetsRequired | UnknownHost gostring

record validation_issue =
  issue_field :: gostring
  issue_message :: issue_message
  issue_severity :: severity

definition mkError :: "gostring \<Rightarrow> issue_message \<Rightarrow> validation_issue" where
  "mkError field m = \<lparr>issue_field = field, issue_message = m, issue_severity = SeverityError\<rparr>"

definition mkWarning :: "gostring \<Rightarrow> issue_message \<Rightarrow> validation_issue" where
  "mkWarning field m = \<lparr>issue_field = field, issue_message = m, issue_severity = SeverityWarning\<rparr>"

definition addIf :: "bool \<Rightarrow> gostring \<Rightarrow> issue_message \<Rightarrow> validation_issue list" where
  "addIf b field m = (if b then [mkError field m] else [])"

definition validatePersistFile :: "gostring \<Rightarrow> persist_error option" where
  "validatePersistFile name =
     (if name = [] then Some PersistEmpty
      else if hasPrefix name ''/'' then Some (PersistAbsolute name)
      else if ''..'' \<in> set (splitOn slash name) then Some (PersistDotDot name)
      else None)"

fun watchSegments :: "gostring \<Rightarrow> gostring list \<Rightarrow> watch_error option" where
  "watchSegments pattern [] = None"
| "watchSegments pattern (seg # segs) =
     (if seg = ''**'' then watchSegments pattern segs
      else if globMatch seg ''x'' = None then Some (WatchBadPattern pattern)
      else watchSegments pattern segs)"

definition validateWatchPath :: "gostring \<Rightarrow> watch_error option" where
  "validateWatchPath pattern =
     (if pattern = [] then Some WatchEmpty
      else watchSegments pattern (splitOn slash pattern))"

definition indexedPrefix :: "gostring \<Rightarrow> nat \<Rightarrow> gostring" where
  "indexedPrefix name i = name @ ''['' @ itoaNat i @ '']''"

text \<open>
  The three loops over hosts, repositories and projects with their sets of names already seen.
  A name enters the set when it is neither empty nor a duplicate.
\<close>

fun validateHosts :: "nat \<Rightarrow> host list \<Rightarrow> gostring set \<Rightarrow> validation_issue list \<times> gostring set" where
  "validateHosts i [] seen = ([], seen)"
| "validateHosts i (h # hs) seen =
     (let pre = indexedPrefix ''hosts'' i;
          seen' = (if host_name h = [] then seen else insert (host_name h) seen);
          mine = (if host_name h = [] then [mkError (pre @ ''.name'') NameRequired]
                  else addIf (host_name h \<in> seen) (pre @ ''.name'') (DuplicateHost (host_name h)))
               @ addIf (host_address h = []) (pre @ ''.address'') AddressRequired
               @ addIf (host_deploy_dir h = []) (pre @ ''.deploy_dir'') DeployDirRequired
               @ addIf (host_port h \<noteq> 0 \<and> (host_port h < 1 \<or> host_port h > 65535))
                       (pre @ ''.port'') (PortRange (host_port h))
      in (mine @ fst (validateHosts (Suc i) hs seen'), snd (validateHosts (Suc i) hs seen')))"

fun validateRepos :: "nat \<Rightarrow> repo_config list \<Rightarrow> gostring set \<Rightarrow> validation_issue list \<times> gostring set" where
  "validateRepos i [] seen = ([], seen)"
| "validateRepos i (r # rs) seen =
     (let pre = indexedPrefix ''repos'' i;
          seen' = (if repo_name r = [] then seen else insert (repo_name r) seen);
          mine = (if repo_name r = [] then [mkError (pre @ ''.name'') NameRequired]
                  else addIf (repo_name r \<in> seen) (pre @ ''.name'') (DuplicateRepo (repo_name r)))
               @ addIf (repo_url r = []) (pre @ ''.url'') UrlRequired
               @ addIf (repo_branch r = []) (pre @ ''.branch'') BranchRequired
               @ addIf (repo_trigger_mode r \<notin> {TriggerModeWebhook, TriggerModePoll, TriggerModeHybrid, []})
                       (pre @ ''.trigger_mode'') (UnknownTriggerMode (repo_trigger_mode r))
      in (mine @ fst (validateRepos (Suc i) rs seen'), snd (validateRepos (Suc i) rs seen')))"

fun validateEach ::
  "gostring \<Rightarrow> ('a \<Rightarrow> issue_message option) \<Rightarrow> nat \<Rightarrow> 'a list \<Rightarrow> validation_issue list" where
  "validateEach pre check j [] = []"
| "validateEach pre check j (x # xs) =
     (case check x of None \<Rightarrow> [] | Some m \<Rightarrow> [mkError (indexedPrefix pre j) m])
     @ validateEach pre check (Suc j) xs"

definition checkTarget :: "gostring set \<Rightarrow> gostring \<Rightarrow> issue_message option" where
  "checkTarget seenHosts t = (if t \<in> seenHosts then None else Some (UnknownHost t))"

definition projectIssues ::
  "gostring \<Rightarrow> gostring set \<Rightarrow> gostring set \<Rightarrow> gostring set \<Rightarrow> project \<Rightarrow> validation_issue list" where
  "projectIssues pre seenHosts seenRepos seen p =
     (if proj_name p = [] then [mkError (pre @ ''.name'') NameRequired]
      else addIf (proj_name p \<in> seen) (pre @ ''.name'') (DuplicateProject (proj_name p)))
     @ (if proj_repo p = [] then [mkError (pre @ ''.repo'') RepoRequired]
        else addIf (proj_repo p \<notin> seenRepos) (pre @ ''.repo'') (UnknownRepo (proj_repo p)))
     @ addIf (proj_repo_subdir p = []) (pre @ ''.repo_subdir'') RepoSubdirRequired
     @ addIf (proj_compose_files p = []) (pre @ ''.compose_files'') ComposeFilesRequired
     @ validateEach (pre @ ''.watch_paths'') (map_option BadWatchPath \<circ> validateWatchPath) 0 (proj_watch_paths p)
     @ validateEach (pre @ ''.persist_files'') (map_option BadPersistFile \<circ> validatePersistFile) 0
         (sliceElems (proj_persist_files p))
     @ addIf (proj_targets p = []) (pre @ ''.targets'') TargetsRequired
     @ validateEach (pre @ ''.targets'') (checkTarget seenHosts) 0 (proj_targets p)"

fun validateProjects ::
  "gostring set \<Rightarrow> gostring set \<Rightarrow> nat \<Rightarrow> project list \<Rightarrow> gostring set \<Rightarrow> validation_issue list" where
  "validateProjects seenHosts seenRepos i [] seen = []"
| "validateProjects seenHosts seenRepos i (p # ps) seen =
     projectIssues (indexedPrefix ''projects'' i) seenHosts seenRepos seen p
     @ validateProjects seenHosts seenRepos (Suc i) ps
         (if proj_name p = [] then seen else insert (proj_name p) seen)"

definition validate :: "config \<Rightarrow> validation_issue list" where
  "validate c =
     (let (hostIssues, seenHosts) = validateHosts 0 (cfg_hosts c) {};
          (repoIssues, seenRepos) = validateRepos 0 (cfg_repos c) {}
      in addIf (cfg_hosts c = []) ''hosts'' HostsRequired @ hostIssues
         @ addIf (cfg_repos c = []) ''repos'' ReposRequired @ repoIssues
         @ (if cfg_projects c = [] then [mkWarning ''projects'' NoProjects] else [])
         @ validateProjects seenHosts seenRepos 0 (cfg_projects c) {})"

definition blockingIssues :: "config \<Rightarrow> validation_issue list" where
  "blockingIssues c = filter (\<lambda>i. issue_severity i = SeverityError) (validate c)"

section \<open>Well-formed configurations\<close>

definition wfHost :: "host \<Rightarrow> bool" where
  "wfHost h \<longleftrightarrow> host_name h \<noteq> [] \<and> host_address h \<noteq> [] \<and> host_deploy_dir h \<noteq> []
              \<and> 0 \<le> host_port h \<and> host_port h \<le> 65535"

definition wfRepo :: "repo_config \<Rightarrow> bool" where
  "wfRepo r \<longleftrightarrow> repo_name r \<noteq> [] \<and> repo_url r \<noteq> [] \<and> repo_branch r \<noteq> []
              \<and> repo_trigger_mode r \<in> {TriggerModeWebhook, TriggerModePoll, TriggerModeHybrid, []}"

definition wfWatchPath :: "gostring \<Rightarrow> bool" where
  "wfWatchPath w \<longleftrightarrow> w \<noteq> [] \<and> (\<forall>seg\<in>set (splitOn slash w). seg \<noteq> ''**'' \<longrightarrow> restOk seg)"

definition wfPersistFile :: "gostring \<Rightarrow> bool" where
  "wfPersistFile f \<longleftrightarrow> f \<noteq> [] \<and> \<not> hasPrefix f ''/'' \<and> ''..'' \<notin> set (splitOn slash f)"

definition wfProject :: "config \<Rightarrow> project \<Rightarrow> bool" where
  "wfProject c p \<longleftrightarrow>
     proj_name p \<noteq> [] \<and> proj_repo p \<in> repo_name ` set (cfg_repos c) \<and> proj_repo_subdir p \<noteq> []
     \<and> proj_compose_files p \<noteq> [] \<and> list_all wfWatchPath (proj_watch_paths p)
     \<and> list_all wfPersistFile (sliceElems (proj_persist_files p))
     \<and> proj_targets p \<noteq> [] \<and> set (proj_targets p) \<subseteq> host_name ` set (cfg_hosts c)"

definition wfConfig :: "config \<Rightarrow> bool" where
  "wfConfig c \<longleftrightarrow>
     cfg_hosts c \<noteq> [] \<and> cfg_repos c \<noteq> []
     \<and> list_all wfHost (cfg_hosts c) \<and> distinct (map host_name (cfg_hosts c))
     \<and> list_all wfRepo (cfg_repos c) \<and> distinct (map repo_name (cfg_repos c))
     \<and> list_all (wfProject c) (cfg_projects c) \<and> distinct (map proj_name (cfg_projects c))"

section \<open>The validator decides well-formedness\<close>

definition allErrors :: "validation_issue list \<Rightarrow> bool" where
  "allErrors is \<longleftrightarrow> list_all (\<lambda>i. issue_severity i = SeverityError) is"

lemma allErrors_simps [simp]:
  "allErrors []" "allErrors (a @ b) \<longleftrightarrow> allErrors a \<and> allErrors b"
  "allErrors (mkError f m # is) \<longleftrightarrow> allErrors is"
  by (simp_all add: allErrors_def mkError_def)

lemma allErrors_addIf [simp]: "allErrors (addIf b f m)"
  by (simp add: addIf_def)

lemma addIf_Nil [simp]: "addIf b f m = [] \<longleftrightarrow> \<not> b"
  by (simp add: addIf_def)

lemma allErrors_validateEach [simp]: "allErrors (validateEach pre check j xs)"
  by (induction pre check j xs rule: validateEach.induct) (auto split: option.splits)

lemma validateEach_Nil [simp]: "validateEach pre check j xs = [] \<longleftrightarrow> (\<forall>x\<in>set xs. check x = None)"
  by (induction pre check j xs rule: validateEach.induct) (auto split: option.splits)

lemma allErrors_parts [simp]:
  "allErrors (fst (validateHosts i hs seen))"
  "allErrors (fst (validateRepos i rs seen))"
  "allErrors (projectIssues pre sh sr seen p)"
  "allErrors (validateProjects sh sr i ps seen)"
proof -
  show "allErrors (fst (validateHosts i hs seen))"
    by (induction i hs seen rule: validateHosts.induct) (simp_all add: Let_def)
  show "allErrors (fst (validateRepos i rs seen))"
    by (induction i rs seen rule: validateRepos.induct) (simp_all add: Let_def)
  show pi: "allErrors (projectIssues pre sh sr seen p)" for pre sh sr seen p
    by (simp add: projectIssues_def)
  show "allErrors (validateProjects sh sr i ps seen)"
    by (induction sh sr i ps seen rule: validateProjects.induct) (simp_all add: pi)
qed

lemma filter_allErrors: "allErrors is \<Longrightarrow> filter (\<lambda>i. issue_severity i = SeverityError) is = is"
  by (auto simp: allErrors_def list_all_iff filter_id_conv)

lemma blockingIssues_eq:
  "blockingIssues c =
     addIf (cfg_hosts c = []) ''hosts'' HostsRequired @ fst (validateHosts 0 (cfg_hosts c) {})
     @ addIf (cfg_repos c = []) ''repos'' ReposRequired @ fst (validateRepos 0 (cfg_repos c) {})
     @ validateProjects (snd (validateHosts 0 (cfg_hosts c) {})) (snd (validateRepos 0 (cfg_repos c) {}))
         0 (cfg_projects c) {}"
  unfolding blockingIssues_def validate_def
  by (simp add: Let_def case_prod_beta filter_allErrors mkWarning_def)

lemma validateHosts_seen:
  "snd (validateHosts i hs seen) = seen \<union> (host_name ` set hs - {[]})"
  by (induction i hs seen rule: validateHosts.induct) (auto simp: Let_def)

lemma validateRepos_seen:
  "snd (validateRepos i rs seen) = seen \<union> (repo_name ` set rs - {[]})"
  by (induction i rs seen rule: validateRepos.induct) (auto simp: Let_def)

lemma validateHosts_Nil:
  "fst (validateHosts i hs seen) = [] \<longleftrightarrow>
     list_all wfHost hs \<and> distinct (map host_name hs) \<and> host_name ` set hs \<inter> seen = {}"
  by (induction i hs seen rule: validateHosts.induct) (auto simp: Let_def wfHost_def)

lemma validateRepos_Nil:
  "fst (validateRepos i rs seen) = [] \<longleftrightarrow>
     list_all wfRepo rs \<and> distinct (map repo_name rs) \<and> repo_name ` set rs \<inter> seen = {}"
  by (induction i rs seen rule: validateRepos.induct) (auto simp: Let_def wfRepo_def)

lemma watchSegments_None:
  "watchSegments pat segs = None \<longleftrightarrow> (\<forall>s\<in>set segs. s \<noteq> ''**'' \<longrightarrow> restOk s)"
  by (induction pat segs rule: watchSegments.induct) (auto simp: globMatch_bad)

lemma validateWatchPath_None: "validateWatchPath w = None \<longleftrightarrow> wfWatchPath w"
  by (simp add: validateWatchPath_def wfWatchPath_def watchSegments_None)

lemma validatePersistFile_None: "validatePersistFile f = None \<longleftrightarrow> wfPersistFile f"
  by (simp add: validatePersistFile_def wfPersistFile_def)

definition projectOk :: "gostring set \<Rightarrow> gostring set \<Rightarrow> project \<Rightarrow> bool" where
  "projectOk sh sr p \<longleftrightarrow>
     proj_name p \<noteq> [] \<and> proj_repo p \<noteq> [] \<and> proj_repo p \<in> sr \<and> proj_repo_subdir p \<noteq> []
     \<and> proj_compose_files p \<noteq> [] \<and> list_all wfWatchPath (proj_watch_paths p)
     \<and> list_all wfPersistFile (sliceElems (proj_persist_files p))
     \<and> proj_targets p \<noteq> [] \<and> set (proj_targets p) \<subseteq> sh"

lemma projectIssues_Nil:
  "projectIssues pre sh sr seen p = [] \<longleftrightarrow> projectOk sh sr p \<and> proj_name p \<notin> seen"
  by (auto simp: projectIssues_def projectOk_def checkTarget_def list_all_iff
        validateWatchPath_None validatePersistFile_None)

lemma validateProjects_Nil:
  "validateProjects sh sr i ps seen = [] \<longleftrightarrow>
     list_all (projectOk sh sr) ps \<and> distinct (map proj_name ps) \<and> proj_name ` set ps \<inter> seen = {}"
  by (induction sh sr i ps seen rule: validateProjects.induct)
     (auto simp: projectIssues_Nil, auto simp: projectOk_def)

lemma blockingIssues_Nil_wf: "blockingIssues c = [] \<longleftrightarrow> wfConfig c"
proof -
  let ?sh = "host_name ` set (cfg_hosts c) - {[]}" and ?sr = "repo_name ` set (cfg_repos c) - {[]}"
  have "list_all wfHost (cfg_hosts c) \<Longrightarrow> ?sh = host_name ` set (cfg_hosts c)"
    by (auto simp: list_all_iff wfHost_def)
  moreover have "list_all wfRepo (cfg_repos c) \<Longrightarrow> ?sr = repo_name ` set (cfg_repos c)"
    by (auto simp: list_all_iff wfRepo_def)
  moreover have "projectOk (host_name ` set (cfg_hosts c)) (repo_name ` set (cfg_repos c)) p \<longleftrightarrow> wfProject c p"
    if "list_all wfRepo (cfg_repos c)" for p
    using that by (auto simp: projectOk_def wfProject_def list_all_iff wfRepo_def)
  ultimately show ?thesis
    unfolding blockingIssues_eq wfConfig_def
    by (auto simp: validateHosts_Nil validateRepos_Nil validateProjects_Nil validateHosts_seen
          validateRepos_seen list_all_iff)
qed

lemma wfConfigD:
  assumes "wfConfig c"
  shows "distinct (map host_name (cfg_hosts c))" "distinct (map repo_name (cfg_repos c))"
    "distinct (map proj_name (cfg_projects c))"
    "p \<in> set (cfg_projects c) \<Longrightarrow> wfProject c p"
    "h \<in> set (cfg_hosts c) \<Longrightarrow> wfHost h"
    "r \<in> set (cfg_repos c) \<Longrightarrow> wfRepo r"
  using assms by (auto simp: wfConfig_def list_all_iff)

text \<open>
  C9. The validator decides well-formedness: a configuration has no blocking issue exactly when it has
  hosts and repositories, their names and the project names are distinct and not empty, every host,
  repository and project has its required fields in range, every watch path is a valid pattern,
  every persisted file stays inside the deploy directory, and every project refers to a declared
  repository and to declared hosts.
\<close>

theorem validate_decides_wf: "blockingIssues c = [] \<longleftrightarrow> wfConfig c"
  by (rule blockingIssues_Nil_wf)

section \<open>A small configuration\<close>

definition demoHost :: host where
  "demoHost = \<lparr>host_name = ''h1'', host_address = ''10.0.0.1'', host_deploy_dir = ''/srv'',
               host_user = [], host_port = 0\<rparr>"

definition demoRepo :: repo_config where
  "demoRepo = \<lparr>repo_name = ''app'', repo_url = ''git@x:app.git'', repo_branch = ''main'',
               repo_trigger_mode = TriggerModePoll, repo_poll_interval = 60 * second\<rparr>"

definition demoProject :: project where
  "demoProject = \<lparr>proj_name = ''web'', proj_repo = ''app'', proj_repo_subdir = ''web'',
                  proj_compose_files = [''compose.yml''], proj_targets = [''h1''],
                  proj_watch_paths = [], proj_deploy_subdir = ''web'', proj_extra_files = [],
                  proj_persist_files = Some [''.env'']\<rparr>"

definition demoConfig :: config where
  "demoConfig = \<lparr>cfg_hosts = [demoHost], cfg_repos = [demoRepo], cfg_projects = [demoProject]\<rparr>"

lemma demoConfig_wf: "wfConfig demoConfig"
  by code_simp

end
