(* ===== verification/Planner.thy ===== *)
theory Planner
  imports Config_Validate
begin

text \<open>
  The planner (\<open>internal/planner/planner.go\<close>): from a push event to the project-host pairs to
  deploy. \<open>ChangedFiles\<close> distinguishes \<open>nil\<close> (unknown difference, \<open>None\<close>) from the empty list.
\<close>

section \<open>Events and targets\<close>

type_synonym trigger_source = gostring

definition TriggerWebhook :: trigger_source where "TriggerWebhook = ''webhook''"

definition TriggerPoll :: trigger_source where "TriggerPoll = ''poll''"

definition TriggerReconcileAddition :: trigger_source where
  "TriggerReconcileAddition = ''addition''"

definition TriggerReconcileProjectChange :: trigger_source where
  "TriggerReconcileProjectChange = ''change''"

definition TriggerResume :: trigger_source where "TriggerResume = ''resume''"

definition TriggerRedeploy :: trigger_source where "TriggerRedeploy = ''redeploy''"

record deploy_target =
  t_project :: project
  t_host :: host
  t_repo :: repo_config

record repo_event =
  ev_source :: trigger_source
  ev_delivery_id :: gostring
  ev_repo_name :: gostring
  ev_branch :: gostring
  ev_commit_sha :: gostring
  ev_changed_files :: "gostring list option"
  ev_forced_targets :: "deploy_target list"
  ev_redeploy :: bool

section \<open>Path patterns\<close>

fun matchParts :: "gostring list \<Rightarrow> gostring list \<Rightarrow> bool" where
  "matchParts [] fileParts = (fileParts = [])"
| "matchParts (p # ps) fileParts =
     (if p = ''**'' then
        matchParts ps fileParts
        \<or> (case fileParts of [] \<Rightarrow> False | f # fs \<Rightarrow> matchParts (p # ps) fs)
      else (case fileParts of
              [] \<Rightarrow> False
            | f # fs \<Rightarrow> (case globMatch p f of Some True \<Rightarrow> matchParts ps fs | _ \<Rightarrow> False)))"

declare matchParts.simps(2) [simp del]

lemma matchParts_Star [plan]:
  "matchParts (''**'' # ps) [] \<longleftrightarrow> matchParts ps []"
  "matchParts (''**'' # ps) (g # gs) \<longleftrightarrow> matchParts ps (g # gs) \<or> matchParts (''**'' # ps) gs"
  by (subst matchParts.simps(2), simp)+

lemma matchParts_Seg [plan]:
  "p \<noteq> ''**'' \<Longrightarrow> \<not> matchParts (p # ps) []"
  "p \<noteq> ''**'' \<Longrightarrow>
   matchParts (p # ps) (g # gs) \<longleftrightarrow> globMatch p g = Some True \<and> matchParts ps gs"
  by (subst matchParts.simps(2), simp split: option.split bool.split)+

definition matchPath :: "gostring \<Rightarrow> gostring \<Rightarrow> bool" where
  "matchPath pattern filePath = matchParts (splitOn slash pattern) (splitOn slash filePath)"

definition filesMatchProject :: "gostring list \<Rightarrow> gostring list option \<Rightarrow> bool" where
  "filesMatchProject watchPaths changedFiles =
     (if watchPaths = [] then True
      else case changedFiles of
        None \<Rightarrow> True
      | Some files \<Rightarrow> list_ex (\<lambda>f. list_ex (\<lambda>w. matchPath w f) watchPaths) files)"

definition watchPathsOf :: "project \<Rightarrow> gostring list" where
  "watchPathsOf p =
     (if proj_watch_paths p = [] \<and> proj_repo_subdir p \<noteq> [] then [proj_repo_subdir p @ ''/**'']
      else proj_watch_paths p)"

definition projectMatchesChangedFiles :: "project \<Rightarrow> gostring list option \<Rightarrow> bool" where
  "projectMatchesChangedFiles p changedFiles = filesMatchProject (watchPathsOf p) changedFiles"

section \<open>Target selection\<close>

fun targetsOn ::
  "(gostring \<rightharpoonup> host) \<Rightarrow> project \<Rightarrow> repo_config \<Rightarrow> gostring list \<Rightarrow> deploy_target list" where
  "targetsOn hostByName p r [] = []"
| "targetsOn hostByName p r (n # ns) =
     (case hostByName n of
        None \<Rightarrow> targetsOn hostByName p r ns
      | Some h \<Rightarrow> \<lparr>t_project = p, t_host = h, t_repo = r\<rparr> # targetsOn hostByName p r ns)"

fun allTargetsOf ::
  "(gostring \<rightharpoonup> repo_config) \<Rightarrow> (gostring \<rightharpoonup> host) \<Rightarrow> project list \<Rightarrow> deploy_target list" where
  "allTargetsOf repoByName hostByName [] = []"
| "allTargetsOf repoByName hostByName (p # ps) =
     (case repoByName (proj_repo p) of
        None \<Rightarrow> allTargetsOf repoByName hostByName ps
      | Some r \<Rightarrow> targetsOn hostByName p r (proj_targets p) @ allTargetsOf repoByName hostByName ps)"

definition allTargets :: "config \<Rightarrow> deploy_target list" where
  "allTargets c = allTargetsOf (repoIndex c) (hostIndex c) (cfg_projects c)"

definition targetsForRepo :: "config \<Rightarrow> gostring \<Rightarrow> deploy_target list" where
  "targetsForRepo c repoName = filter (\<lambda>t. repo_name (t_repo t) = repoName) (allTargets c)"

fun planOf ::
  "(gostring \<rightharpoonup> repo_config) \<Rightarrow> (gostring \<rightharpoonup> host) \<Rightarrow> repo_event \<Rightarrow> project list
   \<Rightarrow> deploy_target list" where
  "planOf repoByName hostByName ev [] = []"
| "planOf repoByName hostByName ev (p # ps) =
     (if proj_repo p \<noteq> ev_repo_name ev then planOf repoByName hostByName ev ps
      else if \<not> filesMatchProject (watchPathsOf p) (ev_changed_files ev)
      then planOf repoByName hostByName ev ps
      else (case repoByName (proj_repo p) of
              None \<Rightarrow> planOf repoByName hostByName ev ps
            | Some r \<Rightarrow> targetsOn hostByName p r (proj_targets p)
                        @ planOf repoByName hostByName ev ps))"

definition plan :: "config \<Rightarrow> repo_event \<Rightarrow> deploy_target list" where
  "plan c ev =
     (if ev_forced_targets ev \<noteq> [] then ev_forced_targets ev
      else planOf (repoIndex c) (hostIndex c) ev (cfg_projects c))"

section \<open>What a pattern matches\<close>

text \<open>
  The documented meaning: \<open>**\<close> stands for any number of path segments, none included, and every
  other segment matches one segment by \<open>filepath.Match\<close>.
\<close>

inductive segMatch :: "gostring list \<Rightarrow> gostring list \<Rightarrow> bool" where
  segMatch_Nil: "segMatch [] []"
| segMatch_Star: "segMatch ps fs \<Longrightarrow> segMatch (''**'' # ps) (skipped @ fs)"
| segMatch_Seg: "\<lbrakk>p \<noteq> ''**''; globMatch p f = Some True; segMatch ps fs\<rbrakk> \<Longrightarrow> segMatch (p # ps) (f # fs)"

inductive_cases segMatch_NilE: "segMatch [] fs"
inductive_cases segMatch_ConsE: "segMatch (p # ps) fs"
inductive_simps segMatch_Nil_iff [plan]: "segMatch [] fs"
inductive_simps segMatch_Seg_Nil: "segMatch (p # ps) []"

lemma segMatch_Star_iff:
  "segMatch (''**'' # ps) [] \<longleftrightarrow> segMatch ps []"
  "segMatch (''**'' # ps) (g # gs) \<longleftrightarrow> segMatch ps (g # gs) \<or> segMatch (''**'' # ps) gs"
proof -
  show "segMatch (''**'' # ps) [] \<longleftrightarrow> segMatch ps []"
    using segMatch_Star [of ps "[]" "[]"] by (auto elim: segMatch_ConsE)
  show "segMatch (''**'' # ps) (g # gs) \<longleftrightarrow> segMatch ps (g # gs) \<or> segMatch (''**'' # ps) gs"
    (is "?l \<longleftrightarrow> ?r")
  proof
    assume ?l
    then obtain sk hs where fs: "g # gs = sk @ hs" and m: "segMatch ps hs"
      by (auto elim: segMatch_ConsE)
    show ?r
    proof (cases sk)
      case Nil
      with fs m show ?thesis by simp
    next
      case (Cons h sk')
      with fs segMatch_Star [OF m, of sk'] show ?thesis by simp
    qed
  next
    assume ?r
    then show ?l
    proof
      assume "segMatch ps (g # gs)"
      from segMatch_Star [OF this, of "[]"] show ?l by simp
    next
      assume "segMatch (''**'' # ps) gs"
      then obtain sk hs where "gs = sk @ hs" "segMatch ps hs" by (auto elim: segMatch_ConsE)
      with segMatch_Star [of ps hs "g # sk"] show ?l by simp
    qed
  qed
qed

lemma segMatch_Seg_iff:
  "p \<noteq> ''**'' \<Longrightarrow> \<not> segMatch (p # ps) []"
  "p \<noteq> ''**'' \<Longrightarrow>
   segMatch (p # ps) (g # gs) \<longleftrightarrow> globMatch p g = Some True \<and> segMatch ps gs"
  by (auto elim: segMatch_ConsE intro: segMatch_Seg)

lemma matchParts_segMatch: "matchParts ps fs \<longleftrightarrow> segMatch ps fs"
proof (induction ps fs rule: matchParts.induct)
  case (1 fs)
  show ?case by (auto simp: segMatch_Nil_iff)
next
  case (2 p ps fs)
  show ?case
  proof (cases "p = ''**''"; cases fs)
    fix g gs
    assume s: "p = ''**''" "fs = g # gs"
    from 2(1,2) [OF s(1)] s show ?thesis by (simp add: matchParts_Star segMatch_Star_iff)
  next
    fix g gs
    assume s: "p \<noteq> ''**''" "fs = g # gs"
    from 2(3) [OF s(1) s(2)] s show ?thesis by (auto simp: matchParts_Seg segMatch_Seg_iff)
  qed (use 2(1) in \<open>simp_all add: matchParts_Star segMatch_Star_iff matchParts_Seg segMatch_Seg_iff\<close>)
qed

lemma segMatch_all: "segMatch [''**''] fs"
  using segMatch_Star [OF segMatch_Nil, of fs] by simp

lemma literal_not_star: "literalPattern p \<Longrightarrow> p \<noteq> ''**''"
proof
  assume "literalPattern p" and "p = ''**''"
  then have "\<not> isMeta (CHR ''*'')" by simp
  then show False by (simp add: isMeta_def)
qed

lemma segMatch_literal_dir:
  assumes "list_all literalPattern ps"
  shows "segMatch (ps @ [''**'']) fs \<longleftrightarrow> prefix ps fs"
  using assms
proof (induction ps arbitrary: fs)
  case Nil
  then show ?case by (simp add: segMatch_all)
next
  case (Cons p ps)
  then have p: "literalPattern p" and ih: "\<And>gs. segMatch (ps @ [''**'']) gs = prefix ps gs" by simp_all
  show ?case
    by (cases fs) (auto simp: segMatch_Seg_iff [OF literal_not_star [OF p]] globMatch_literal [OF p] ih)
qed

lemma literalPattern_Nil [simp]: "literalPattern []"
  by (simp add: literalPattern_def)

lemma splitOn_literal:
  "literalPattern s \<Longrightarrow> list_all literalPattern (splitOn slash s)"
  by (induction s) (auto split: list.split)

lemma prefix_splitOn: "prefix (splitOn c a) (splitOn c b) \<longleftrightarrow> b = a \<or> hasPrefix b (a @ [c])"
proof
  assume "prefix (splitOn c a) (splitOn c b)"
  then obtain zs where zs: "splitOn c b = splitOn c a @ zs" by (auto simp: prefix_def)
  show "b = a \<or> hasPrefix b (a @ [c])"
  proof (cases zs)
    case Nil
    with zs have "strJoin [c] (splitOn c b) = strJoin [c] (splitOn c a)" by simp
    then show ?thesis by (simp add: strJoin_splitOn)
  next
    case (Cons z zs')
    have "splitOn c (a @ [c] @ strJoin [c] zs) = splitOn c a @ splitOn c (strJoin [c] zs)"
      by (simp add: splitOn_append)
    moreover have "\<forall>s\<in>set zs. c \<notin> set s"
      using zs splitOn_segments by (metis UnCI set_append)
    then have "splitOn c (strJoin [c] zs) = zs" using Cons by (simp add: splitOn_strJoin)
    ultimately have "splitOn c (a @ [c] @ strJoin [c] zs) = splitOn c b" using zs by simp
    then have "a @ [c] @ strJoin [c] zs = b" by (metis strJoin_splitOn)
    then show ?thesis by (auto simp: hasPrefix_iff)
  qed
next
  assume "b = a \<or> hasPrefix b (a @ [c])"
  then show "prefix (splitOn c a) (splitOn c b)"
    by (auto simp: hasPrefix_iff splitOn_append prefix_def)
qed

lemma matchPath_dir:
  assumes "literalPattern sub"
  shows "matchPath (sub @ ''/**'') f \<longleftrightarrow> f = sub \<or> hasPrefix f (sub @ ''/'')"
proof -
  have "splitOn slash (sub @ ''/**'') = splitOn slash sub @ [''**'']"
    using splitOn_append [of slash sub "''**''"] by simp
  then show ?thesis
    by (simp add: matchPath_def matchParts_segMatch segMatch_literal_dir splitOn_literal assms
        prefix_splitOn)
qed

text \<open>A pattern the validator accepts never takes the error branch of \<open>filepath.Match\<close>.\<close>

lemma wfWatchPath_glob:
  "\<lbrakk>wfWatchPath w; seg \<in> set (splitOn slash w); seg \<noteq> ''**''\<rbrakk> \<Longrightarrow> globMatch seg f \<noteq> None"
  by (simp add: wfWatchPath_def globMatch_bad)

section \<open>Which targets are selected\<close>

lemma targetsOn_iff:
  "t \<in> set (targetsOn hb p r ns) \<longleftrightarrow>
     t_project t = p \<and> t_repo t = r \<and> (\<exists>n\<in>set ns. hb n = Some (t_host t))"
  by (induction ns) (auto split: option.split)

lemma allTargetsOf_iff:
  "t \<in> set (allTargetsOf rb hb ps) \<longleftrightarrow>
     t_project t \<in> set ps \<and> rb (proj_repo (t_project t)) = Some (t_repo t)
     \<and> (\<exists>n\<in>set (proj_targets (t_project t)). hb n = Some (t_host t))"
  by (induction ps) (auto simp: targetsOn_iff split: option.split)

lemma filter_targetsOn:
  "filter (\<lambda>t. P (t_project t)) (targetsOn hb p r ns) = (if P p then targetsOn hb p r ns else [])"
  by (induction ns) (auto split: option.split)

lemma planOf_filter:
  "planOf rb hb ev ps =
     filter (\<lambda>t. proj_repo (t_project t) = ev_repo_name ev
               \<and> projectMatchesChangedFiles (t_project t) (ev_changed_files ev))
            (allTargetsOf rb hb ps)"
proof (induction ps)
  case (Cons p ps)
  show ?case
    unfolding planOf.simps allTargetsOf.simps Cons.IH
    using filter_targetsOn [where P = "\<lambda>p. proj_repo p = ev_repo_name ev
         \<and> projectMatchesChangedFiles p (ev_changed_files ev)"]
    by (simp add: projectMatchesChangedFiles_def split: option.split)
qed simp

lemma allTargets_iff:
  "t \<in> set (allTargets c) \<longleftrightarrow>
     t_project t \<in> set (cfg_projects c) \<and> repoIndex c (proj_repo (t_project t)) = Some (t_repo t)
     \<and> (\<exists>n\<in>set (proj_targets (t_project t)). hostIndex c n = Some (t_host t))"
  by (simp add: allTargets_def allTargetsOf_iff)

lemma allTargets_repo: "t \<in> set (allTargets c) \<Longrightarrow> repo_name (t_repo t) = proj_repo (t_project t)"
  by (auto simp: allTargets_iff repoIndex_def dest: indexBy_SomeD)

lemma allTargets_host:
  "t \<in> set (allTargets c) \<Longrightarrow> t_host t \<in> set (cfg_hosts c) \<and> host_name (t_host t) \<in> set (proj_targets (t_project t))"
  by (auto simp: allTargets_iff hostIndex_def dest: indexBy_SomeD)

lemma plan_filter:
  "ev_forced_targets ev = [] \<Longrightarrow>
   plan c ev =
     filter (\<lambda>t. projectMatchesChangedFiles (t_project t) (ev_changed_files ev))
            (targetsForRepo c (ev_repo_name ev))"
  by (simp add: plan_def planOf_filter targetsForRepo_def flip: allTargets_def)
     (auto intro!: filter_cong simp: allTargets_repo)

text \<open>In a well-formed configuration every declared pair of a project and a host is a target.\<close>

lemma wf_target_exists:
  assumes wf: "wfConfig c" and p: "p \<in> set (cfg_projects c)" and n: "n \<in> set (proj_targets p)"
  obtains h r where "\<lparr>t_project = p, t_host = h, t_repo = r\<rparr> \<in> set (allTargets c)"
    and "host_name h = n" and "repo_name r = proj_repo p"
proof -
  have w: "wfProject c p" using wfConfigD(4) [OF wf p] .
  then have "proj_repo p \<in> dom (repoIndex c)" "n \<in> dom (hostIndex c)"
    using n by (auto simp: wfProject_def repoIndex_def hostIndex_def simp del: domIff)
  then obtain r h where "repoIndex c (proj_repo p) = Some r" "hostIndex c n = Some h" by blast
  then show ?thesis
    using p n by (intro that [of h r])
      (auto simp: allTargets_iff repoIndex_def hostIndex_def dest: indexBy_SomeD)
qed

section \<open>Properties\<close>

text \<open>
  C31. Watch patterns mean what the configuration documents: \<open>MatchPath\<close>, with its backtracking loop,
  decides the declarative segment relation in which \<open>**\<close> stands for any number of segments and every
  other segment matches one segment, and for a pattern that the validator accepts the error branch
  of \<open>filepath.Match\<close> is never taken.
\<close>

theorem matchPath_meaning:
  "(matchPath w f \<longleftrightarrow> segMatch (splitOn slash w) (splitOn slash f))
   \<and> (validateWatchPath w = None \<longrightarrow>
        (\<forall>seg\<in>set (splitOn slash w). seg \<noteq> ''**'' \<longrightarrow> (\<forall>part. globMatch seg part \<noteq> None)))"
  by (simp add: matchPath_def matchParts_segMatch validateWatchPath_None wfWatchPath_glob)

lemma matchPath_meaning_witness:
  "segMatch (splitOn slash ''web/**/*.yml'') (splitOn slash ''web/a/b/c.yml'')
   \<and> globMatch ''*.yml'' ''x'' \<noteq> None"
proof -
  have "matchPath ''web/**/*.yml'' ''web/a/b/c.yml''" by code_simp
  moreover have "validateWatchPath ''web/**/*.yml'' = None" by code_simp
  moreover have "''*.yml'' \<in> set (splitOn slash ''web/**/*.yml'')" by simp
  ultimately show ?thesis
    using matchPath_meaning [of "''web/**/*.yml''" "''web/a/b/c.yml''"] by auto
qed

text \<open>
  Without watch paths a project is triggered by exactly the files under its subdirectory: for a
  subdirectory free of pattern characters, a known list of changed files selects the project when
  one of them is the subdirectory itself or lies below it, and an unknown list always does.
\<close>

theorem default_watch_is_subdir:
  assumes "proj_watch_paths p = []" "proj_repo_subdir p \<noteq> []" "literalPattern (proj_repo_subdir p)"
  shows "projectMatchesChangedFiles p None
       \<and> (projectMatchesChangedFiles p (Some files) \<longleftrightarrow>
          (\<exists>f\<in>set files. f = proj_repo_subdir p \<or> hasPrefix f (proj_repo_subdir p @ ''/'')))"
  using assms
  by (auto simp: projectMatchesChangedFiles_def filesMatchProject_def watchPathsOf_def matchPath_dir
      list_ex_iff)

lemma default_watch_is_subdir_witness:
  "projectMatchesChangedFiles demoProject (Some [''README.md'', ''web/compose.yml''])
   \<and> \<not> projectMatchesChangedFiles demoProject (Some [''website/index.html''])"
proof -
  have "proj_watch_paths demoProject = []" "proj_repo_subdir demoProject \<noteq> []"
    "literalPattern (proj_repo_subdir demoProject)"
    by (simp_all add: demoProject_def isMeta_def)
  note r = default_watch_is_subdir [OF this]
  show ?thesis
    using r [of "[''README.md'', ''web/compose.yml'']"] r [of "[''website/index.html'']"]
    by (simp add: demoProject_def)
qed

text \<open>
  C1. The plan for a push is exact: in a well-formed configuration an event without forced targets
  selects the pair of a project and a host precisely when the project belongs to the event's
  repository, targets the host, and the changed files are unknown or one of them matches one of its
  watch patterns; each pair comes with the declared host and repository, in the order of the
  configuration's own list of targets, and forced targets replace the selection.
\<close>

theorem plan_exact:
  assumes wf: "wfConfig c" and unforced: "ev_forced_targets ev = []"
  shows "(p \<in> set (cfg_projects c) \<longrightarrow>
           (((\<exists>t\<in>set (plan c ev). t_project t = p \<and> host_name (t_host t) = n)) \<longleftrightarrow>
            proj_repo p = ev_repo_name ev \<and> n \<in> set (proj_targets p)
            \<and> (watchPathsOf p = [] \<or> ev_changed_files ev = None
               \<or> (\<exists>fs. ev_changed_files ev = Some fs \<and>
                   (\<exists>f\<in>set fs. \<exists>w\<in>set (watchPathsOf p). segMatch (splitOn slash w) (splitOn slash f))))))
       \<and> (\<forall>t\<in>set (plan c ev). t_project t \<in> set (cfg_projects c) \<and> t_host t \<in> set (cfg_hosts c)
            \<and> t_repo t \<in> set (cfg_repos c) \<and> repo_name (t_repo t) = ev_repo_name ev)
       \<and> subseq (plan c ev) (allTargets c)
       \<and> plan c (ev\<lparr>ev_forced_targets := t # ts\<rparr>) = t # ts"
proof (intro conjI)
  have m: "projectMatchesChangedFiles p (ev_changed_files ev) \<longleftrightarrow>
     (watchPathsOf p = [] \<or> ev_changed_files ev = None
       \<or> (\<exists>fs. ev_changed_files ev = Some fs \<and>
           (\<exists>f\<in>set fs. \<exists>w\<in>set (watchPathsOf p). segMatch (splitOn slash w) (splitOn slash f))))"
    by (auto simp: projectMatchesChangedFiles_def filesMatchProject_def list_ex_iff matchPath_def
        matchParts_segMatch split: option.split)
  have t: "t \<in> set (plan c ev) \<longleftrightarrow> t \<in> set (allTargets c) \<and> repo_name (t_repo t) = ev_repo_name ev
            \<and> projectMatchesChangedFiles (t_project t) (ev_changed_files ev)" for t
    by (auto simp: plan_filter [OF unforced] targetsForRepo_def)
  show "p \<in> set (cfg_projects c) \<longrightarrow>
           (((\<exists>t\<in>set (plan c ev). t_project t = p \<and> host_name (t_host t) = n)) \<longleftrightarrow>
            proj_repo p = ev_repo_name ev \<and> n \<in> set (proj_targets p)
            \<and> (watchPathsOf p = [] \<or> ev_changed_files ev = None
               \<or> (\<exists>fs. ev_changed_files ev = Some fs \<and>
                   (\<exists>f\<in>set fs. \<exists>w\<in>set (watchPathsOf p). segMatch (splitOn slash w) (splitOn slash f)))))"
    unfolding m [symmetric]
  proof (intro impI iffI)
    assume "\<exists>t\<in>set (plan c ev). t_project t = p \<and> host_name (t_host t) = n"
    then show "proj_repo p = ev_repo_name ev \<and> n \<in> set (proj_targets p)
        \<and> projectMatchesChangedFiles p (ev_changed_files ev)"
      using allTargets_repo allTargets_host by (auto simp: t)
  next
    assume p: "p \<in> set (cfg_projects c)" and a: "proj_repo p = ev_repo_name ev \<and> n \<in> set (proj_targets p)
        \<and> projectMatchesChangedFiles p (ev_changed_files ev)"
    then obtain h r where "\<lparr>t_project = p, t_host = h, t_repo = r\<rparr> \<in> set (allTargets c)"
      "host_name h = n" "repo_name r = proj_repo p" using wf_target_exists [OF wf p, of n] by blast
    then show "\<exists>t\<in>set (plan c ev). t_project t = p \<and> host_name (t_host t) = n"
      using a by (intro bexI [where x = "\<lparr>t_project = p, t_host = h, t_repo = r\<rparr>"]) (simp_all add: t)
  qed
  show "\<forall>t\<in>set (plan c ev). t_project t \<in> set (cfg_projects c) \<and> t_host t \<in> set (cfg_hosts c)
            \<and> t_repo t \<in> set (cfg_repos c) \<and> repo_name (t_repo t) = ev_repo_name ev"
    using allTargets_host by (auto simp: t allTargets_iff repoIndex_def dest: indexBy_SomeD)
  show "subseq (plan c ev) (allTargets c)"
    by (simp add: plan_filter [OF unforced] targetsForRepo_def subseq_filter_left filter_filter)
  show "plan c (ev\<lparr>ev_forced_targets := t # ts\<rparr>) = t # ts" by (simp add: plan_def)
qed

definition demoEvent :: repo_event where
  "demoEvent = \<lparr>ev_source = TriggerWebhook, ev_delivery_id = ''d'', ev_repo_name = ''app'',
      ev_branch = ''main'', ev_commit_sha = ''abc'', ev_changed_files = None, ev_forced_targets = [],
      ev_redeploy = False\<rparr>"

lemma plan_exact_witness:
  "\<exists>t\<in>set (plan demoConfig demoEvent). t_project t = demoProject \<and> host_name (t_host t) = ''h1''"
proof -
  have "ev_forced_targets demoEvent = []" "demoProject \<in> set (cfg_projects demoConfig)"
    "proj_repo demoProject = ev_repo_name demoEvent" "''h1'' \<in> set (proj_targets demoProject)"
    "ev_changed_files demoEvent = None"
    by (simp_all add: demoEvent_def demoConfig_def demoProject_def)
  with plan_exact [OF demoConfig_wf this(1), where p = demoProject and n = "''h1''"] show ?thesis by blast
qed

end
