(* ===== verification/Atomic_File.thy ===== *)
theory Atomic_File
  imports Go_Path
begin

text \<open>
  \<open>utils.AtomicWrite\<close> and \<open>utils.ShortSha\<close> (\<open>internal/utils/utils.go\<close>). The file system is a
  map from paths to contents; the temporary file's fresh name and the outcome of each system
  call are parameters, so every failure branch of the code is a branch here. The sequence of
  file-system states the call goes through is kept, because a crash may expose any of them.
\<close>

definition shortSha :: "gostring \<Rightarrow> gostring" where
  "shortSha sha = (if length sha \<ge> 8 then take 8 sha else sha)"

type_synonym 'c fsmap = "gostring \<rightharpoonup> 'c"

record aw_outcomes =
  aw_create :: bool
  aw_write :: bool
  aw_sync :: bool
  aw_close :: bool
  aw_rename :: bool
  aw_remove :: bool

datatype aw_error = AwCreate | AwWrite | AwSync | AwClose | AwRename

definition removeTmp :: "aw_outcomes \<Rightarrow> gostring \<Rightarrow> 'c fsmap \<Rightarrow> 'c fsmap" where
  "removeTmp oc tmp m = (if aw_remove oc then m(tmp := None) else m)"

text \<open>
  The result and the successive states, the last one first. A failed write leaves a partial
  content in the temporary file.
\<close>

definition atomicWrite ::
  "aw_outcomes \<Rightarrow> gostring \<Rightarrow> 'c \<Rightarrow> 'c \<Rightarrow> gostring \<Rightarrow> 'c \<Rightarrow> 'c fsmap
   \<Rightarrow> aw_error option \<times> 'c fsmap list" where
  "atomicWrite oc tmp blank partial path data m =
     (if \<not> aw_create oc then (Some AwCreate, [m])
      else let m1 = m(tmp \<mapsto> blank) in
        if \<not> aw_write oc
        then (let m2 = m1(tmp \<mapsto> partial) in (Some AwWrite, [removeTmp oc tmp m2, m2, m1, m]))
        else let m2 = m1(tmp \<mapsto> data) in
          if \<not> aw_sync oc then (Some AwSync, [removeTmp oc tmp m2, m2, m1, m])
          else if \<not> aw_close oc then (Some AwClose, [removeTmp oc tmp m2, m2, m1, m])
          else if \<not> aw_rename oc then (Some AwRename, [removeTmp oc tmp m2, m2, m1, m])
          else (None, [m2(path \<mapsto> data, tmp := None), m2, m1, m]))"

definition allFine :: aw_outcomes where
  "allFine = \<lparr>aw_create = True, aw_write = True, aw_sync = True, aw_close = True,
              aw_rename = True, aw_remove = True\<rparr>"

lemma atomicWrite_states:
  assumes "tmp \<noteq> path" and "s \<in> set (snd (atomicWrite oc tmp e p path data m))"
  shows "s path = m path \<or> s path = Some data \<and> fst (atomicWrite oc tmp e p path data m) = None"
  using assms by (auto simp: atomicWrite_def removeTmp_def Let_def split: if_splits)

lemma atomicWrite_other:
  assumes "q \<noteq> tmp" "q \<noteq> path" and "s \<in> set (snd (atomicWrite oc tmp e p path data m))"
  shows "s q = m q"
  using assms by (auto simp: atomicWrite_def removeTmp_def Let_def split: if_splits)

lemma atomicWrite_final:
  assumes "tmp \<noteq> path" "m tmp = None"
  shows "fst (atomicWrite oc tmp e p path data m) = None \<Longrightarrow>
           hd (snd (atomicWrite oc tmp e p path data m)) = m(path \<mapsto> data)"
    and "\<lbrakk>fst (atomicWrite oc tmp e p path data m) \<noteq> None; aw_remove oc\<rbrakk> \<Longrightarrow>
           hd (snd (atomicWrite oc tmp e p path data m)) = m"
  using assms by (auto simp: atomicWrite_def removeTmp_def Let_def split: if_splits)

text \<open>
  C30. Crash atomicity of \<open>AtomicWrite\<close>: at every moment of the call the target holds its old or
  the complete new content, the new one only when the call returns no error, every file but the
  target and the temporary one is untouched, and a call that returns no error leaves exactly
  the new content and no temporary file.
\<close>

theorem atomicWrite_atomic:
  assumes "tmp \<noteq> path" "m tmp = None" "atomicWrite oc tmp e p path data m = (err, states)"
  shows "(\<forall>s\<in>set states. s path = m path \<or> s path = Some data \<and> err = None)
       \<and> (\<forall>s\<in>set states. \<forall>q. q \<noteq> tmp \<and> q \<noteq> path \<longrightarrow> s q = m q)
       \<and> (err = None \<longrightarrow> hd states = m(path \<mapsto> data))
       \<and> (err \<noteq> None \<and> aw_remove oc \<longrightarrow> hd states = m)"
proof (intro conjI)
  have st: "states = snd (atomicWrite oc tmp e p path data m)"
    and er: "err = fst (atomicWrite oc tmp e p path data m)" by (simp_all add: assms(3))
  show "\<forall>s\<in>set states. s path = m path \<or> s path = Some data \<and> err = None"
    using atomicWrite_states [OF assms(1), of _ oc e p data m] unfolding st er by simp
  have "s q = m q" if "s \<in> set states" "q \<noteq> tmp" "q \<noteq> path" for s q
    using atomicWrite_other [of q tmp path s oc e p data m] that st by simp
  then show "\<forall>s\<in>set states. \<forall>q. q \<noteq> tmp \<and> q \<noteq> path \<longrightarrow> s q = m q" by simp
  show "err = None \<longrightarrow> hd states = m(path \<mapsto> data)"
    using atomicWrite_final(1) [of tmp path m oc e p data] assms(1,2) unfolding st er by blast
  show "err \<noteq> None \<and> aw_remove oc \<longrightarrow> hd states = m"
    using atomicWrite_final(2) [of tmp path m oc e p data] assms(1,2) unfolding st er by blast
qed

lemma atomicWrite_atomic_witness:
  "\<exists>states. atomicWrite (allFine\<lparr>aw_rename := False\<rparr>) ''t'' 0 1 ''f'' (7::nat) [''f'' \<mapsto> 3] =
       (Some AwRename, states) \<and> (\<forall>s\<in>set states. s ''f'' = Some 3) \<and> hd states = [''f'' \<mapsto> 3]"
proof -
  obtain err states where a:
    "atomicWrite (allFine\<lparr>aw_rename := False\<rparr>) ''t'' 0 1 ''f'' (7::nat) [''f'' \<mapsto> 3] = (err, states)"
    by (rule prod.exhaust)
  then have err: "err = Some AwRename" by (auto simp: atomicWrite_def allFine_def Let_def)
  from atomicWrite_atomic [OF _ _ a] a err show ?thesis by (auto simp: allFine_def)
qed

end
