(* ===== verification/File_Store.thy ===== *)
theory File_Store
  imports Atomic_File Config "HOL-Library.AList" "HOL-Library.Product_Lexorder"
begin

text \<open>
  The deployment store (\<open>internal/state\<close>): records kept as JSON files under the data path. The
  disk is an association list from paths to documents; a document is what the program itself
  marshals, a JSON \<open>null\<close>, or bytes no decoder accepts. Reading a document of one kind as
  another follows \<open>encoding/json\<close>: fields are matched by their tags, unknown keys ignored, and
  \<open>null\<close> sets a map to \<open>nil\<close> and leaves a struct alone. Strings are valid UTF-8 and years have
  four digits, so that marshalling keeps a record. A dereference of \<open>nil\<close> and an assignment
  into a \<open>nil\<close> map are the value \<open>Panic\<close>.
\<close>

section \<open>Records\<close>

type_synonym deployment_status = gostring

definition StatusPending :: deployment_status where "StatusPending = ''pending''"

definition StatusRunning :: deployment_status where "StatusRunning = ''running''"

definition StatusSuccess :: deployment_status where "StatusSuccess = ''success''"

definition StatusFailed :: deployment_status where "StatusFailed = ''failed''"

lemma status_distinct [simp]:
  "StatusPending \<noteq> StatusRunning" "StatusRunning \<noteq> StatusPending"
  "StatusFailed \<noteq> StatusRunning" "StatusRunning \<noteq> StatusFailed"
  "StatusSuccess \<noteq> StatusRunning" "StatusRunning \<noteq> StatusSuccess"
  "StatusSuccess \<noteq> StatusFailed" "StatusFailed \<noteq> StatusSuccess"
  by (simp_all add: StatusPending_def StatusRunning_def StatusSuccess_def StatusFailed_def)

record deployment =
  dep_id :: gostring
  dep_project :: gostring
  dep_host :: gostring
  dep_commit_sha :: gostring
  dep_branch :: gostring
  dep_status :: deployment_status
  dep_trigger_source :: gostring
  dep_started_at :: gotime
  dep_completed_at :: "gotime option"
  dep_error :: gostring
  dep_report_token :: gostring
  dep_report_status :: gostring
  dep_report_error :: gostring

record repo_state =
  rs_repo :: gostring
  rs_branch :: gostring
  rs_last_seen_sha :: gostring
  rs_last_deployed_sha :: gostring
  rs_last_polled_at :: "gotime option"
  rs_trigger_source :: gostring
  rs_last_delivery_id :: gostring
  rs_updated_at :: gotime

text \<open>The zero values; Go's zero \<open>time.Time\<close> is the time 0 of the model.\<close>

definition zeroDeployment :: deployment where
  "zeroDeployment =
     \<lparr>dep_id = [], dep_project = [], dep_host = [], dep_commit_sha = [], dep_branch = [],
      dep_status = [], dep_trigger_source = [], dep_started_at = 0, dep_completed_at = None,
      dep_error = [], dep_report_token = [], dep_report_status = [], dep_report_error = []\<rparr>"

definition zeroRepoState :: repo_state where
  "zeroRepoState =
     \<lparr>rs_repo = [], rs_branch = [], rs_last_seen_sha = [], rs_last_deployed_sha = [],
      rs_last_polled_at = None, rs_trigger_source = [], rs_last_delivery_id = [], rs_updated_at = 0\<rparr>"

section \<open>The disk and its documents\<close>

text \<open>The index is a map of pointers: an entry may be \<open>nil\<close>. Its list order is an iteration order.\<close>

type_synonym index = "(gostring \<times> deployment option) list"

datatype document =
    DocDeployment deployment
  | DocIndex index
  | DocRepoState repo_state
  | DocNull
  | DocMalformed
  | DocUnreadable

record disk =
  dk_files :: "(gostring \<times> document) list"
  dk_write_fails :: "gostring \<Rightarrow> bool"
  dk_mkdir_fails :: "gostring \<Rightarrow> bool"
  dk_runs_unlistable :: bool

definition dkRead :: "disk \<Rightarrow> gostring \<rightharpoonup> document" where
  "dkRead d = map_of (dk_files d)"

definition dkPut :: "gostring \<Rightarrow> document \<Rightarrow> disk \<Rightarrow> disk" where
  "dkPut path doc d = d\<lparr>dk_files := AList.update path doc (dk_files d)\<rparr>"

lemma dkRead_put [simp]: "dkRead (dkPut p doc d) = (dkRead d)(p \<mapsto> doc)"
  by (simp add: dkRead_def dkPut_def AList.update_conv')

lemma dkPut_fields [simp]:
  "dk_write_fails (dkPut p doc d) = dk_write_fails d" "dk_mkdir_fails (dkPut p doc d) = dk_mkdir_fails d"
  "dk_runs_unlistable (dkPut p doc d) = dk_runs_unlistable d"
  by (simp_all add: dkPut_def)

datatype 'a read_result = NotExist | ReadFailed | UnmarshalFailed | ReadOk 'a

definition asIndex :: "document option \<Rightarrow> index option read_result" where
  "asIndex doc =
     (case doc of
        None \<Rightarrow> NotExist
      | Some DocUnreadable \<Rightarrow> ReadFailed
      | Some (DocIndex m) \<Rightarrow> ReadOk (Some m)
      | Some DocNull \<Rightarrow> ReadOk None
      | Some _ \<Rightarrow> UnmarshalFailed)"

definition asDeployment :: "document option \<Rightarrow> deployment read_result" where
  "asDeployment doc =
     (case doc of
        None \<Rightarrow> NotExist
      | Some DocUnreadable \<Rightarrow> ReadFailed
      | Some DocMalformed \<Rightarrow> UnmarshalFailed
      | Some (DocDeployment dep) \<Rightarrow> ReadOk dep
      | Some DocNull \<Rightarrow> ReadOk zeroDeployment
      | Some (DocIndex m) \<Rightarrow> ReadOk zeroDeployment
      | Some (DocRepoState r) \<Rightarrow>
          ReadOk (zeroDeployment\<lparr>dep_branch := rs_branch r, dep_trigger_source := rs_trigger_source r\<rparr>))"

definition asRepoState :: "document option \<Rightarrow> repo_state read_result" where
  "asRepoState doc =
     (case doc of
        None \<Rightarrow> NotExist
      | Some DocUnreadable \<Rightarrow> ReadFailed
      | Some DocMalformed \<Rightarrow> UnmarshalFailed
      | Some (DocRepoState r) \<Rightarrow> ReadOk r
      | Some DocNull \<Rightarrow> ReadOk zeroRepoState
      | Some (DocIndex m) \<Rightarrow> ReadOk zeroRepoState
      | Some (DocDeployment dep) \<Rightarrow>
          ReadOk (zeroRepoState\<lparr>rs_branch := dep_branch dep, rs_trigger_source := dep_trigger_source dep\<rparr>))"

text \<open>\<open>writeJSON\<close>: whether it succeeds is the disk's; a failed \<open>AtomicWrite\<close> changes nothing.\<close>

definition writeJSON :: "gostring \<Rightarrow> document \<Rightarrow> disk \<Rightarrow> bool \<times> disk" where
  "writeJSON path doc d = (if dk_write_fails d path then (False, d) else (True, dkPut path doc d))"

section \<open>Names of files\<close>

definition runsDir :: "gostring \<Rightarrow> gostring" where
  "runsDir dp = pathJoin [dp, ''history'', ''runs'']"

definition runFile :: "gostring \<Rightarrow> gostring \<Rightarrow> gostring" where
  "runFile dp i = pathJoin [dp, ''history'', ''runs'', i @ ''.json'']"

definition projectsFile :: "gostring \<Rightarrow> gostring" where
  "projectsFile dp = pathJoin [dp, ''state'', ''projects.json'']"

definition escapeByte :: "char \<Rightarrow> gostring" where
  "escapeByte c =
     (if c = CHR ''%'' then ''%25'' else if c = slash then ''%2F''
      else if c = CHR 0x5C then ''%5C'' else if c = CHR '':'' then ''%3A'' else [c])"

definition sanitizePathSegment :: "gostring \<Rightarrow> gostring" where
  "sanitizePathSegment s = replaceBytes escapeByte s"

definition repoStatePath :: "gostring \<Rightarrow> gostring \<Rightarrow> gostring \<Rightarrow> gostring" where
  "repoStatePath dp repo branch =
     pathJoin [dp, ''state'', ''poll'', sanitizePathSegment repo, sanitizePathSegment branch @ ''.json'']"

definition indexKeyForProjectHost :: "gostring \<Rightarrow> gostring \<Rightarrow> gostring" where
  "indexKeyForProjectHost projectName hostName = hostName @ ''/'' @ projectName"

definition validRunID :: "gostring \<Rightarrow> bool" where
  "validRunID s \<longleftrightarrow>
     (let n = takeWhile isDigit s; r = dropWhile isDigit s in
      n \<noteq> [] \<and> r \<noteq> [] \<and> hd r = CHR ''-'' \<and> length (tl r) = 8 \<and> list_all isLowerHex (tl r))"

text \<open>\<open>NewID\<close>: the clock in seconds and four random bytes are the arguments.\<close>

definition newID :: "nat \<Rightarrow> nat list \<Rightarrow> gostring" where
  "newID unixNow randomBytes = itoaNat unixNow @ ''-'' @ hexEncode randomBytes"

section \<open>Operations\<close>

datatype record_error = RecordNil | EmptyID | EmptyProject gostring | EmptyHost gostring

datatype store_error =
    DeploymentNil | InvalidID gostring | WriteRun gostring | ReadIndex | UnmarshalIndex | WriteIndex
  | BadRecord record_error | ReadRunsDir | RepoStateNil | MkdirFailed | WriteRepoState
  | ReadRepoState | UnmarshalRepoState | InitDir gostring

datatype 'a call = Panic | Ret 'a

definition initStore :: "gostring \<Rightarrow> disk \<Rightarrow> store_error option" where
  "initStore dp d =
     (let a = pathJoin [dp, ''state'', ''poll'']; b = pathJoin [dp, ''history'', ''runs''] in
      if dk_mkdir_fails d a then Some (InitDir a)
      else if dk_mkdir_fails d b then Some (InitDir b) else None)"

definition validateDeploymentRecord :: "deployment option \<Rightarrow> record_error option" where
  "validateDeploymentRecord r =
     (case r of
        None \<Rightarrow> Some RecordNil
      | Some dep \<Rightarrow>
          if dep_id dep = [] then Some EmptyID
          else if dep_project dep = [] then Some (EmptyProject (dep_id dep))
          else if dep_host dep = [] then Some (EmptyHost (dep_id dep))
          else None)"

definition updateProjectsIndex ::
  "gostring \<Rightarrow> deployment \<Rightarrow> disk \<Rightarrow> store_error option call \<times> disk" where
  "updateProjectsIndex dp dep d =
     (let path = projectsFile dp;
          key = indexKeyForProjectHost (dep_project dep) (dep_host dep);
          put = (\<lambda>m. case writeJSON path (DocIndex m) d of
                   (ok, d') \<Rightarrow> (Ret (if ok then None else Some WriteIndex), d'));
          upd = (\<lambda>m. case map_of m key of
                   None \<Rightarrow> put (AList.update key (Some dep) m)
                 | Some None \<Rightarrow> (Panic, d)
                 | Some (Some cur) \<Rightarrow>
                     if dep_id cur = dep_id dep \<or> \<not> dep_started_at dep < dep_started_at cur
                     then put (AList.update key (Some dep) m) else put m)
      in case asIndex (dkRead d path) of
           NotExist \<Rightarrow> upd []
         | ReadFailed \<Rightarrow> (Ret (Some ReadIndex), d)
         | UnmarshalFailed \<Rightarrow> (Ret (Some UnmarshalIndex), d)
         | ReadOk None \<Rightarrow> (Panic, d)
         | ReadOk (Some m) \<Rightarrow> upd m)"

definition saveDeployment ::
  "gostring \<Rightarrow> deployment option \<Rightarrow> disk \<Rightarrow> store_error option call \<times> disk" where
  "saveDeployment dp r d =
     (case r of
        None \<Rightarrow> (Ret (Some DeploymentNil), d)
      | Some dep \<Rightarrow>
          if containsAny (dep_id dep) [slash, CHR 0x5C] then (Ret (Some (InvalidID (dep_id dep))), d)
          else (case writeJSON (runFile dp (dep_id dep)) (DocDeployment dep) d of
                  (False, d') \<Rightarrow> (Ret (Some (WriteRun (dep_id dep))), d')
                | (True, d') \<Rightarrow> updateProjectsIndex dp dep d'))"

text \<open>
  \<open>os.ReadDir\<close>: the names in the runs directory in ascending order. \<open>sort.Slice\<close> leaves the
  order of equal elements open; the model takes the stable sort.
\<close>

definition runNames :: "gostring \<Rightarrow> disk \<Rightarrow> gostring list" where
  "runNames dp d =
     sort (map (pathBase \<circ> fst) (filter (\<lambda>f. pathDir (fst f) = runsDir dp) (dk_files d)))"

datatype list_error = ListRead gostring | ListUnmarshal gostring | ListRecord gostring record_error

fun readRuns ::
  "gostring \<Rightarrow> disk \<Rightarrow> gostring \<Rightarrow> gostring \<Rightarrow> gostring list \<Rightarrow> deployment list \<times> list_error list" where
  "readRuns dp d project host [] = ([], [])"
| "readRuns dp d project host (n # ns) =
     (case readRuns dp d project host ns of (deps, errs) \<Rightarrow>
        if \<not> hasSuffix n ''.json'' then (deps, errs)
        else (case asDeployment (dkRead d (pathJoin [runsDir dp, n])) of
                NotExist \<Rightarrow> (deps, ListRead n # errs)
              | ReadFailed \<Rightarrow> (deps, ListRead n # errs)
              | UnmarshalFailed \<Rightarrow> (deps, ListUnmarshal n # errs)
              | ReadOk dep \<Rightarrow>
                  (case validateDeploymentRecord (Some dep) of
                     Some e \<Rightarrow> (deps, ListRecord n e # errs)
                   | None \<Rightarrow>
                       if project \<noteq> [] \<and> dep_project dep \<noteq> project then (deps, errs)
                       else if host \<noteq> [] \<and> dep_host dep \<noteq> host then (deps, errs)
                       else (dep # deps, errs))))"

definition listDeployments ::
  "gostring \<Rightarrow> gostring \<Rightarrow> gostring \<Rightarrow> int \<Rightarrow> disk \<Rightarrow> store_error + deployment list \<times> list_error list" where
  "listDeployments dp project host limit d =
     (if dk_runs_unlistable d then Inl ReadRunsDir
      else (case readRuns dp d project host (runNames dp d) of (deps, errs) \<Rightarrow>
              (let sorted = sort_key (\<lambda>dep. - dep_started_at dep) deps in
               Inr (if limit > 0 \<and> int (length sorted) > limit then take (nat limit) sorted else sorted,
                    errs))))"

definition readLatestDeploymentByKey ::
  "gostring \<Rightarrow> gostring \<Rightarrow> disk \<Rightarrow> store_error + deployment option" where
  "readLatestDeploymentByKey dp key d =
     (case asIndex (dkRead d (projectsFile dp)) of
        NotExist \<Rightarrow> Inr None
      | ReadFailed \<Rightarrow> Inl ReadIndex
      | UnmarshalFailed \<Rightarrow> Inl UnmarshalIndex
      | ReadOk None \<Rightarrow> Inr None
      | ReadOk (Some m) \<Rightarrow>
          (case map_of m key of
             None \<Rightarrow> Inr None
           | Some None \<Rightarrow> Inr None
           | Some (Some dep) \<Rightarrow>
               (case validateDeploymentRecord (Some dep) of
                  Some e \<Rightarrow> Inl (BadRecord e)
                | None \<Rightarrow> Inr (Some dep))))"

definition getLatestDeployment ::
  "gostring \<Rightarrow> gostring \<Rightarrow> gostring \<Rightarrow> disk \<Rightarrow> store_error + deployment option" where
  "getLatestDeployment dp project host d =
     readLatestDeploymentByKey dp (indexKeyForProjectHost project host) d"

fun collectLatest :: "index \<Rightarrow> record_error + deployment list" where
  "collectLatest [] = Inr []"
| "collectLatest ((k, r) # m) =
     (case validateDeploymentRecord r of
        Some e \<Rightarrow> Inl e
      | None \<Rightarrow> (case collectLatest m of Inl e \<Rightarrow> Inl e | Inr ds \<Rightarrow> Inr (the r # ds)))"

definition listLatestDeployments :: "gostring \<Rightarrow> disk \<Rightarrow> store_error + deployment list" where
  "listLatestDeployments dp d =
     (case asIndex (dkRead d (projectsFile dp)) of
        NotExist \<Rightarrow> Inr []
      | ReadFailed \<Rightarrow> Inl ReadIndex
      | UnmarshalFailed \<Rightarrow> Inl UnmarshalIndex
      | ReadOk r \<Rightarrow>
          (case collectLatest (sliceElems r) of
             Inl e \<Rightarrow> Inl (BadRecord e)
           | Inr ds \<Rightarrow> Inr (sort_key (\<lambda>dep. (dep_project dep, dep_host dep)) ds)))"

definition deleteLatestDeployment ::
  "gostring \<Rightarrow> gostring \<Rightarrow> gostring \<Rightarrow> disk \<Rightarrow> (store_error + bool) \<times> disk" where
  "deleteLatestDeployment dp project host d =
     (let path = projectsFile dp; key = indexKeyForProjectHost project host in
      case asIndex (dkRead d path) of
        NotExist \<Rightarrow> (Inr False, d)
      | ReadFailed \<Rightarrow> (Inl ReadIndex, d)
      | UnmarshalFailed \<Rightarrow> (Inl UnmarshalIndex, d)
      | ReadOk r \<Rightarrow>
          (if map_of (sliceElems r) key = None then (Inr False, d)
           else (case writeJSON path (DocIndex (AList.delete key (sliceElems r))) d of
                   (ok, d') \<Rightarrow> (if ok then Inr True else Inl WriteIndex, d'))))"

text \<open>
  \<open>MarkStaleRunningDeploymentsFailed\<close>: the loop over the index, which returns the number of
  entries updated, the rewritten index and the failed run file, if any.
\<close>

definition interruptedError :: gostring where
  "interruptedError = ''interrupted: daemon shutdown while deploy was in progress''"

definition failStale :: "gotime \<Rightarrow> deployment \<Rightarrow> deployment" where
  "failStale now dep =
     dep\<lparr>dep_status := StatusFailed, dep_error := interruptedError, dep_completed_at := Some now\<rparr>"

fun staleLoop ::
  "gostring \<Rightarrow> gotime \<Rightarrow> nat \<Rightarrow> index \<Rightarrow> disk \<Rightarrow> (nat \<times> (gostring + index)) call \<times> disk" where
  "staleLoop dp now n [] d = (Ret (n, Inr []), d)"
| "staleLoop dp now n ((k, r) # m) d =
     (case r of
        None \<Rightarrow> (Panic, d)
      | Some dep \<Rightarrow>
          if dep_status dep \<noteq> StatusRunning
          then (case staleLoop dp now n m d of
                  (Ret (n', Inr m'), d') \<Rightarrow> (Ret (n', Inr ((k, r) # m')), d')
                | res \<Rightarrow> res)
          else (case writeJSON (runFile dp (dep_id dep)) (DocDeployment (failStale now dep)) d of
                  (False, d') \<Rightarrow> (Ret (n, Inl (dep_id dep)), d')
                | (True, d') \<Rightarrow>
                    (case staleLoop dp now (Suc n) m d' of
                       (Ret (n', Inr m'), d'') \<Rightarrow> (Ret (n', Inr ((k, Some (failStale now dep)) # m')), d'')
                     | res \<Rightarrow> res)))"

definition markStaleRunningDeploymentsFailed ::
  "gostring \<Rightarrow> gotime \<Rightarrow> disk \<Rightarrow> (nat \<times> store_error option) call \<times> disk" where
  "markStaleRunningDeploymentsFailed dp now d =
     (let path = projectsFile dp in
      case asIndex (dkRead d path) of
        NotExist \<Rightarrow> (Ret (0, None), d)
      | ReadFailed \<Rightarrow> (Ret (0, Some ReadIndex), d)
      | UnmarshalFailed \<Rightarrow> (Ret (0, Some UnmarshalIndex), d)
      | ReadOk r \<Rightarrow>
          (case staleLoop dp now 0 (sliceElems r) d of
             (Panic, d') \<Rightarrow> (Panic, d')
           | (Ret (n, Inl i), d') \<Rightarrow> (Ret (n, Some (WriteRun i)), d')
           | (Ret (n, Inr m'), d') \<Rightarrow>
               if n = 0 then (Ret (0, None), d')
               else (case writeJSON path (DocIndex m') d' of
                       (ok, d'') \<Rightarrow> (Ret (n, if ok then None else Some WriteIndex), d''))))"

definition saveRepoState ::
  "gostring \<Rightarrow> gotime \<Rightarrow> repo_state option \<Rightarrow> disk \<Rightarrow> store_error option \<times> disk" where
  "saveRepoState dp now r d =
     (case r of
        None \<Rightarrow> (Some RepoStateNil, d)
      | Some rs \<Rightarrow>
          (let snapshot = rs\<lparr>rs_updated_at := now\<rparr>;
               path = repoStatePath dp (rs_repo snapshot) (rs_branch snapshot)
           in if dk_mkdir_fails d (pathDir path) then (Some MkdirFailed, d)
              else (case writeJSON path (DocRepoState snapshot) d of
                      (ok, d') \<Rightarrow> (if ok then None else Some WriteRepoState, d'))))"

definition getRepoState ::
  "gostring \<Rightarrow> gostring \<Rightarrow> gostring \<Rightarrow> disk \<Rightarrow> store_error + repo_state option" where
  "getRepoState dp repo branch d =
     (case asRepoState (dkRead d (repoStatePath dp repo branch)) of
        NotExist \<Rightarrow> Inr None
      | ReadFailed \<Rightarrow> Inl ReadRepoState
      | UnmarshalFailed \<Rightarrow> Inl UnmarshalRepoState
      | ReadOk r \<Rightarrow> Inr (Some r))"

end
