(* ===== verification/Store_Index.thy ===== *)
theory Store_Index
  imports Store_Laws
begin

text \<open>
  The index of latest deployments as an abstract store: a locale states what saving and deleting
  do to a map from keys to records, its lemmas follow a whole history of operations, and the file
  store is an interpretation on every healthy disk.
\<close>

section \<open>The interface\<close>

datatype 'r store_op = OpSave 'r | OpDrop gostring

locale latest_store =
  fixes ok :: "'s \<Rightarrow> bool"
    and latest :: "'s \<Rightarrow> gostring \<Rightarrow> 'r option"
    and keyOf :: "'r \<Rightarrow> gostring"
    and fine :: "'r \<Rightarrow> bool"
    and merge :: "'r \<Rightarrow> 'r option \<Rightarrow> 'r"
    and save :: "'r \<Rightarrow> 's \<Rightarrow> 's"
    and remove :: "gostring \<Rightarrow> 's \<Rightarrow> 's"
  assumes ok_save: "\<lbrakk>ok s; fine r\<rbrakk> \<Longrightarrow> ok (save r s)"
    and ok_remove: "ok s \<Longrightarrow> ok (remove k s)"
    and latest_save: "\<lbrakk>ok s; fine r\<rbrakk> \<Longrightarrow>
          latest (save r s) = (latest s)(keyOf r := Some (merge r (latest s (keyOf r))))"
    and latest_remove: "ok s \<Longrightarrow> latest (remove k s) = (latest s)(k := None)"
    and merge_cases: "merge r None = r" "merge r (Some c) = r \<or> merge r (Some c) = c"
begin

fun step :: "'r store_op \<Rightarrow> 's \<Rightarrow> 's" where
  "step (OpSave r) s = save r s"
| "step (OpDrop k) s = remove k s"

fun absStep :: "'r store_op \<Rightarrow> (gostring \<rightharpoonup> 'r) \<Rightarrow> (gostring \<rightharpoonup> 'r)" where
  "absStep (OpSave r) m = m(keyOf r := Some (merge r (m (keyOf r))))"
| "absStep (OpDrop k) m = m(k := None)"

fun fineOp :: "'r store_op \<Rightarrow> bool" where
  "fineOp (OpSave r) = fine r"
| "fineOp (OpDrop k) = True"

lemma step_refines:
  "\<lbrakk>ok s; fineOp a\<rbrakk> \<Longrightarrow> ok (step a s) \<and> latest (step a s) = absStep a (latest s)"
  by (cases a) (simp_all add: ok_save ok_remove latest_save latest_remove)

lemma run_refines:
  "\<lbrakk>ok s; list_all fineOp as\<rbrakk> \<Longrightarrow>
   ok (fold step as s) \<and> latest (fold step as s) = fold absStep as (latest s)"
  by (induction as arbitrary: s) (simp_all add: step_refines)

lemma other_key:
  assumes "ok s" "fine r" "k \<noteq> keyOf r"
  shows "latest (save r s) k = latest s k"
  using assms by (simp add: latest_save)

text \<open>After any number of saves the entry of a key is one of the saved records or the old entry.\<close>

lemma saves_origin:
  assumes "ok s" "list_all fine rs" "latest (fold save rs s) k = Some x"
  shows "x \<in> set rs \<and> keyOf x = k \<or> latest s k = Some x"
  using assms
proof (induction rs arbitrary: s)
  case (Cons r rs)
  from Cons have "x \<in> set rs \<and> keyOf x = k \<or> latest (save r s) k = Some x"
    using ok_save [of s r] by simp
  moreover have "merge r (latest s (keyOf r)) \<in> insert r (set_option (latest s (keyOf r)))"
    using merge_cases [of r] by (cases "latest s (keyOf r)") auto
  ultimately show ?case
    using Cons.prems by (auto simp: latest_save split: if_splits)
qed simp

text \<open>
  When the records are ranked and merging keeps the higher rank, the entry ranks at least as high
  as every record saved under its key, whatever the order of the saves.
\<close>

lemma saves_max:
  fixes rank :: "'r \<Rightarrow> int"
  assumes rank: "\<And>r c. \<lbrakk>fine r; P r c\<rbrakk> \<Longrightarrow> rank (merge r (Some c)) = max (rank r) (rank c)"
    and ok: "ok s" and fine: "list_all fine rs"
    and P: "\<And>r c. \<lbrakk>r \<in> set rs; c \<in> set rs \<or> latest s (keyOf r) = Some c\<rbrakk> \<Longrightarrow> P r c"
  shows "(\<forall>r\<in>set rs. \<exists>x. latest (fold save rs s) (keyOf r) = Some x \<and> rank r \<le> rank x)
       \<and> (\<forall>k c. latest s k = Some c \<longrightarrow> (\<exists>x. latest (fold save rs s) k = Some x \<and> rank c \<le> rank x))"
  using ok fine P
proof (induction rs arbitrary: s)
  case (Cons r rs)
  let ?s = "save r s" let ?x = "merge r (latest s (keyOf r))"
  have ok': "ok ?s" and fr: "fine r" using Cons.prems ok_save by auto
  have x: "?x = r \<or> latest s (keyOf r) = Some ?x"
    using merge_cases(1) [of r] merge_cases(2) [of r "the (latest s (keyOf r))"]
    by (cases "latest s (keyOf r)") auto
  have up: "rank r \<le> rank ?x \<and> (\<forall>c. latest s (keyOf r) = Some c \<longrightarrow> rank c \<le> rank ?x)"
  proof (cases "latest s (keyOf r)")
    case None
    then show ?thesis by (simp add: merge_cases(1))
  next
    case (Some c)
    then have "P r c" using Cons.prems(3) [of r c] by simp
    with Some show ?thesis by (simp add: rank [OF fr])
  qed
  have P': "P q c" if "q \<in> set rs" "c \<in> set rs \<or> latest ?s (keyOf q) = Some c" for q c
    using Cons.prems(3) [of q c] that x Cons.prems(1) fr by (auto simp: latest_save split: if_splits)
  have IH: "\<forall>q\<in>set rs. \<exists>y. latest (fold save rs ?s) (keyOf q) = Some y \<and> rank q \<le> rank y"
    and IH2: "\<forall>k c. latest ?s k = Some c \<longrightarrow> (\<exists>y. latest (fold save rs ?s) k = Some y \<and> rank c \<le> rank y)"
    using Cons.IH [OF ok' _ P'] Cons.prems(2) by simp_all
  have mine: "latest ?s (keyOf r) = Some ?x" using Cons.prems(1) fr by (simp add: latest_save)
  have "\<exists>y. latest (fold save rs ?s) (keyOf r) = Some y \<and> rank ?x \<le> rank y"
    using IH2 mine by blast
  then have r: "\<exists>y. latest (fold save rs ?s) (keyOf r) = Some y \<and> rank r \<le> rank y"
    using up by (meson order_trans)
  have old: "\<exists>y. latest (fold save rs ?s) k = Some y \<and> rank c \<le> rank y" if "latest s k = Some c" for k c
  proof (cases "k = keyOf r")
    case True
    then obtain y where "latest (fold save rs ?s) k = Some y" "rank ?x \<le> rank y"
      using IH2 mine by blast
    with up that True show ?thesis by (meson order_trans)
  next
    case False
    then have "latest ?s k = Some c" using that Cons.prems(1) fr by (simp add: latest_save)
    with IH2 show ?thesis by blast
  qed
  from IH r old show ?case by simp
qed simp

end

section \<open>The file store as an instance\<close>

definition validRecord :: "deployment \<Rightarrow> bool" where
  "validRecord dep \<longleftrightarrow> dep_id dep \<noteq> [] \<and> dep_project dep \<noteq> [] \<and> dep_host dep \<noteq> []"

definition keyOfDeployment :: "deployment \<Rightarrow> gostring" where
  "keyOfDeployment dep = indexKeyForProjectHost (dep_project dep) (dep_host dep)"

definition savable :: "deployment \<Rightarrow> bool" where
  "savable dep \<longleftrightarrow> validRecord dep \<and> \<not> containsAny (dep_id dep) [slash, CHR 0x5C]"

definition mergeLatest :: "deployment \<Rightarrow> deployment option \<Rightarrow> deployment" where
  "mergeLatest dep cur =
     (case cur of
        None \<Rightarrow> dep
      | Some c \<Rightarrow> if dep_id c = dep_id dep \<or> \<not> dep_started_at dep < dep_started_at c then dep else c)"

definition goodIndex :: "index \<Rightarrow> bool" where
  "goodIndex m \<longleftrightarrow>
     distinct (map fst m)
     \<and> (\<forall>(k, r)\<in>set m. \<exists>dep. r = Some dep \<and> validRecord dep \<and> k = keyOfDeployment dep)"

definition healthy :: "gostring \<Rightarrow> disk \<Rightarrow> bool" where
  "healthy dp d \<longleftrightarrow>
     dp \<noteq> [] \<and> (\<forall>p. \<not> dk_write_fails d p)
     \<and> (case asIndex (dkRead d (projectsFile dp)) of
          NotExist \<Rightarrow> True
        | ReadOk (Some m) \<Rightarrow> goodIndex m
        | _ \<Rightarrow> False)"

definition indexMap :: "index \<Rightarrow> gostring \<rightharpoonup> deployment" where
  "indexMap m k = (case map_of m k of Some r \<Rightarrow> r | None \<Rightarrow> None)"

definition latestOf :: "gostring \<Rightarrow> disk \<Rightarrow> gostring \<rightharpoonup> deployment" where
  "latestOf dp d =
     (case asIndex (dkRead d (projectsFile dp)) of ReadOk (Some m) \<Rightarrow> indexMap m | _ \<Rightarrow> Map.empty)"

lemma indexMap_update [simp]: "indexMap (AList.update k (Some dep) m) = (indexMap m)(k \<mapsto> dep)"
  by (auto simp: indexMap_def fun_eq_iff AList.update_conv')

lemma indexMap_delete [simp]: "indexMap (AList.delete k m) = (indexMap m)(k := None)"
  by (auto simp: indexMap_def fun_eq_iff AList.delete_conv')

lemma indexMap_Nil [simp]: "indexMap [] = Map.empty"
  by (simp add: indexMap_def fun_eq_iff)

definition saveDisk :: "gostring \<Rightarrow> deployment \<Rightarrow> disk \<Rightarrow> disk" where
  "saveDisk dp dep d = snd (saveDeployment dp (Some dep) d)"

definition deleteKeyDisk :: "gostring \<Rightarrow> gostring \<Rightarrow> disk \<Rightarrow> disk" where
  "deleteKeyDisk dp k d =
     (case asIndex (dkRead d (projectsFile dp)) of
        ReadOk (Some m) \<Rightarrow>
          if map_of m k = None then d
          else snd (writeJSON (projectsFile dp) (DocIndex (AList.delete k m)) d)
      | _ \<Rightarrow> d)"

lemma healthyD:
  assumes "healthy dp d"
  shows "dp \<noteq> []" "\<not> dk_write_fails d p"
  using assms by (auto simp: healthy_def)

lemma healthy_index:
  assumes "healthy dp d"
  obtains (absent) "asIndex (dkRead d (projectsFile dp)) = NotExist" "latestOf dp d = Map.empty"
    | (index) m where "asIndex (dkRead d (projectsFile dp)) = ReadOk (Some m)" "goodIndex m"
        "latestOf dp d = indexMap m"
  using assms by (auto simp: healthy_def latestOf_def split: read_result.splits option.splits)

lemma goodIndex_map_of:
  "\<lbrakk>goodIndex m; map_of m k = Some r\<rbrakk> \<Longrightarrow> \<exists>dep. r = Some dep \<and> validRecord dep \<and> k = keyOfDeployment dep"
  by (auto simp: goodIndex_def dest!: map_of_SomeD)

lemma set_update_subset: "set (AList.update k v m) \<subseteq> insert (k, v) (set m)"
  by (induction m) auto

lemma goodIndex_update:
  assumes g: "goodIndex m" and v: "validRecord dep"
  shows "goodIndex (AList.update (keyOfDeployment dep) (Some dep) m)"
proof -
  have "distinct (map fst (AList.update (keyOfDeployment dep) (Some dep) m))"
    using g by (intro distinct_update) (simp add: goodIndex_def)
  moreover have "\<exists>dep'. r = Some dep' \<and> validRecord dep' \<and> k = keyOfDeployment dep'"
    if "(k, r) \<in> set (AList.update (keyOfDeployment dep) (Some dep) m)" for k r
  proof -
    have "(k, r) = (keyOfDeployment dep, Some dep) \<or> (k, r) \<in> set m"
      using that set_update_subset by fastforce
    then show ?thesis using g v by (auto simp: goodIndex_def)
  qed
  ultimately show ?thesis by (auto simp: goodIndex_def)
qed

lemma goodIndex_delete: "goodIndex m \<Longrightarrow> goodIndex (AList.delete k m)"
  by (auto simp: goodIndex_def AList.delete_eq distinct_map_filter)

lemma goodIndex_Nil [simp]: "goodIndex []"
  by (simp add: goodIndex_def)

text \<open>What an update of the index file leaves of the disk.\<close>

lemma index_written [disk_simps]:
  "asIndex ((f(p \<mapsto> DocIndex m)) p) = ReadOk (Some m)"
  by (simp add: asIndex_def)

lemma latestOf_write [simp]:
  "latestOf dp (dkPut (projectsFile dp) (DocIndex m) d) = indexMap m"
  by (simp add: latestOf_def asIndex_def)

lemma healthy_write:
  "\<lbrakk>healthy dp d; goodIndex m\<rbrakk> \<Longrightarrow> healthy dp (dkPut (projectsFile dp) (DocIndex m) d)"
  by (simp add: healthy_def asIndex_def)

lemma healthy_elsewhere:
  assumes "p \<noteq> projectsFile dp"
  shows "healthy dp (dkPut p doc d) = healthy dp d" "latestOf dp (dkPut p doc d) = latestOf dp d"
  using assms by (auto simp: healthy_def latestOf_def fun_eq_iff)

lemma updateProjectsIndex_spec:
  assumes h: "healthy dp d" and v: "validRecord dep"
  shows "\<exists>m. updateProjectsIndex dp dep d = (Ret None, dkPut (projectsFile dp) (DocIndex m) d)
       \<and> goodIndex m
       \<and> indexMap m = (latestOf dp d)(keyOfDeployment dep :=
            Some (mergeLatest dep (latestOf dp d (keyOfDeployment dep))))"
  using h
proof (cases rule: healthy_index)
  case absent
  show ?thesis
    using absent healthyD(2) [OF h] goodIndex_update [OF goodIndex_Nil v]
    by (intro exI [where x = "[(keyOfDeployment dep, Some dep)]"])
       (auto simp: updateProjectsIndex_def Let_def writeJSON_def mergeLatest_def indexMap_def
         keyOfDeployment_def [symmetric])
next
  case (index m)
  let ?k = "keyOfDeployment dep"
  note upd = updateProjectsIndex_def Let_def writeJSON_def keyOfDeployment_def [symmetric]
  show ?thesis
  proof (cases "map_of m ?k")
    case None
    then show ?thesis
      using index healthyD(2) [OF h] goodIndex_update [OF index(2) v]
      by (intro exI [where x = "AList.update ?k (Some dep) m"])
         (simp add: upd mergeLatest_def, simp add: indexMap_def)
  next
    case (Some r)
    with goodIndex_map_of [OF index(2)] obtain c where c: "map_of m ?k = Some (Some c)" by blast
    then have l: "indexMap m ?k = Some c" by (simp add: indexMap_def)
    let ?m = "if dep_id c = dep_id dep \<or> \<not> dep_started_at dep < dep_started_at c
              then AList.update ?k (Some dep) m else m"
    have "indexMap ?m = (indexMap m)(?k := Some (mergeLatest dep (Some c)))"
      using l by (auto simp: mergeLatest_def)
    then show ?thesis
      using index healthyD(2) [OF h] goodIndex_update [OF index(2) v] c l
      by (intro exI [where x = ?m]) (simp add: upd)
  qed
qed

lemma savable_no_slash: "savable dep \<Longrightarrow> slash \<notin> set (dep_id dep)"
  by (auto simp: savable_def containsAny_def)

lemma saveDeployment_spec:
  assumes h: "healthy dp d" and v: "savable dep"
  obtains d' where "saveDeployment dp (Some dep) d = (Ret None, d')" "healthy dp d'"
    "latestOf dp d' = (latestOf dp d)(keyOfDeployment dep :=
        Some (mergeLatest dep (latestOf dp d (keyOfDeployment dep))))"
    "\<forall>p. p \<noteq> projectsFile dp \<longrightarrow>
       dkRead d' p = ((dkRead d)(runFile dp (dep_id dep) \<mapsto> DocDeployment dep)) p"
proof -
  let ?d = "dkPut (runFile dp (dep_id dep)) (DocDeployment dep) d"
  have ne: "runFile dp (dep_id dep) \<noteq> projectsFile dp"
    using runFile_not_index savable_no_slash [OF v] healthyD(1) [OF h] by blast
  have h': "healthy dp ?d" "latestOf dp ?d = latestOf dp d"
    using h by (simp_all add: healthy_elsewhere [OF ne])
  obtain m where m: "updateProjectsIndex dp dep ?d = (Ret None, dkPut (projectsFile dp) (DocIndex m) ?d)"
    "goodIndex m"
    "indexMap m = (latestOf dp d)(keyOfDeployment dep :=
        Some (mergeLatest dep (latestOf dp d (keyOfDeployment dep))))"
    using updateProjectsIndex_spec [OF h'(1)] v by (auto simp: h'(2) savable_def)
  have "saveDeployment dp (Some dep) d = (Ret None, dkPut (projectsFile dp) (DocIndex m) ?d)"
    using m(1) v healthyD(2) [OF h] by (simp add: saveDeployment_def writeJSON_def savable_def)
  then show ?thesis using m healthy_write [OF h'(1) m(2)] by (intro that) auto
qed

lemma getLatest_healthy:
  assumes h: "healthy dp d"
  shows "getLatestDeployment dp p ho d = Inr (latestOf dp d (indexKeyForProjectHost p ho))"
  using h
proof (cases rule: healthy_index)
  case absent
  then show ?thesis by (simp add: getLatestDeployment_def readLatestDeploymentByKey_def)
next
  case (index m)
  let ?k = "indexKeyForProjectHost p ho"
  show ?thesis
  proof (cases "map_of m ?k")
    case None
    with index show ?thesis
      by (simp add: getLatestDeployment_def readLatestDeploymentByKey_def indexMap_def)
  next
    case (Some r)
    with goodIndex_map_of [OF index(2) Some] index show ?thesis
      by (auto simp: getLatestDeployment_def readLatestDeploymentByKey_def indexMap_def
          validateDeploymentRecord_def validRecord_def)
  qed
qed

lemma deleteKey_healthy:
  assumes h: "healthy dp d"
  shows "healthy dp (deleteKeyDisk dp k d)" "latestOf dp (deleteKeyDisk dp k d) = (latestOf dp d)(k := None)"
proof -
  show "healthy dp (deleteKeyDisk dp k d)"
    using h
  proof (cases rule: healthy_index)
    case (index m)
    then show ?thesis
      using h healthyD(2) [OF h] healthy_write [OF h goodIndex_delete]
      by (simp add: deleteKeyDisk_def writeJSON_def)
  qed (simp add: deleteKeyDisk_def h)
  show "latestOf dp (deleteKeyDisk dp k d) = (latestOf dp d)(k := None)"
    using h
  proof (cases rule: healthy_index)
    case (index m)
    then show ?thesis
      using healthyD(2) [OF h] by (auto simp: deleteKeyDisk_def writeJSON_def indexMap_def fun_eq_iff)
  qed (simp add: deleteKeyDisk_def)
qed

lemma deleteLatest_healthy:
  assumes h: "healthy dp d"
  shows "deleteLatestDeployment dp p ho d =
    (Inr (latestOf dp d (indexKeyForProjectHost p ho) \<noteq> None), deleteKeyDisk dp (indexKeyForProjectHost p ho) d)"
  using h
proof (cases rule: healthy_index)
  case absent
  then show ?thesis by (simp add: deleteLatestDeployment_def deleteKeyDisk_def Let_def)
next
  case (index m)
  show ?thesis
    using index healthyD(2) [OF h] goodIndex_map_of [OF index(2), of "indexKeyForProjectHost p ho"]
    by (cases "map_of m (indexKeyForProjectHost p ho)")
       (auto simp: deleteLatestDeployment_def deleteKeyDisk_def Let_def sliceElems_def writeJSON_def indexMap_def)
qed

interpretation fs: latest_store "healthy dp" "latestOf dp" keyOfDeployment savable mergeLatest
  "saveDisk dp" "deleteKeyDisk dp" for dp
proof unfold_locales
  fix d r assume "healthy dp d" "savable r"
  then obtain d' where "saveDeployment dp (Some r) d = (Ret None, d')" "healthy dp d'"
    "latestOf dp d' = (latestOf dp d)(keyOfDeployment r :=
        Some (mergeLatest r (latestOf dp d (keyOfDeployment r))))" by (rule saveDeployment_spec)
  then show "healthy dp (saveDisk dp r d)"
    "latestOf dp (saveDisk dp r d) = (latestOf dp d)(keyOfDeployment r :=
        Some (mergeLatest r (latestOf dp d (keyOfDeployment r))))" by (simp_all add: saveDisk_def)
qed (auto simp: deleteKey_healthy mergeLatest_def)

lemma indexKey_inj:
  assumes "slash \<notin> set h" "slash \<notin> set h'" "indexKeyForProjectHost p h = indexKeyForProjectHost p' h'"
  shows "p = p' \<and> h = h'"
proof -
  have "strCut [slash] (h @ slash # p) = strCut [slash] (h' @ slash # p')"
    using assms(3) by (simp add: indexKeyForProjectHost_def)
  then show ?thesis using assms(1,2) by (simp add: strCut_char)
qed

text \<open>
  C4. Saving a deployment on a healthy disk succeeds, writes its run file, and afterwards the latest
  deployment of its project and host is the record itself, unless the index held a different run
  that started later; every project and host whose name pair differs keeps its entry (host names
  without slashes), and every file but the run's and the index keeps its content.
\<close>

theorem saveDeployment_correct:
  assumes "healthy dp d" "savable dep" "slash \<notin> set (dep_host dep)"
  shows "\<exists>d'. saveDeployment dp (Some dep) d = (Ret None, d') \<and> healthy dp d'
      \<and> getLatestDeployment dp (dep_project dep) (dep_host dep) d' =
          Inr (Some (mergeLatest dep (latestOf dp d (keyOfDeployment dep))))
      \<and> (\<forall>p h. slash \<notin> set h \<and> (p, h) \<noteq> (dep_project dep, dep_host dep) \<longrightarrow>
            getLatestDeployment dp p h d' = getLatestDeployment dp p h d)
      \<and> dkRead d' (runFile dp (dep_id dep)) = Some (DocDeployment dep)
      \<and> (\<forall>p. p \<noteq> projectsFile dp \<and> p \<noteq> runFile dp (dep_id dep) \<longrightarrow> dkRead d' p = dkRead d p)"
proof -
  obtain d' where d': "saveDeployment dp (Some dep) d = (Ret None, d')" "healthy dp d'"
    "latestOf dp d' = (latestOf dp d)(keyOfDeployment dep :=
        Some (mergeLatest dep (latestOf dp d (keyOfDeployment dep))))"
    and reads: "\<forall>p. p \<noteq> projectsFile dp \<longrightarrow>
       dkRead d' p = ((dkRead d)(runFile dp (dep_id dep) \<mapsto> DocDeployment dep)) p"
    by (rule saveDeployment_spec [OF assms(1,2)])
  have other: "getLatestDeployment dp p h d' = getLatestDeployment dp p h d"
    if "slash \<notin> set h" "(p, h) \<noteq> (dep_project dep, dep_host dep)" for p h
    using that indexKey_inj [OF that(1) assms(3), of p "dep_project dep"] assms(1) d'(2,3)
    by (auto simp: getLatest_healthy keyOfDeployment_def)
  have "runFile dp (dep_id dep) \<noteq> projectsFile dp"
    using runFile_not_index savable_no_slash [OF assms(2)] healthyD(1) [OF assms(1)] by blast
  then show ?thesis
    using d' reads other by (intro exI [where x = d'])
      (simp add: getLatest_healthy keyOfDeployment_def [symmetric])
qed

definition demoDeployment :: "gostring \<Rightarrow> gotime \<Rightarrow> deployment" where
  "demoDeployment i t =
     zeroDeployment\<lparr>dep_id := i, dep_project := ''web'', dep_host := ''h1'', dep_started_at := t,
       dep_status := StatusRunning\<rparr>"

definition emptyDisk :: disk where
  "emptyDisk = \<lparr>dk_files = [], dk_write_fails = (\<lambda>_. False), dk_mkdir_fails = (\<lambda>_. False),
                dk_runs_unlistable = False\<rparr>"

lemma demo_facts:
  "healthy ''/data'' emptyDisk" "savable (demoDeployment ''1'' t)" "savable (demoDeployment ''2'' t)"
  "dep_host (demoDeployment i t) = ''h1''" "dep_project (demoDeployment i t) = ''web''"
  "dep_started_at (demoDeployment i t) = t" "dep_id (demoDeployment i t) = i"
  "latestOf ''/data'' emptyDisk = Map.empty" "keyOfDeployment (demoDeployment i t) = ''h1/web''"
  by (simp_all add: healthy_def emptyDisk_def dkRead_def asIndex_def savable_def validRecord_def
      demoDeployment_def zeroDeployment_def containsAny_def latestOf_def keyOfDeployment_def
      indexKeyForProjectHost_def)

lemma saveDeployment_correct_witness:
  "\<exists>d'. saveDeployment ''/data'' (Some (demoDeployment ''1'' 5)) emptyDisk = (Ret None, d')
     \<and> getLatestDeployment ''/data'' ''web'' ''h1'' d' = Inr (Some (demoDeployment ''1'' 5))"
  using saveDeployment_correct [OF demo_facts(1,2), of 5]
  by (auto simp: demo_facts mergeLatest_def)

text \<open>
  C10. The index holds the newest run whatever the order in which concurrent deployments are saved:
  after any sequence of saves on a healthy disk, the latest deployment of each saved key is one of
  the saved records or the one that was there, and none of the saved records of that key started
  later. A run keeps its start time over its saves.
\<close>

theorem latest_is_newest:
  assumes h: "healthy dp d" and ds: "list_all savable ds"
    and ids: "\<And>a b. \<lbrakk>a \<in> set ds; b \<in> set ds \<or> latestOf dp d (keyOfDeployment a) = Some b; dep_id a = dep_id b\<rbrakk>
              \<Longrightarrow> dep_started_at a = dep_started_at b"
    and dep: "dep \<in> set ds"
  shows "\<exists>x. getLatestDeployment dp (dep_project dep) (dep_host dep) (fold (saveDisk dp) ds d) = Inr (Some x)
           \<and> dep_started_at dep \<le> dep_started_at x
           \<and> (x \<in> set ds \<and> keyOfDeployment x = keyOfDeployment dep \<or> latestOf dp d (keyOfDeployment dep) = Some x)"
proof -
  let ?P = "\<lambda>a b. dep_id a = dep_id b \<longrightarrow> dep_started_at a = dep_started_at b"
  have ok: "healthy dp (fold (saveDisk dp) ds d)"
    using h ds by (induction ds arbitrary: d) (simp_all add: fs.ok_save)
  have "dep_started_at (mergeLatest r (Some c)) = max (dep_started_at r) (dep_started_at c)" if "?P r c" for r c
    using that by (auto simp: mergeLatest_def)
  then obtain x where x: "latestOf dp (fold (saveDisk dp) ds d) (keyOfDeployment dep) = Some x"
    "dep_started_at dep \<le> dep_started_at x"
    using fs.saves_max [where rank = dep_started_at and P = ?P, OF _ h ds] ids dep by blast
  then show ?thesis
    using fs.saves_origin [OF h ds x(1)] ok
    by (simp add: getLatest_healthy keyOfDeployment_def)
qed

lemma latest_is_newest_witness:
  "\<exists>x. getLatestDeployment ''/data'' ''web'' ''h1''
         (fold (saveDisk ''/data'') [demoDeployment ''2'' 7, demoDeployment ''1'' 5] emptyDisk) = Inr (Some x)
     \<and> 5 \<le> dep_started_at x"
proof -
  let ?ds = "[demoDeployment ''2'' 7, demoDeployment ''1'' 5]"
  have ds: "list_all savable ?ds" by (simp add: demo_facts)
  have ids: "dep_started_at a = dep_started_at b"
    if "a \<in> set ?ds" "b \<in> set ?ds \<or> latestOf ''/data'' emptyDisk (keyOfDeployment a) = Some b"
      "dep_id a = dep_id b" for a b
    using that by (auto simp: demo_facts)
  have "demoDeployment ''1'' 5 \<in> set ?ds" by simp
  from latest_is_newest [OF demo_facts(1) ds ids this] show ?thesis
    by (simp only: demo_facts) blast
qed

text \<open>
  Deleting the latest deployment of a project and host on a healthy disk reports whether there was
  one, and afterwards there is none, while every other pair keeps its entry.
\<close>

theorem deleteLatestDeployment_correct:
  assumes h: "healthy dp d" and ho: "slash \<notin> set ho"
  shows "\<exists>d'. deleteLatestDeployment dp p ho d = (Inr (getLatestDeployment dp p ho d \<noteq> Inr None), d')
      \<and> healthy dp d' \<and> getLatestDeployment dp p ho d' = Inr None
      \<and> (\<forall>q g. slash \<notin> set g \<and> (q, g) \<noteq> (p, ho) \<longrightarrow>
            getLatestDeployment dp q g d' = getLatestDeployment dp q g d)"
proof -
  let ?d = "deleteKeyDisk dp (indexKeyForProjectHost p ho) d"
  have "indexKeyForProjectHost q g \<noteq> indexKeyForProjectHost p ho"
    if "slash \<notin> set g" "(q, g) \<noteq> (p, ho)" for q g
    using that indexKey_inj [OF that(1) ho, of q p] by auto
  then show ?thesis
    using h by (intro exI [where x = ?d])
      (auto simp: deleteLatest_healthy getLatest_healthy deleteKey_healthy)
qed

lemma deleteLatestDeployment_correct_witness:
  "\<exists>d'. deleteLatestDeployment ''/data'' ''web'' ''h1'' (saveDisk ''/data'' (demoDeployment ''1'' 5) emptyDisk)
        = (Inr True, d') \<and> getLatestDeployment ''/data'' ''web'' ''h1'' d' = Inr None"
proof -
  let ?d = "saveDisk ''/data'' (demoDeployment ''1'' 5) emptyDisk"
  have h: "healthy ''/data'' ?d" by (rule fs.ok_save [OF demo_facts(1,2)])
  have "getLatestDeployment ''/data'' ''web'' ''h1'' ?d = Inr (Some (demoDeployment ''1'' 5))"
    using saveDeployment_correct [OF demo_facts(1,2), of 5]
    by (auto simp: demo_facts mergeLatest_def saveDisk_def)
  with deleteLatestDeployment_correct [OF h, of "''h1''" "''web''"] show ?thesis by auto
qed

end
