(* ===== verification/Store_History.thy ===== *)
theory Store_History
  imports Store_Index
begin

text \<open>
  The history of runs, the repair of interrupted runs at start-up, and the poll state of
  repositories.
\<close>

section \<open>Listing runs\<close>

definition wanted :: "gostring \<Rightarrow> gostring \<Rightarrow> deployment \<Rightarrow> bool" where
  "wanted project ho dep \<longleftrightarrow> (project \<noteq> [] \<longrightarrow> dep_project dep = project) \<and> (ho \<noteq> [] \<longrightarrow> dep_host dep = ho)"

definition runRecord :: "gostring \<Rightarrow> disk \<Rightarrow> gostring \<Rightarrow> deployment option" where
  "runRecord dp d n =
     (if hasSuffix n ''.json'' then
        (case asDeployment (dkRead d (pathJoin [runsDir dp, n])) of
           ReadOk dep \<Rightarrow> if validRecord dep then Some dep else None
         | _ \<Rightarrow> None)
      else None)"

lemma validateDeploymentRecord_None:
  "validateDeploymentRecord (Some dep) = None \<longleftrightarrow> validRecord dep"
  by (simp add: validateDeploymentRecord_def validRecord_def)

fun errorName :: "list_error \<Rightarrow> gostring" where
  "errorName (ListRead n) = n"
| "errorName (ListUnmarshal n) = n"
| "errorName (ListRecord n e) = n"

lemma readRuns_spec:
  "fst (readRuns dp d project ho ns) = filter (wanted project ho) (List.map_filter (runRecord dp d) ns)
   \<and> map errorName (snd (readRuns dp d project ho ns))
     = filter (\<lambda>n. hasSuffix n ''.json'' \<and> runRecord dp d n = None) ns"
proof (induction ns)
  case (Cons n ns)
  obtain deps errs where r: "readRuns dp d project ho ns = (deps, errs)" by (rule prod.exhaust)
  let ?r = "asDeployment (dkRead d (pathJoin [runsDir dp, n]))"
  note ih = Cons.IH [unfolded r fst_conv snd_conv]
  show ?case
  proof (cases "hasSuffix n ''.json''")
    case False
    then show ?thesis using ih r by (simp add: runRecord_def map_filter_simps)
  next
    case True
    show ?thesis
    proof (cases ?r)
      case (ReadOk dep)
      show ?thesis
      proof (cases "validateDeploymentRecord (Some dep)")
        case None
        then have "runRecord dp d n = Some dep"
          using True ReadOk validateDeploymentRecord_None [of dep] by (simp add: runRecord_def)
        then show ?thesis using ih r True ReadOk None by (auto simp: map_filter_simps wanted_def)
      next
        case (Some e)
        then have "runRecord dp d n = None"
          using True ReadOk validateDeploymentRecord_None [of dep] by (simp add: runRecord_def)
        then show ?thesis using ih r True ReadOk Some by (simp add: map_filter_simps)
      qed
    qed (use True ih r in \<open>simp_all add: runRecord_def map_filter_simps\<close>)
  qed
qed (simp add: map_filter_simps)

abbreviation newestFirst :: "deployment list \<Rightarrow> bool" where
  "newestFirst \<equiv> sorted_wrt (\<lambda>a b. dep_started_at b \<le> dep_started_at a)"

lemma newestFirst_sort: "newestFirst (sort_key (\<lambda>dep. - dep_started_at dep) xs)"
proof -
  have "sorted (map (\<lambda>dep. - dep_started_at dep) (sort_key (\<lambda>dep. - dep_started_at dep) xs))"
    by simp
  then show ?thesis by (simp add: sorted_map)
qed

text \<open>
  Listing runs of a listable directory returns, newest first, exactly the readable valid records
  that pass the project and host filters, cut to the first \<open>limit\<close> of that order when the limit is
  positive, so no run left out started later than a listed one; and it reports exactly the names of
  the \<open>.json\<close> files that hold no valid record, instead of failing.
\<close>

theorem listDeployments_correct:
  assumes "\<not> dk_runs_unlistable d"
  shows "\<exists>full. newestFirst full
    \<and> mset full = mset (filter (wanted project ho) (List.map_filter (runRecord dp d) (runNames dp d)))
    \<and> (\<exists>errs. listDeployments dp project ho limit d =
               Inr (if limit > 0 then take (nat limit) full else full, errs)
           \<and> map errorName errs = filter (\<lambda>n. hasSuffix n ''.json'' \<and> runRecord dp d n = None) (runNames dp d))"
proof -
  obtain deps errs where r: "readRuns dp d project ho (runNames dp d) = (deps, errs)" by (rule prod.exhaust)
  let ?full = "sort_key (\<lambda>dep. - dep_started_at dep) deps"
  have "listDeployments dp project ho limit d =
          Inr (if limit > 0 then take (nat limit) ?full else ?full, errs)"
    using assms r by (auto simp: listDeployments_def Let_def)
  then show ?thesis
    using readRuns_spec [of dp d project ho "runNames dp d"] r
    by (intro exI [where x = ?full] conjI exI [where x = errs] newestFirst_sort) simp_all
qed

lemma listDeployments_correct_witness:
  "\<exists>full. newestFirst full \<and>
     mset full = mset (filter (wanted [] []) (List.map_filter (runRecord ''/data'' emptyDisk) (runNames ''/data'' emptyDisk)))"
  using listDeployments_correct [of emptyDisk "[]" "[]" "''/data''" 10]
  by (auto simp: emptyDisk_def)

section \<open>Repair after an interrupted daemon\<close>

definition repaired :: "gotime \<Rightarrow> deployment \<Rightarrow> deployment" where
  "repaired now dep = (if dep_status dep = StatusRunning then failStale now dep else dep)"

lemma failStale_fields [simp]:
  "dep_id (failStale now dep) = dep_id dep" "dep_project (failStale now dep) = dep_project dep"
  "dep_host (failStale now dep) = dep_host dep" "dep_status (failStale now dep) = StatusFailed"
  "dep_completed_at (failStale now dep) = Some now" "dep_started_at (failStale now dep) = dep_started_at dep"
  by (simp_all add: failStale_def)

lemma repaired_keys [simp]:
  "keyOfDeployment (repaired now dep) = keyOfDeployment dep" "validRecord (repaired now dep) = validRecord dep"
  "dep_status (repaired now dep) \<noteq> StatusRunning"
  by (simp_all add: repaired_def keyOfDeployment_def validRecord_def)

definition sameButRuns :: "gostring \<Rightarrow> disk \<Rightarrow> disk \<Rightarrow> bool" where
  "sameButRuns dp d d' \<longleftrightarrow>
     dk_write_fails d' = dk_write_fails d
     \<and> (\<forall>p. (\<forall>i. slash \<notin> set i \<longrightarrow> p \<noteq> runFile dp i) \<longrightarrow> dkRead d' p = dkRead d p)"

lemma sameButRuns_refl [simp]: "sameButRuns dp d d"
  by (simp add: sameButRuns_def)

lemma sameButRuns_step:
  "\<lbrakk>sameButRuns dp (dkPut (runFile dp i) doc d) d'; slash \<notin> set i\<rbrakk> \<Longrightarrow> sameButRuns dp d d'"
  by (auto simp: sameButRuns_def)

lemma sameButRuns_index:
  assumes "sameButRuns dp d d'" "dp \<noteq> []"
  shows "dkRead d' (projectsFile dp) = dkRead d (projectsFile dp)"
proof -
  have "\<forall>i. slash \<notin> set i \<longrightarrow> projectsFile dp \<noteq> runFile dp i"
    using runFile_not_index [OF assms(2)] by metis
  with assms(1) show ?thesis by (simp add: sameButRuns_def)
qed

definition repairIndex :: "gotime \<Rightarrow> index \<Rightarrow> index" where
  "repairIndex now m = map (\<lambda>(k, r). (k, map_option (repaired now) r)) m"

definition runningIn :: "index \<Rightarrow> nat" where
  "runningIn m = length (filter (\<lambda>(k, r). map_option dep_status r = Some StatusRunning) m)"

lemma staleLoop_spec:
  assumes "\<forall>p. \<not> dk_write_fails d p"
    and "\<forall>(k, r)\<in>set m. \<exists>dep. r = Some dep \<and> slash \<notin> set (dep_id dep)"
  shows "\<exists>d'. staleLoop dp now n m d = (Ret (n + runningIn m, Inr (repairIndex now m)), d')
            \<and> sameButRuns dp d d'"
  using assms
proof (induction m arbitrary: n d)
  case Nil
  then show ?case by (simp add: runningIn_def repairIndex_def)
next
  case (Cons e m)
  then obtain k dep where e: "e = (k, Some dep)" and i: "slash \<notin> set (dep_id dep)" by auto
  show ?case
  proof (cases "dep_status dep = StatusRunning")
    case False
    obtain d' where "staleLoop dp now n m d = (Ret (n + runningIn m, Inr (repairIndex now m)), d')"
      "sameButRuns dp d d'" using Cons.IH [of d n] Cons.prems by auto
    then show ?thesis
      using False e by (intro exI [where x = d']) (simp add: runningIn_def repairIndex_def repaired_def)
  next
    case True
    let ?d = "dkPut (runFile dp (dep_id dep)) (DocDeployment (failStale now dep)) d"
    obtain d' where "staleLoop dp now (Suc n) m ?d = (Ret (Suc n + runningIn m, Inr (repairIndex now m)), d')"
      "sameButRuns dp ?d d'" using Cons.IH [of ?d "Suc n"] Cons.prems by auto
    then show ?thesis
      using True e i Cons.prems(1) sameButRuns_step [of dp "dep_id dep" _ d d']
      by (intro exI [where x = d'])
        (simp add: runningIn_def repairIndex_def repaired_def writeJSON_def)
  qed
qed

lemma indexMap_repair: "indexMap (repairIndex now m) k = map_option (repaired now) (indexMap m k)"
proof -
  have "map_of (repairIndex now m) k = map_option (map_option (repaired now)) (map_of m k)"
    unfolding repairIndex_def by (induction m) auto
  then show ?thesis by (simp add: indexMap_def split: option.split)
qed

lemma goodIndex_repair: "goodIndex m \<Longrightarrow> goodIndex (repairIndex now m)"
  unfolding goodIndex_def repairIndex_def
  by (auto simp: comp_def case_prod_beta)

lemma runningIn_0: "goodIndex m \<Longrightarrow> runningIn m = 0 \<Longrightarrow> repairIndex now m = m"
  unfolding repairIndex_def runningIn_def goodIndex_def
  by (induction m) (auto simp: repaired_def split: if_splits)

text \<open>The repair, for the clients.\<close>

lemma markStale_spec:
  assumes h: "healthy dp d" and ids: "\<forall>k dep. latestOf dp d k = Some dep \<longrightarrow> slash \<notin> set (dep_id dep)"
  shows "\<exists>n d'. markStaleRunningDeploymentsFailed dp now d = (Ret (n, None), d') \<and> healthy dp d'
      \<and> latestOf dp d' = (\<lambda>k. map_option (repaired now) (latestOf dp d k))
      \<and> (\<forall>k dep. latestOf dp d' k = Some dep \<longrightarrow> dep_status dep \<noteq> StatusRunning)"
  using h
proof (cases rule: healthy_index)
  case absent
  then show ?thesis
    using h by (auto simp: markStaleRunningDeploymentsFailed_def fun_eq_iff)
next
  case (index m)
  have m: "\<forall>(k, r)\<in>set m. \<exists>dep. r = Some dep \<and> slash \<notin> set (dep_id dep)"
  proof safe
    fix k r assume kr: "(k, r) \<in> set m"
    then have "map_of m k = Some r" using index(2) by (simp add: goodIndex_def)
    moreover obtain dep where "r = Some dep" using kr index(2) by (auto simp: goodIndex_def)
    ultimately show "\<exists>dep. r = Some dep \<and> slash \<notin> set (dep_id dep)"
      using ids [rule_format, of k dep] index(3) by (simp add: indexMap_def)
  qed
  obtain d' where d': "staleLoop dp now 0 m d = (Ret (runningIn m, Inr (repairIndex now m)), d')"
    "sameButRuns dp d d'" using staleLoop_spec [OF _ m, of d dp now 0] healthyD(2) [OF h] by auto
  have same: "dkRead d' (projectsFile dp) = dkRead d (projectsFile dp)"
    using sameButRuns_index [OF d'(2) healthyD(1) [OF h]] .
  have h': "healthy dp d'" and l': "latestOf dp d' = latestOf dp d"
    using h d'(2) same by (auto simp: healthy_def latestOf_def sameButRuns_def)
  let ?w = "dkPut (projectsFile dp) (DocIndex (repairIndex now m)) d'"
  have r: "latestOf dp ?w = (\<lambda>k. map_option (repaired now) (latestOf dp d k))"
    by (simp add: indexMap_repair index(3) fun_eq_iff)
  have none: "dep_status dep \<noteq> StatusRunning"
    if "map_option (repaired now) (latestOf dp d k) = Some dep" for k dep using that by auto
  show ?thesis
  proof (cases "runningIn m = 0")
    case True
    have "latestOf dp d' = (\<lambda>k. map_option (repaired now) (latestOf dp d k))"
      using r runningIn_0 [OF index(2) True, of now] l' index(3) by simp
    then show ?thesis
      using index(1) d'(1) True h' none
      by (intro exI [where x = 0] exI [where x = d'])
        (simp add: markStaleRunningDeploymentsFailed_def Let_def sliceElems_def)
  next
    case False
    then show ?thesis
      using index(1) d'(1) h' r none healthyD(2) [OF h'] healthy_write [OF h' goodIndex_repair [OF index(2)]]
      by (intro exI [where x = "runningIn m"] exI [where x = ?w])
        (simp add: markStaleRunningDeploymentsFailed_def Let_def sliceElems_def writeJSON_def)
  qed
qed

text \<open>
  Repair at start-up: on a healthy disk whose indexed runs have identifiers without slashes,
  \<open>MarkStaleRunningDeploymentsFailed\<close> succeeds, and afterwards every indexed run that was running
  is failed with its completion time set, every other entry is unchanged, and none is running.
\<close>

theorem markStale_correct:
  assumes h: "healthy dp d" and ids: "\<forall>k dep. latestOf dp d k = Some dep \<longrightarrow> slash \<notin> set (dep_id dep)"
  shows "\<exists>n d'. markStaleRunningDeploymentsFailed dp now d = (Ret (n, None), d') \<and> healthy dp d'
      \<and> latestOf dp d' = (\<lambda>k. map_option (repaired now) (latestOf dp d k))
      \<and> (\<forall>k dep. latestOf dp d' k = Some dep \<longrightarrow> dep_status dep \<noteq> StatusRunning)"
  using assms by (rule markStale_spec)

lemma markStale_correct_witness:
  "\<exists>n d'. markStaleRunningDeploymentsFailed ''/data'' 9
        (saveDisk ''/data'' (demoDeployment ''1'' 5) emptyDisk) = (Ret (n, None), d')
     \<and> latestOf ''/data'' d' ''h1/web'' = Some (failStale 9 (demoDeployment ''1'' 5))"
proof -
  let ?d = "saveDisk ''/data'' (demoDeployment ''1'' 5) emptyDisk"
  have h: "healthy ''/data'' ?d" by (rule fs.ok_save [OF demo_facts(1,2)])
  have l: "latestOf ''/data'' ?d = [''h1/web'' \<mapsto> demoDeployment ''1'' 5]"
    by (simp add: fs.latest_save [OF demo_facts(1,2)] demo_facts mergeLatest_def)
  have "\<forall>k dep. latestOf ''/data'' ?d k = Some dep \<longrightarrow> slash \<notin> set (dep_id dep)"
    unfolding l by (auto simp: demo_facts)
  from markStale_correct [OF h this, where now = 9] show ?thesis
    unfolding l by (auto simp: repaired_def demoDeployment_def zeroDeployment_def)
qed

section \<open>Poll state\<close>

text \<open>Saving a repository state, for the clients.\<close>

lemma saveRepoState_spec:
  assumes "dp \<noteq> []" "\<forall>p. \<not> dk_write_fails d p \<and> \<not> dk_mkdir_fails d p" "safeName (rs_repo rs)"
  shows "\<exists>d'. saveRepoState dp now (Some rs) d = (None, d')
     \<and> getRepoState dp (rs_repo rs) (rs_branch rs) d' = Inr (Some (rs\<lparr>rs_updated_at := now\<rparr>))
     \<and> (\<forall>r b. safeName r \<and> (r, b) \<noteq> (rs_repo rs, rs_branch rs) \<longrightarrow> getRepoState dp r b d' = getRepoState dp r b d)
     \<and> latestOf dp d' = latestOf dp d
     \<and> (\<forall>i. slash \<notin> set i \<longrightarrow> dkRead d' (runFile dp i) = dkRead d (runFile dp i))"
proof -
  let ?p = "repoStatePath dp (rs_repo rs) (rs_branch rs)"
  let ?d = "dkPut ?p (DocRepoState (rs\<lparr>rs_updated_at := now\<rparr>)) d"
  have "repoStatePath dp r b \<noteq> ?p" if "safeName r" "(r, b) \<noteq> (rs_repo rs, rs_branch rs)" for r b
    using that repoStatePath_inj [OF assms(1) that(1) assms(3)] by auto
  moreover have "runFile dp i \<noteq> ?p" if "slash \<notin> set i" for i
    using repoStatePath_not_other(2) [OF assms(1,3) that] by metis
  ultimately show ?thesis
    using assms repoStatePath_not_other(1) [OF assms(1,3)] healthy_elsewhere(2) [of ?p dp _ d]
    by (intro exI [where x = ?d]) (auto simp: saveRepoState_def writeJSON_def getRepoState_def asRepoState_def)
qed

text \<open>
  Saving the poll state of a repository and branch on a disk that accepts writes succeeds; reading
  it back returns the saved state with the time of the save, and every other repository and branch,
  every run file and the index are unchanged.
\<close>

theorem repoState_roundtrip:
  assumes "dp \<noteq> []" "\<forall>p. \<not> dk_write_fails d p \<and> \<not> dk_mkdir_fails d p" "safeName (rs_repo rs)"
  shows "\<exists>d'. saveRepoState dp now (Some rs) d = (None, d')
     \<and> getRepoState dp (rs_repo rs) (rs_branch rs) d' = Inr (Some (rs\<lparr>rs_updated_at := now\<rparr>))
     \<and> (\<forall>r b. safeName r \<and> (r, b) \<noteq> (rs_repo rs, rs_branch rs) \<longrightarrow> getRepoState dp r b d' = getRepoState dp r b d)
     \<and> latestOf dp d' = latestOf dp d
     \<and> (\<forall>i. slash \<notin> set i \<longrightarrow> dkRead d' (runFile dp i) = dkRead d (runFile dp i))"
  using assms by (rule saveRepoState_spec)

lemma repoState_roundtrip_witness:
  "\<exists>d'. saveRepoState ''/data'' 3 (Some (zeroRepoState\<lparr>rs_repo := ''a/b'', rs_branch := ''main''\<rparr>)) emptyDisk = (None, d')
     \<and> getRepoState ''/data'' ''a/b'' ''main'' d' =
         Inr (Some (zeroRepoState\<lparr>rs_repo := ''a/b'', rs_branch := ''main'', rs_updated_at := 3\<rparr>))"
  using repoState_roundtrip [of "''/data''" emptyDisk "zeroRepoState\<lparr>rs_repo := ''a/b'', rs_branch := ''main''\<rparr>" 3]
  by (auto simp: emptyDisk_def safeName_def)

end
