(* ===== verification/Compose.thy ===== *)
theory Compose
  imports Go_Path Prelude
begin

text \<open>
  Docker Compose over a connection (\<open>internal/compose\<close>). The connection is a parameter: a function
  that runs a command text and one that uploads a file, over a world it may change. The executor's
  calls are recorded with their success, so the properties speak of what was run in which order.
  The JSON decoder is a parameter that gives the results of the successive \<open>Decode\<close> calls.
\<close>

section \<open>Quoting\<close>

text \<open>\<open>%q\<close> of \<open>fmt\<close> on printable text.\<close>

definition quoteByte :: "char \<Rightarrow> gostring" where
  "quoteByte c =
     (if c = CHR 0x22 then [CHR 0x5C, CHR 0x22] else if c = CHR 0x5C then [CHR 0x5C, CHR 0x5C]
      else if c = CHR 0x0A then [CHR 0x5C, CHR ''n''] else if c = CHR 0x09 then [CHR 0x5C, CHR ''t'']
      else if c = CHR 0x0D then [CHR 0x5C, CHR ''r''] else [c])"

definition goQuote :: "gostring \<Rightarrow> gostring" where
  "goQuote s = [CHR 0x22] @ replaceBytes quoteByte s @ [CHR 0x22]"

abbreviation quoteChar :: char where "quoteChar \<equiv> CHR 0x27"

definition quoteSingle :: "char \<Rightarrow> gostring" where
  "quoteSingle c = (if c = quoteChar then [quoteChar, CHR 0x5C, quoteChar, quoteChar] else [c])"

definition shellQuote :: "gostring \<Rightarrow> gostring" where
  "shellQuote argument = [quoteChar] @ replaceBytes quoteSingle argument @ [quoteChar]"

section \<open>Project names\<close>

definition isNameByte :: "char \<Rightarrow> bool" where
  "isNameByte c \<longleftrightarrow> ((97::nat) \<le> of_char c \<and> of_char c \<le> (122::nat)) \<or> isDigit c
                  \<or> c = CHR ''-'' \<or> c = CHR ''_''"

fun replaceRuns :: "bool \<Rightarrow> gostring \<Rightarrow> gostring" where
  "replaceRuns lastWasReplacement [] = []"
| "replaceRuns lastWasReplacement (c # cs) =
     (if isNameByte c then c # replaceRuns False cs
      else if lastWasReplacement then replaceRuns True cs
      else CHR ''-'' # replaceRuns True cs)"

definition isDashByte :: "char \<Rightarrow> bool" where
  "isDashByte c \<longleftrightarrow> c = CHR ''-'' \<or> c = CHR ''_''"

text \<open>
  The case mapping is Go's \<open>ToLower\<close> on runes: two letters outside ASCII have a lower case inside it,
  the dotted capital I (bytes C4 B0) and the Kelvin sign (bytes E2 84 AA). Every other byte outside
  ASCII belongs to a rune that is replaced, whatever its case.
\<close>

fun lowerUnicode :: "gostring \<Rightarrow> gostring" where
  "lowerUnicode [] = []"
| "lowerUnicode (c # cs) =
     (if c = CHR 0xC4 \<and> take 1 cs = [CHR 0xB0] then CHR ''i'' # lowerUnicode (drop 1 cs)
      else if c = CHR 0xE2 \<and> take 2 cs = [CHR 0x84, CHR 0xAA] then CHR ''k'' # lowerUnicode (drop 2 cs)
      else c # lowerUnicode cs)"

definition sanitizeProjectName :: "gostring \<Rightarrow> gostring" where
  "sanitizeProjectName name =
     (let name' = toLower (lowerUnicode (trimSpace name)) in
      if name' = [] then []
      else let out = trimFunc isDashByte (replaceRuns False name') in
        if out = [] then []
        else if isDigit (hd out) then ''deeplo-'' @ out else out)"

section \<open>Data\<close>

record bundle_file =
  bf_local_path :: gostring
  bf_remote_name :: gostring

record publisher =
  pub_url :: gostring
  pub_target_port :: int
  pub_published_port :: int
  pub_protocol :: gostring

record service_status =
  svc_id :: gostring
  svc_name :: gostring
  svc_command :: gostring
  svc_project :: gostring
  svc_service :: gostring
  svc_state :: gostring
  svc_status :: gostring
  svc_health :: gostring
  svc_exit_code :: int
  svc_publishers :: "publisher list"

record deploy_result =
  dr_services :: "service_status list"
  dr_compose_output :: gostring

record deploy_options =
  opt_compose_files :: "gostring list"
  opt_persist_files :: "gostring list"

record executor =
  ex_remote_dir :: gostring
  ex_project :: gostring

definition newExecutor :: "gostring \<Rightarrow> gostring \<Rightarrow> executor" where
  "newExecutor remoteDir project =
     \<lparr>ex_remote_dir = remoteDir, ex_project = sanitizeProjectName project\<rparr>"

text \<open>\<open>Bundle.Validate\<close>; \<open>stat\<close> gives the error of \<open>os.Stat\<close>, if any.\<close>

fun validateFiles :: "(gostring \<Rightarrow> goerror) \<Rightarrow> nat \<Rightarrow> bundle_file list \<Rightarrow> goerror" where
  "validateFiles stat i [] = None"
| "validateFiles stat i (f # fs) =
     (if bf_remote_name f = []
      then Some (''bundle file ['' @ itoaNat i @ '']: RemoteName must not be empty'')
      else if bf_local_path f = []
      then Some (''bundle file '' @ goQuote (bf_remote_name f) @ '': LocalPath must not be empty'')
      else (case stat (bf_local_path f) of
              Some e \<Rightarrow> Some (''bundle file '' @ goQuote (bf_remote_name f) @ '': '' @ e)
            | None \<Rightarrow> validateFiles stat (Suc i) fs))"

definition validateBundle :: "(gostring \<Rightarrow> goerror) \<Rightarrow> bundle_file list \<Rightarrow> goerror" where
  "validateBundle stat files = validateFiles stat 0 files"

section \<open>Commands\<close>

definition buildCommand ::
  "executor \<Rightarrow> gostring \<Rightarrow> gostring list \<Rightarrow> gostring \<Rightarrow> gostring list \<Rightarrow> gostring" where
  "buildCommand ex dir composeFiles subcommand args =
     strJoin '' '' ([''cd'', shellQuote dir, ''&&'', ''docker compose'']
       @ (if ex_project ex \<noteq> [] then [''--project-name'', shellQuote (ex_project ex)] else [])
       @ concat (map (\<lambda>f. [''-f'', shellQuote f]) composeFiles)
       @ [subcommand] @ args)"

datatype remote_cmd =
    Cleanup gostring
  | MkStaging gostring
  | CopyPersist gostring gostring gostring
  | Swap gostring gostring gostring
  | ComposeConfig gostring "gostring list"
  | ComposeUp gostring "gostring list"
  | ComposePs gostring "gostring list"
  | ComposeDown gostring "gostring list"

fun commandText :: "executor \<Rightarrow> remote_cmd \<Rightarrow> gostring" where
  "commandText ex (Cleanup dir) = ''rm -rf '' @ shellQuote dir"
| "commandText ex (MkStaging dir) = ''mkdir -p '' @ shellQuote dir"
| "commandText ex (CopyPersist src dst dstDir) =
     ''if [ -f '' @ shellQuote src @ '' ] && [ ! -e '' @ shellQuote dst @ '' ]; then mkdir -p ''
     @ shellQuote dstDir @ '' && cp '' @ shellQuote src @ '' '' @ shellQuote dst @ ''; fi''"
| "commandText ex (Swap old live staging) =
     ''rm -rf '' @ shellQuote old @ '' && ( [ ! -d '' @ shellQuote live @ '' ] || mv ''
     @ shellQuote live @ '' '' @ shellQuote old @ '' ) && mv '' @ shellQuote staging @ '' '' @ shellQuote live"
| "commandText ex (ComposeConfig dir fs) = buildCommand ex dir fs ''config'' []"
| "commandText ex (ComposeUp dir fs) =
     buildCommand ex dir fs ''up''
       [''--detach'', ''--remove-orphans'', ''--quiet-pull'', ''--force-recreate'', ''--build'']"
| "commandText ex (ComposePs dir fs) = buildCommand ex dir fs ''ps'' [''--format'', ''json'']"
| "commandText ex (ComposeDown dir fs) = buildCommand ex dir fs ''down'' [''--remove-orphans'']"

text \<open>A connection, and the record of the calls made through it with their success.\<close>

record run_output =
  out_stdout :: gostring
  out_stderr :: gostring
  out_err :: goerror

record 'w connection =
  conn_run :: "gostring \<Rightarrow> 'w \<Rightarrow> run_output \<times> 'w"
  conn_upload :: "gostring \<Rightarrow> gostring \<Rightarrow> 'w \<Rightarrow> goerror \<times> 'w"
  conn_decode :: "gostring \<Rightarrow> (gostring + service_status) list"

datatype remote_call = RunCall remote_cmd bool | UploadCall gostring gostring bool

type_synonym 'w session = "'w \<times> remote_call list"

definition runCmd :: "'w connection \<Rightarrow> executor \<Rightarrow> remote_cmd \<Rightarrow> 'w session \<Rightarrow> run_output \<times> 'w session" where
  "runCmd conn ex cmd s =
     (case conn_run conn (commandText ex cmd) (fst s) of
        (out, w) \<Rightarrow> (out, (w, snd s @ [RunCall cmd (out_err out = None)])))"

definition uploadFile ::
  "'w connection \<Rightarrow> gostring \<Rightarrow> gostring \<Rightarrow> 'w session \<Rightarrow> goerror \<times> 'w session" where
  "uploadFile conn localPath remotePath s =
     (case conn_upload conn localPath remotePath (fst s) of
        (err, w) \<Rightarrow> (err, (w, snd s @ [UploadCall localPath remotePath (err = None)])))"

definition errText :: "goerror \<Rightarrow> gostring" where
  "errText e = (case e of None \<Rightarrow> [] | Some m \<Rightarrow> m)"

definition cleanup :: "'w connection \<Rightarrow> executor \<Rightarrow> gostring \<Rightarrow> 'w session \<Rightarrow> 'w session" where
  "cleanup conn ex dir s = snd (runCmd conn ex (Cleanup dir) s)"

definition preflight ::
  "'w connection \<Rightarrow> executor \<Rightarrow> gostring \<Rightarrow> gostring list \<Rightarrow> 'w session \<Rightarrow> goerror \<times> 'w session" where
  "preflight conn ex dir composeFiles s =
     (case runCmd conn ex (ComposeConfig dir composeFiles) s of
        (out, s') \<Rightarrow>
          (if out_err out \<noteq> None
           then Some (''compose config failed:'' @ [CHR 0x0A] @ ''stdout: '' @ out_stdout out @ [CHR 0x0A]
                      @ ''stderr: '' @ trimSpace (out_stderr out))
           else None, s'))"

fun collectServices :: "gostring \<Rightarrow> (gostring + service_status) list \<Rightarrow> gostring + service_status list" where
  "collectServices raw [] = Inr []"
| "collectServices raw (Inl e # rs) = Inl (''parse compose ps output: '' @ e @ [CHR 0x0A] @ ''raw: '' @ raw)"
| "collectServices raw (Inr svc # rs) =
     (case collectServices raw rs of Inl e \<Rightarrow> Inl e | Inr svcs \<Rightarrow> Inr (svc # svcs))"

definition withStderr :: "gostring \<Rightarrow> run_output \<Rightarrow> gostring" where
  "withStderr what out =
     what @ '': '' @ errText (out_err out) @ '' (stderr: '' @ trimSpace (out_stderr out) @ '')''"

definition composePs ::
  "'w connection \<Rightarrow> executor \<Rightarrow> gostring list \<Rightarrow> 'w session \<Rightarrow> (gostring + service_status list) \<times> 'w session" where
  "composePs conn ex composeFiles s =
     (case runCmd conn ex (ComposePs (ex_remote_dir ex) composeFiles) s of
        (out, s') \<Rightarrow>
          (if out_err out \<noteq> None then Inl (withStderr ''compose ps'' out)
           else let stdout = trimSpace (out_stdout out) in
             if stdout = [] \<or> stdout = ''null'' \<or> stdout = ''[]'' then Inr []
             else collectServices stdout (conn_decode conn stdout), s'))"

definition composeDown ::
  "'w connection \<Rightarrow> executor \<Rightarrow> gostring list \<Rightarrow> 'w session \<Rightarrow> goerror \<times> 'w session" where
  "composeDown conn ex composeFiles s =
     (case runCmd conn ex (ComposeDown (ex_remote_dir ex) composeFiles) s of
        (out, s') \<Rightarrow> (if out_err out \<noteq> None then Some (withStderr ''compose down'' out) else None, s'))"

section \<open>Deploying\<close>

fun uploadFiles ::
  "'w connection \<Rightarrow> executor \<Rightarrow> gostring \<Rightarrow> bundle_file list \<Rightarrow> 'w session \<Rightarrow> goerror \<times> 'w session" where
  "uploadFiles conn ex stagingDir [] s = (None, s)"
| "uploadFiles conn ex stagingDir (f # fs) s =
     (case uploadFile conn (bf_local_path f) (pathJoin [stagingDir, bf_remote_name f]) s of
        (Some e, s') \<Rightarrow>
          (Some (''upload '' @ goQuote (bf_remote_name f) @ '': '' @ e), cleanup conn ex stagingDir s')
      | (None, s') \<Rightarrow> uploadFiles conn ex stagingDir fs s')"

definition copyPersist :: "executor \<Rightarrow> gostring \<Rightarrow> gostring \<Rightarrow> remote_cmd" where
  "copyPersist ex stagingDir name =
     CopyPersist (pathJoin [ex_remote_dir ex, name]) (pathJoin [stagingDir, name])
       (pathJoin [stagingDir, pathDir name])"

fun persistFiles ::
  "'w connection \<Rightarrow> executor \<Rightarrow> gostring \<Rightarrow> gostring list \<Rightarrow> 'w session \<Rightarrow> goerror \<times> 'w session" where
  "persistFiles conn ex stagingDir [] s = (None, s)"
| "persistFiles conn ex stagingDir (n # ns) s =
     (case runCmd conn ex (copyPersist ex stagingDir n) s of
        (out, s') \<Rightarrow>
          if out_err out \<noteq> None
          then (Some (withStderr (''copy persist file '' @ goQuote n) out), cleanup conn ex stagingDir s')
          else persistFiles conn ex stagingDir ns s')"

text \<open>The steps up to the preflight, which touch only the staging directory.\<close>

definition stage ::
  "'w connection \<Rightarrow> executor \<Rightarrow> bundle_file list \<Rightarrow> deploy_options \<Rightarrow> 'w session \<Rightarrow> goerror \<times> 'w session" where
  "stage conn ex files opts s0 =
     (let stagingDir = ex_remote_dir ex @ ''.staging'';
          s1 = cleanup conn ex stagingDir s0
      in case runCmd conn ex (MkStaging stagingDir) s1 of
           (out, s2) \<Rightarrow>
             if out_err out \<noteq> None then (Some (withStderr ''create staging dir'' out), s2)
             else (case uploadFiles conn ex stagingDir files s2 of
                     (Some e, s3) \<Rightarrow> (Some e, s3)
                   | (None, s3) \<Rightarrow>
                       (case persistFiles conn ex stagingDir (opt_persist_files opts) s3 of
                          (Some e, s4) \<Rightarrow> (Some e, s4)
                        | (None, s4) \<Rightarrow>
                            (case preflight conn ex stagingDir (opt_compose_files opts) s4 of
                               (Some e, s5) \<Rightarrow> (Some (''preflight: '' @ e), cleanup conn ex stagingDir s5)
                             | (None, s5) \<Rightarrow> (None, s5)))))"

definition combinedOutput :: "run_output \<Rightarrow> gostring" where
  "combinedOutput out =
     (let o1 = trimSpace (out_stdout out); e1 = trimSpace (out_stderr out) in
      if e1 \<noteq> [] then (if o1 \<noteq> [] then o1 @ [CHR 0x0A] else o1) @ e1 else o1)"

definition notRunning :: "service_status \<Rightarrow> bool" where
  "notRunning svc \<longleftrightarrow> \<not> equalFold (svc_state svc) ''running''"

text \<open>The verification of the running services after \<open>docker compose up\<close>.\<close>

definition verifyRuntime ::
  "'w connection \<Rightarrow> executor \<Rightarrow> gostring list \<Rightarrow> gostring \<Rightarrow> 'w session
   \<Rightarrow> (deploy_result option \<times> goerror) \<times> 'w session" where
  "verifyRuntime conn ex composeFiles composeOutput s =
     (case composePs conn ex composeFiles s of
        (Inl e, s') \<Rightarrow>
          ((Some \<lparr>dr_services = [], dr_compose_output = composeOutput\<rparr>, Some (''runtime check: '' @ e)), s')
      | (Inr svcs, s') \<Rightarrow>
          ((Some \<lparr>dr_services = svcs, dr_compose_output = composeOutput\<rparr>,
            case List.find notRunning svcs of
              None \<Rightarrow> None
            | Some svc \<Rightarrow>
                Some (''runtime check: service '' @ goQuote (svc_service svc) @ '' is in state ''
                      @ goQuote (svc_state svc) @ '' (expected running)'')), s'))"

definition deploy ::
  "'w connection \<Rightarrow> (gostring \<Rightarrow> goerror) \<Rightarrow> executor \<Rightarrow> bundle_file list \<Rightarrow> deploy_options
   \<Rightarrow> 'w session \<Rightarrow> (deploy_result option \<times> goerror) \<times> 'w session" where
  "deploy conn stat ex files opts s0 =
     (case validateBundle stat files of
        Some e \<Rightarrow> ((None, Some (''invalid bundle: '' @ e)), s0)
      | None \<Rightarrow>
          if opt_compose_files opts = []
          then ((None, Some ''at least one compose file is required in DeployOptions''), s0)
          else (case stage conn ex files opts s0 of
                  (Some e, s1) \<Rightarrow> ((None, Some e), s1)
                | (None, s1) \<Rightarrow>
                    (let live = ex_remote_dir ex; staging = live @ ''.staging''; old = live @ ''.old'' in
                     case runCmd conn ex (Swap old live staging) s1 of
                       (out, s2) \<Rightarrow>
                         if out_err out \<noteq> None
                         then ((None, Some (withStderr ''directory swap failed'' out)), s2)
                         else (case runCmd conn ex (ComposeUp live (opt_compose_files opts))
                                      (cleanup conn ex old s2) of
                                 (up, s3) \<Rightarrow>
                                   if out_err up \<noteq> None
                                   then ((None, Some (withStderr ''docker compose up'' up)), s3)
                                   else verifyRuntime conn ex (opt_compose_files opts) (combinedOutput up) s3))))"

end
