(* ===== verification/Compose_Laws.thy ===== *)
theory Compose_Laws
  imports Compose
begin

text \<open>
  Correctness of the Compose executor: its command lines split into exactly the intended words by the
  shell's quoting rules, project names are acceptable to Docker Compose, the live directory is only
  swapped after a successful preflight, and success means that every service runs.
\<close>

section \<open>The shell's reading of a command line\<close>

text \<open>
  The fragment of the POSIX token rules the built commands use: blanks separate words, single quotes
  keep everything up to the next one, a backslash keeps the next byte, \<open>&&\<close>, \<open>||\<close>, \<open>;\<close> and the
  parentheses are operators, and any other byte with a meaning to the shell is rejected (an opening
  bracket is ordinary: it stands alone in these commands). The state is the word read so far, if any.
\<close>

datatype shell_token = Word gostring | Oper gostring

definition shellSpecial :: "char \<Rightarrow> bool" where
  "shellSpecial c \<longleftrightarrow> c \<in> set ''|&<>$`*?#~'' \<or> c = CHR 0x22 \<or> c = CHR 0x0A \<or> c = CHR 0x09"

definition oneByteOp :: "char \<Rightarrow> bool" where
  "oneByteOp c \<longleftrightarrow> c = CHR '';'' \<or> c = CHR ''('' \<or> c = CHR '')''"

definition doubledOp :: "char \<Rightarrow> bool" where
  "doubledOp c \<longleftrightarrow> c = CHR ''&'' \<or> c = CHR ''|''"

definition flush :: "gostring option \<Rightarrow> shell_token list" where
  "flush w = (case w of None \<Rightarrow> [] | Some x \<Rightarrow> [Word x])"

definition addTo :: "gostring option \<Rightarrow> gostring \<Rightarrow> gostring option" where
  "addTo w s = Some ((case w of None \<Rightarrow> [] | Some x \<Rightarrow> x) @ s)"

function shellLex :: "gostring option \<Rightarrow> gostring \<Rightarrow> shell_token list option" where
  "shellLex w [] = Some (flush w)"
| "shellLex w (c # cs) =
     (if c = CHR '' '' then map_option (\<lambda>ts. flush w @ ts) (shellLex None cs)
      else if c = quoteChar then
        (let body = takeWhile (\<lambda>d. d \<noteq> quoteChar) cs; rest = dropWhile (\<lambda>d. d \<noteq> quoteChar) cs in
         if rest = [] then None else shellLex (addTo w body) (tl rest))
      else if c = CHR 0x5C then (case cs of [] \<Rightarrow> None | d # ds \<Rightarrow> shellLex (addTo w [d]) ds)
      else if doubledOp c then
        (if cs \<noteq> [] \<and> hd cs = c
         then map_option (\<lambda>ts. flush w @ Oper [c, c] # ts) (shellLex None (tl cs)) else None)
      else if oneByteOp c then map_option (\<lambda>ts. flush w @ Oper [c] # ts) (shellLex None cs)
      else if shellSpecial c then None
      else shellLex (addTo w [c]) cs)"
  by pat_completeness auto
termination
proof (relation "measure (\<lambda>(w, s). length s)", goal_cases)
  case (3 w c cs x xa)
  then have "length (dropWhile (\<lambda>d. d \<noteq> quoteChar) cs) \<le> length cs" by (simp add: length_dropWhile_le)
  with 3 show ?case by auto
qed auto

declare shellLex.simps(2) [simp del]

lemma shellLex_quoted:
  "quoteChar \<notin> set s \<Longrightarrow> shellLex w (quoteChar # s @ quoteChar # r) = shellLex (addTo w s) r"
proof -
  assume s: "quoteChar \<notin> set s"
  have "takeWhile (\<lambda>d. d \<noteq> quoteChar) (s @ quoteChar # r) = s"
    "dropWhile (\<lambda>d. d \<noteq> quoteChar) (s @ quoteChar # r) = quoteChar # r"
    using s by (induction s) auto
  then show ?thesis by (simp add: shellLex.simps(2) [of w quoteChar])
qed

lemma addTo_addTo [simp]: "addTo (addTo w a) b = addTo w (a @ b)"
  by (simp add: addTo_def)

text \<open>
  A run of quoted text from inside the quotes: up to the first single quote it is kept, there the
  quoting closes, an escaped quote follows, and it opens again.
\<close>

lemma shellLex_body:
  "shellLex w (quoteChar # a @ replaceBytes quoteSingle s @ quoteChar # r) = shellLex (addTo w (a @ s)) r"
  if "quoteChar \<notin> set a"
  using that
proof (induction s arbitrary: a w)
  case Nil
  then show ?case by (simp add: shellLex_quoted)
next
  case (Cons c s)
  show ?case
  proof (cases "c = quoteChar")
    case False
    then show ?thesis using Cons.IH [of "a @ [c]" w] Cons.prems by (simp add: quoteSingle_def)
  next
    case True
    let ?rest = "replaceBytes quoteSingle s @ quoteChar # r"
    have "shellLex w (quoteChar # a @ replaceBytes quoteSingle (c # s) @ quoteChar # r) =
          shellLex (addTo w a) (CHR 0x5C # quoteChar # quoteChar # ?rest)"
      using True shellLex_quoted [OF Cons.prems, of w "CHR 0x5C # quoteChar # quoteChar # ?rest"]
      by (simp add: quoteSingle_def)
    also have "\<dots> = shellLex (addTo w (a @ [quoteChar])) (quoteChar # ?rest)"
      by (simp add: shellLex.simps(2) [of _ "CHR 0x5C"])
    also have "\<dots> = shellLex (addTo w (a @ [quoteChar] @ s)) r"
      using Cons.IH [of "[]" "addTo w (a @ [quoteChar])"] by simp
    finally show ?thesis using True by simp
  qed
qed

lemma shellLex_shellQuote: "shellLex w (shellQuote s @ r) = shellLex (addTo w s) r"
  using shellLex_body [of "[]" w s r] by (simp add: shellQuote_def)

definition plainByte :: "char \<Rightarrow> bool" where
  "plainByte c \<longleftrightarrow> c \<noteq> CHR '' '' \<and> c \<noteq> quoteChar \<and> c \<noteq> CHR 0x5C \<and> \<not> doubledOp c \<and> \<not> oneByteOp c
                 \<and> \<not> shellSpecial c"

definition plainWord :: "gostring \<Rightarrow> bool" where
  "plainWord s \<longleftrightarrow> s \<noteq> [] \<and> list_all plainByte s"

lemma shellLex_plainByte: "plainByte c \<Longrightarrow> shellLex w (c # r) = shellLex (addTo w [c]) r"
  by (simp add: shellLex.simps(2) plainByte_def)

lemma shellLex_plain: "plainWord s \<Longrightarrow> shellLex w (s @ r) = shellLex (addTo w s) r"
proof (induction s arbitrary: w)
  case (Cons c s)
  then show ?case
    by (cases "s = []") (simp_all add: plainWord_def shellLex_plainByte)
qed (simp add: plainWord_def)

lemma shellLex_blank: "shellLex w (CHR '' '' # r) = map_option (\<lambda>ts. flush w @ ts) (shellLex None r)"
  by (simp add: shellLex.simps(2))

definition operText :: "gostring \<Rightarrow> bool" where
  "operText s \<longleftrightarrow> s \<in> {''&&'', ''||'', '';'', ''('', '')''}"

lemma shellLex_oper:
  "operText s \<Longrightarrow> shellLex w (s @ r) = map_option (\<lambda>ts. flush w @ Oper s # ts) (shellLex None r)"
  by (auto simp: operText_def shellLex.simps(2) doubledOp_def oneByteOp_def)

text \<open>The pieces a built command is made of, and the tokens they stand for.\<close>

datatype piece = Plain gostring | Quoted gostring | Op gostring | Blank

fun pieceText :: "piece \<Rightarrow> gostring" where
  "pieceText (Plain s) = s"
| "pieceText (Quoted s) = shellQuote s"
| "pieceText (Op s) = s"
| "pieceText Blank = '' ''"

fun goodPiece :: "piece \<Rightarrow> bool" where
  "goodPiece (Plain s) = plainWord s"
| "goodPiece (Op s) = operText s"
| "goodPiece _ = True"

fun pieceLex :: "gostring option \<Rightarrow> piece list \<Rightarrow> shell_token list" where
  "pieceLex w [] = flush w"
| "pieceLex w (Plain s # ps) = pieceLex (addTo w s) ps"
| "pieceLex w (Quoted s # ps) = pieceLex (addTo w s) ps"
| "pieceLex w (Op s # ps) = flush w @ Oper s # pieceLex None ps"
| "pieceLex w (Blank # ps) = flush w @ pieceLex None ps"

lemma shellLex_pieces:
  "list_all goodPiece ps \<Longrightarrow> shellLex w (concat (map pieceText ps)) = Some (pieceLex w ps)"
  by (induction w ps rule: pieceLex.induct)
     (simp_all add: shellLex_plain shellLex_shellQuote shellLex_oper shellLex_blank)

lemma strJoin_blank: "strJoin '' '' (x # xs) = x @ concat (map (\<lambda>y. CHR '' '' # y) xs)"
  by (induction xs arbitrary: x) auto

text \<open>The tokens a command must have.\<close>

definition composeTokens :: "executor \<Rightarrow> gostring \<Rightarrow> gostring list \<Rightarrow> gostring list \<Rightarrow> shell_token list" where
  "composeTokens ex dir fs args =
     [Word ''cd'', Word dir, Oper ''&&'', Word ''docker'', Word ''compose'']
     @ (if ex_project ex \<noteq> [] then [Word ''--project-name'', Word (ex_project ex)] else [])
     @ concat (map (\<lambda>f. [Word ''-f'', Word f]) fs) @ map Word args"

fun intendedTokens :: "executor \<Rightarrow> remote_cmd \<Rightarrow> shell_token list" where
  "intendedTokens ex (Cleanup dir) = map Word [''rm'', ''-rf'', dir]"
| "intendedTokens ex (MkStaging dir) = map Word [''mkdir'', ''-p'', dir]"
| "intendedTokens ex (CopyPersist src dst dstDir) =
     map Word [''if'', ''['', ''-f'', src, '']''] @ [Oper ''&&'']
     @ map Word [''['', ''!'', ''-e'', dst, '']''] @ [Oper '';''] @ map Word [''then'', ''mkdir'', ''-p'', dstDir]
     @ [Oper ''&&''] @ map Word [''cp'', src, dst] @ [Oper '';'', Word ''fi'']"
| "intendedTokens ex (Swap old live staging) =
     map Word [''rm'', ''-rf'', old] @ [Oper ''&&'', Oper ''(''] @ map Word [''['', ''!'', ''-d'', live, '']'']
     @ [Oper ''||''] @ map Word [''mv'', live, old] @ [Oper '')'', Oper ''&&''] @ map Word [''mv'', staging, live]"
| "intendedTokens ex (ComposeConfig dir fs) = composeTokens ex dir fs [''config'']"
| "intendedTokens ex (ComposeUp dir fs) = composeTokens ex dir fs
     [''up'', ''--detach'', ''--remove-orphans'', ''--quiet-pull'', ''--force-recreate'', ''--build'']"
| "intendedTokens ex (ComposePs dir fs) = composeTokens ex dir fs [''ps'', ''--format'', ''json'']"
| "intendedTokens ex (ComposeDown dir fs) = composeTokens ex dir fs [''down'', ''--remove-orphans'']"

text \<open>The pieces of a list of words that are each preceded by a blank.\<close>

definition wordPieces :: "piece list \<Rightarrow> piece list" where
  "wordPieces ps = concat (map (\<lambda>p. [Blank, p]) ps)"

lemma pieceLex_words:
  "\<lbrakk>\<forall>p\<in>set ps. p \<noteq> Blank \<and> (\<forall>s. p \<noteq> Op s)\<rbrakk> \<Longrightarrow>
     pieceLex (Some x) (wordPieces ps) = Word x # map (\<lambda>p. Word (case p of Plain s \<Rightarrow> s | Quoted s \<Rightarrow> s | _ \<Rightarrow> [])) ps"
proof (induction ps arbitrary: x)
  case Nil
  then show ?case by (simp add: wordPieces_def flush_def)
next
  case (Cons p ps)
  then show ?case by (cases p) (simp_all add: wordPieces_def flush_def addTo_def)
qed

definition composePieces :: "executor \<Rightarrow> gostring \<Rightarrow> gostring list \<Rightarrow> gostring list \<Rightarrow> piece list" where
  "composePieces ex dir fs args =
     [Plain ''cd'', Blank, Quoted dir, Blank, Op ''&&'', Blank, Plain ''docker'']
     @ wordPieces (Plain ''compose''
         # (if ex_project ex \<noteq> [] then [Plain ''--project-name'', Quoted (ex_project ex)] else [])
         @ concat (map (\<lambda>f. [Plain ''-f'', Quoted f]) fs) @ map Plain args)"

lemma concat_wordPieces:
  "concat (map pieceText (wordPieces ps)) = concat (map (\<lambda>y. CHR '' '' # y) (map pieceText ps))"
  by (induction ps) (simp_all add: wordPieces_def)

lemma buildCommand_pieces:
  "buildCommand ex dir fs sub args = concat (map pieceText (composePieces ex dir fs (sub # args)))"
  unfolding buildCommand_def composePieces_def
  by (simp add: strJoin_blank concat_wordPieces map_concat comp_def)

lemma composePieces_lex:
  "list_all plainWord args \<Longrightarrow>
     shellLex None (concat (map pieceText (composePieces ex dir fs args))) = Some (composeTokens ex dir fs args)"
proof -
  assume a: "list_all plainWord args"
  let ?ps = "Plain ''compose''
         # (if ex_project ex \<noteq> [] then [Plain ''--project-name'', Quoted (ex_project ex)] else [])
         @ concat (map (\<lambda>f. [Plain ''-f'', Quoted f]) fs) @ map Plain args"
  have cs: "plainWord ''cd''" "plainWord ''docker''" "plainWord ''compose''" "plainWord ''--project-name''"
    "plainWord ''-f''" "operText ''&&''" by code_simp+
  have good: "list_all goodPiece (composePieces ex dir fs args)"
    using a cs by (auto simp: composePieces_def wordPieces_def list_all_iff)
  have w: "\<forall>p\<in>set ?ps. p \<noteq> Blank \<and> (\<forall>s. p \<noteq> Op s)" by auto
  show ?thesis
    using pieceLex_words [OF w, of "''docker''"]
    by (subst shellLex_pieces [OF good])
       (simp add: composePieces_def composeTokens_def flush_def addTo_def map_concat comp_def)
qed

text \<open>
  C34. No command the executor sends can be bent by a name: whatever bytes the directories, file names,
  compose files and project name contain, the shell splits the command line into exactly the
  intended words and operators, with every name as one word.
\<close>

theorem commands_are_exact: "shellLex None (commandText ex cmd) = Some (intendedTokens ex cmd)"
proof (cases cmd)
  case (Cleanup dir)
  have "list_all goodPiece [Plain ''rm'', Blank, Plain ''-rf'', Blank, Quoted dir]" by code_simp
  from shellLex_pieces [OF this, of None] Cleanup show ?thesis by (simp add: flush_def addTo_def)
next
  case (MkStaging dir)
  have "list_all goodPiece [Plain ''mkdir'', Blank, Plain ''-p'', Blank, Quoted dir]" by code_simp
  from shellLex_pieces [OF this, of None] MkStaging show ?thesis by (simp add: flush_def addTo_def)
next
  case (CopyPersist src dst dstDir)
  have "list_all goodPiece
    [Plain ''if'', Blank, Plain ''['', Blank, Plain ''-f'', Blank, Quoted src, Blank, Plain '']'', Blank, Op ''&&'',
     Blank, Plain ''['', Blank, Plain ''!'', Blank, Plain ''-e'', Blank, Quoted dst, Blank, Plain '']'', Op '';'',
     Blank, Plain ''then'', Blank, Plain ''mkdir'', Blank, Plain ''-p'', Blank, Quoted dstDir, Blank, Op ''&&'',
     Blank, Plain ''cp'', Blank, Quoted src, Blank, Quoted dst, Op '';'', Blank, Plain ''fi'']" by code_simp
  from shellLex_pieces [OF this, of None] CopyPersist show ?thesis by (simp add: flush_def addTo_def)
next
  case (Swap old live staging)
  have "list_all goodPiece
    [Plain ''rm'', Blank, Plain ''-rf'', Blank, Quoted old, Blank, Op ''&&'', Blank, Op ''('', Blank, Plain ''['',
     Blank, Plain ''!'', Blank, Plain ''-d'', Blank, Quoted live, Blank, Plain '']'', Blank, Op ''||'', Blank,
     Plain ''mv'', Blank, Quoted live, Blank, Quoted old, Blank, Op '')'', Blank, Op ''&&'', Blank, Plain ''mv'',
     Blank, Quoted staging, Blank, Quoted live]" by code_simp
  from shellLex_pieces [OF this, of None] Swap show ?thesis by (simp add: flush_def addTo_def)
next
  case (ComposeConfig dir fs)
  have "list_all plainWord [''config'']" by code_simp
  from composePieces_lex [OF this] ComposeConfig show ?thesis by (simp add: buildCommand_pieces)
next
  case (ComposeUp dir fs)
  have "list_all plainWord
    [''up'', ''--detach'', ''--remove-orphans'', ''--quiet-pull'', ''--force-recreate'', ''--build'']" by code_simp
  from composePieces_lex [OF this] ComposeUp show ?thesis by (simp add: buildCommand_pieces)
next
  case (ComposePs dir fs)
  have "list_all plainWord [''ps'', ''--format'', ''json'']" by code_simp
  from composePieces_lex [OF this] ComposePs show ?thesis by (simp add: buildCommand_pieces)
next
  case (ComposeDown dir fs)
  have "list_all plainWord [''down'', ''--remove-orphans'']" by code_simp
  from composePieces_lex [OF this] ComposeDown show ?thesis by (simp add: buildCommand_pieces)
qed

lemma commands_are_exact_demo:
  "shellLex None (commandText (newExecutor ''/srv'' ''web'') (Cleanup [quoteChar, CHR '' '', CHR ''$'']))
   = Some (map Word [''rm'', ''-rf'', [quoteChar, CHR '' '', CHR ''$'']])"
  by code_simp

section \<open>Project names\<close>

lemma lowerUnicode_id: "list_all isNameByte s \<Longrightarrow> lowerUnicode s = s"
  by (induction s rule: lowerUnicode.induct) (auto simp: isNameByte_def isDigit_def)

lemma set_replaceRuns: "list_all isNameByte (replaceRuns b s)"
  by (induction b s rule: replaceRuns.induct) (auto simp: isNameByte_def isDigit_def)

lemma replaceRuns_id: "list_all isNameByte s \<Longrightarrow> replaceRuns b s = s"
  by (induction b s rule: replaceRuns.induct) auto

definition composeName :: "gostring \<Rightarrow> bool" where
  "composeName s \<longleftrightarrow> s \<noteq> [] \<and> (97::nat) \<le> of_char (hd s) \<and> of_char (hd s) \<le> (122::nat)
      \<and> list_all isNameByte s \<and> \<not> isDashByte (last s)"

lemma composeName_prefix:
  assumes "s \<noteq> []" "list_all isNameByte s" "\<not> isDashByte (last s)"
  shows "composeName (''deeplo-'' @ s)"
  using assms by (auto simp: composeName_def isNameByte_def isDigit_def)

text \<open>
  C35. The compose project name is one Docker Compose accepts, whatever the project is called: it is
  empty, in which case no \<open>--project-name\<close> is passed, or it starts with a lower-case letter, has only
  lower-case letters, digits, dashes and underscores, and ends in no separator; and a name that
  already has this form is kept.
\<close>

theorem sanitizeProjectName_valid:
  "(sanitizeProjectName s = [] \<or> composeName (sanitizeProjectName s))
   \<and> (composeName t \<longrightarrow> sanitizeProjectName t = t)"
proof (intro conjI impI)
  let ?out = "trimFunc isDashByte (replaceRuns False (toLower (lowerUnicode (trimSpace s))))"
  have n: "list_all isNameByte ?out"
    using set_replaceRuns set_trimFunc by (fastforce simp: list_all_iff)
  show "sanitizeProjectName s = [] \<or> composeName (sanitizeProjectName s)"
  proof (cases "toLower (lowerUnicode (trimSpace s)) = [] \<or> ?out = []")
    case True
    then show ?thesis by (auto simp: sanitizeProjectName_def Let_def)
  next
    case False
    then have l: "\<not> isDashByte (last ?out)" and h: "\<not> isDashByte (hd ?out)"
      using trimFunc_last trimFunc_hd by blast+
    show ?thesis
    proof (cases "isDigit (hd ?out)")
      case True
      with False n l show ?thesis
        using composeName_prefix by (simp add: sanitizeProjectName_def Let_def)
    next
      case nd: False
      have "isNameByte (hd ?out)" using n False by (cases ?out) auto
      with nd False n l h show ?thesis
        by (simp add: sanitizeProjectName_def Let_def composeName_def isNameByte_def isDashByte_def)
    qed
  qed
next
  assume t: "composeName t"
  then have ne: "t \<noteq> []" by (simp add: composeName_def)
  have b: "\<not> isSpace c \<and> toLowerByte c = c" if "c \<in> set t" for c
    using t that by (auto simp: composeName_def list_all_iff isNameByte_def isDigit_def isSpace_def toLowerByte_def)
  have "trimSpace t = t"
    using b ne unfolding trimSpace_def by (intro trimFunc_id) auto
  moreover have "lowerUnicode t = t"
    using t by (simp add: lowerUnicode_id composeName_def)
  moreover have "toLower t = t"
    using b by (auto simp: toLower_def intro: map_idI)
  moreover have "trimFunc isDashByte t = t"
    using t ne by (intro trimFunc_id) (auto simp: composeName_def isDashByte_def)
  moreover have "\<not> isDigit (hd t)" using t by (auto simp: composeName_def isDigit_def)
  ultimately show "sanitizeProjectName t = t"
    using t ne by (simp add: sanitizeProjectName_def Let_def replaceRuns_id composeName_def)
qed

lemma sanitizeProjectName_valid_witness: "sanitizeProjectName ''web_app-2'' = ''web_app-2''"
proof -
  have "composeName ''web_app-2''" by code_simp
  then show ?thesis using sanitizeProjectName_valid [of "[]" "''web_app-2''"] by blast
qed

text \<open>Distinct projects may share a compose project name.\<close>

lemma sanitizeProjectName_collision:
  "sanitizeProjectName ''web.app'' = sanitizeProjectName ''web-app''" by code_simp

section \<open>The order of a deployment\<close>

definition stagingOf :: "executor \<Rightarrow> gostring" where
  "stagingOf ex = ex_remote_dir ex @ ''.staging''"

definition liveSwap :: "executor \<Rightarrow> remote_cmd" where
  "liveSwap ex = Swap (ex_remote_dir ex @ ''.old'') (ex_remote_dir ex) (stagingOf ex)"

text \<open>The calls that leave the live directory alone.\<close>

definition stagingCall :: "executor \<Rightarrow> bundle_file list \<Rightarrow> deploy_options \<Rightarrow> remote_call \<Rightarrow> bool" where
  "stagingCall ex files opts c \<longleftrightarrow>
     (\<exists>b. c = RunCall (Cleanup (stagingOf ex)) b \<or> c = RunCall (MkStaging (stagingOf ex)) b
        \<or> (\<exists>f\<in>set files. c = UploadCall (bf_local_path f) (pathJoin [stagingOf ex, bf_remote_name f]) b)
        \<or> (\<exists>n\<in>set (opt_persist_files opts). c = RunCall (copyPersist ex (stagingOf ex) n) b)
        \<or> c = RunCall (ComposeConfig (stagingOf ex) (opt_compose_files opts)) b)"

definition uploadLog :: "executor \<Rightarrow> bundle_file list \<Rightarrow> remote_call list" where
  "uploadLog ex files =
     map (\<lambda>f. UploadCall (bf_local_path f) (pathJoin [stagingOf ex, bf_remote_name f]) True) files"

definition persistLog :: "executor \<Rightarrow> gostring list \<Rightarrow> remote_call list" where
  "persistLog ex names = map (\<lambda>n. RunCall (copyPersist ex (stagingOf ex) n) True) names"

definition stagedLog :: "executor \<Rightarrow> bundle_file list \<Rightarrow> deploy_options \<Rightarrow> bool \<Rightarrow> remote_call list" where
  "stagedLog ex files opts b =
     [RunCall (Cleanup (stagingOf ex)) b, RunCall (MkStaging (stagingOf ex)) True]
     @ uploadLog ex files @ persistLog ex (opt_persist_files opts)
     @ [RunCall (ComposeConfig (stagingOf ex) (opt_compose_files opts)) True]"

lemma runCmd_log: "runCmd conn ex cmd s = (out, s') \<Longrightarrow> snd s' = snd s @ [RunCall cmd (out_err out = None)]"
  by (auto simp: runCmd_def split: prod.splits)

lemma cleanup_log: "\<exists>b. snd (cleanup conn ex dir s) = snd s @ [RunCall (Cleanup dir) b]"
  by (auto simp: cleanup_def runCmd_def split: prod.splits)

lemma uploadFile_log:
  "uploadFile conn l r s = (e, s') \<Longrightarrow> snd s' = snd s @ [UploadCall l r (e = None)]"
  by (auto simp: uploadFile_def split: prod.splits)

lemma preflight_log:
  "preflight conn ex dir fs s = (e, s') \<Longrightarrow> snd s' = snd s @ [RunCall (ComposeConfig dir fs) (e = None)]"
  by (auto simp: preflight_def dest!: runCmd_log split: prod.splits if_splits)

lemma uploadFiles_log:
  assumes "uploadFiles conn ex (stagingOf ex) files s = (e, s')" "set files \<subseteq> set all"
  shows "\<exists>new. snd s' = snd s @ new \<and> list_all (stagingCall ex all opts) new
           \<and> (e = None \<longrightarrow> new = uploadLog ex files)"
  using assms
proof (induction files arbitrary: s)
  case Nil
  then show ?case by (simp add: uploadLog_def)
next
  case (Cons f fs)
  let ?c = "UploadCall (bf_local_path f) (pathJoin [stagingOf ex, bf_remote_name f])"
  obtain e1 s1 where u: "uploadFile conn (bf_local_path f) (pathJoin [stagingOf ex, bf_remote_name f]) s = (e1, s1)"
    by (rule prod.exhaust)
  have l1: "snd s1 = snd s @ [?c (e1 = None)]" by (rule uploadFile_log [OF u])
  have c: "stagingCall ex all opts (?c b)" for b using Cons.prems(2) by (auto simp: stagingCall_def)
  show ?case
  proof (cases e1)
    case (Some m)
    obtain b where b: "snd (cleanup conn ex (stagingOf ex) s1) = snd s1 @ [RunCall (Cleanup (stagingOf ex)) b]"
      using cleanup_log by blast
    have "s' = cleanup conn ex (stagingOf ex) s1" "e \<noteq> None" using Cons.prems(1) u Some by auto
    then show ?thesis
      using b l1 c by (intro exI [where x = "[?c (e1 = None), RunCall (Cleanup (stagingOf ex)) b]"])
        (auto simp: stagingCall_def)
  next
    case None
    then have "uploadFiles conn ex (stagingOf ex) fs s1 = (e, s')" using Cons.prems(1) u by simp
    from Cons.IH [OF this] Cons.prems(2) obtain new where
      new: "snd s' = snd s1 @ new" "list_all (stagingCall ex all opts) new" "e = None \<longrightarrow> new = uploadLog ex fs"
      by auto
    then show ?thesis
      using l1 c None by (intro exI [where x = "?c True # new"]) (simp add: uploadLog_def)
  qed
qed

lemma persistFiles_log:
  assumes "persistFiles conn ex (stagingOf ex) ns s = (e, s')" "set ns \<subseteq> set (opt_persist_files opts)"
  shows "\<exists>new. snd s' = snd s @ new \<and> list_all (stagingCall ex files opts) new
           \<and> (e = None \<longrightarrow> new = persistLog ex ns)"
  using assms
proof (induction ns arbitrary: s)
  case Nil
  then show ?case by (simp add: persistLog_def)
next
  case (Cons n ns)
  let ?c = "RunCall (copyPersist ex (stagingOf ex) n)"
  obtain out s1 where r: "runCmd conn ex (copyPersist ex (stagingOf ex) n) s = (out, s1)"
    by (rule prod.exhaust)
  have l1: "snd s1 = snd s @ [?c (out_err out = None)]" by (rule runCmd_log [OF r])
  have c: "stagingCall ex files opts (?c b)" for b using Cons.prems(2) by (auto simp: stagingCall_def)
  show ?case
  proof (cases "out_err out")
    case (Some m)
    obtain b where b: "snd (cleanup conn ex (stagingOf ex) s1) = snd s1 @ [RunCall (Cleanup (stagingOf ex)) b]"
      using cleanup_log by blast
    have "s' = cleanup conn ex (stagingOf ex) s1" "e \<noteq> None" using Cons.prems(1) r Some by auto
    then show ?thesis
      using b l1 c by (intro exI [where x = "[?c (out_err out = None), RunCall (Cleanup (stagingOf ex)) b]"])
        (auto simp: stagingCall_def)
  next
    case None
    then have "persistFiles conn ex (stagingOf ex) ns s1 = (e, s')" using Cons.prems(1) r by simp
    from Cons.IH [OF this] Cons.prems(2) obtain new where
      new: "snd s' = snd s1 @ new" "list_all (stagingCall ex files opts) new" "e = None \<longrightarrow> new = persistLog ex ns"
      by auto
    then show ?thesis
      using l1 c None by (intro exI [where x = "?c True # new"]) (simp add: persistLog_def)
  qed
qed

lemma stage_log:
  assumes "stage conn ex files opts s = (e, s')"
  shows "\<exists>new. snd s' = snd s @ new \<and> list_all (stagingCall ex files opts) new
           \<and> (e = None \<longrightarrow> (\<exists>b. new = stagedLog ex files opts b))"
proof -
  let ?ok = "stagingCall ex files opts"
  obtain b0 where l1: "snd (cleanup conn ex (stagingOf ex) s) = snd s @ [RunCall (Cleanup (stagingOf ex)) b0]"
    using cleanup_log by blast
  obtain out s2 where mk: "runCmd conn ex (MkStaging (stagingOf ex)) (cleanup conn ex (stagingOf ex) s) = (out, s2)"
    by (rule prod.exhaust)
  obtain e3 s3 where up: "uploadFiles conn ex (stagingOf ex) files s2 = (e3, s3)" by (rule prod.exhaust)
  obtain e4 s4 where pe: "persistFiles conn ex (stagingOf ex) (opt_persist_files opts) s3 = (e4, s4)"
    by (rule prod.exhaust)
  obtain e5 s5 where pf: "preflight conn ex (stagingOf ex) (opt_compose_files opts) s4 = (e5, s5)"
    by (rule prod.exhaust)
  obtain n3 where n3: "snd s3 = snd s2 @ n3" "list_all ?ok n3" "e3 = None \<longrightarrow> n3 = uploadLog ex files"
    using uploadFiles_log [OF up] by blast
  obtain n4 where n4: "snd s4 = snd s3 @ n4" "list_all ?ok n4"
    "e4 = None \<longrightarrow> n4 = persistLog ex (opt_persist_files opts)"
    using persistFiles_log [OF pe] by blast
  obtain b5 where b5: "snd (cleanup conn ex (stagingOf ex) s5) = snd s5 @ [RunCall (Cleanup (stagingOf ex)) b5]"
    using cleanup_log by blast
  note l2 = runCmd_log [OF mk] and l5 = preflight_log [OF pf]
  let ?c1 = "RunCall (Cleanup (stagingOf ex)) b0" let ?c2 = "RunCall (MkStaging (stagingOf ex))"
  let ?c5 = "RunCall (ComposeConfig (stagingOf ex) (opt_compose_files opts))"
  have oks: "?ok (RunCall (Cleanup (stagingOf ex)) b)" "?ok (?c2 b)" "?ok (?c5 b)" for b
    by (auto simp: stagingCall_def)
  note st = assms [unfolded stage_def Let_def, folded stagingOf_def, unfolded mk up pe pf prod.case]
  consider "out_err out \<noteq> None" "e \<noteq> None" "s' = s2"
    | "out_err out = None" "e3 \<noteq> None" "e \<noteq> None" "s' = s3"
    | "out_err out = None" "e3 = None" "e4 \<noteq> None" "e \<noteq> None" "s' = s4"
    | "out_err out = None" "e3 = None" "e4 = None" "e5 \<noteq> None" "e \<noteq> None" "s' = cleanup conn ex (stagingOf ex) s5"
    | "out_err out = None" "e3 = None" "e4 = None" "e5 = None" "e = None" "s' = s5"
    using st by (auto simp: up pe pf split: option.splits if_splits)
  then show ?thesis
  proof cases
    case 1
    then show ?thesis using l1 l2 oks by (intro exI [where x = "[?c1, ?c2 False]"]) auto
  next
    case 2
    then show ?thesis using l1 l2 n3 oks by (intro exI [where x = "[?c1, ?c2 True] @ n3"]) auto
  next
    case 3
    then show ?thesis using l1 l2 n3 n4 oks by (intro exI [where x = "[?c1, ?c2 True] @ n3 @ n4"]) auto
  next
    case 4
    then show ?thesis
      using l1 l2 n3 n4 l5 b5 oks
      by (intro exI [where x = "[?c1, ?c2 True] @ n3 @ n4 @ [?c5 False, RunCall (Cleanup (stagingOf ex)) b5]"]) auto
  next
    case 5
    then show ?thesis
      using l1 l2 n3 n4 l5 oks
      by (intro exI [where x = "[?c1, ?c2 True] @ n3 @ n4 @ [?c5 True]"]) (auto simp: stagedLog_def)
  qed
qed

lemma verifyRuntime_spec:
  assumes "verifyRuntime conn ex fs o1 s = ((res, err), s')"
  shows "(\<exists>b. snd s' = snd s @ [RunCall (ComposePs (ex_remote_dir ex) fs) b] \<and> (err = None \<longrightarrow> b))
       \<and> (\<exists>r. res = Some r \<and> (err = None \<longleftrightarrow> (\<exists>svcs s1. composePs conn ex fs s = (Inr svcs, s1)
                 \<and> dr_services r = svcs \<and> (\<forall>svc\<in>set svcs. equalFold (svc_state svc) ''running''))))
       \<and> (err \<noteq> None \<longrightarrow> (\<exists>m. err = Some (''runtime check: '' @ m)))"
proof -
  obtain ps s1 where p: "composePs conn ex fs s = (ps, s1)" by (rule prod.exhaust)
  then have l: "\<exists>b. snd s1 = snd s @ [RunCall (ComposePs (ex_remote_dir ex) fs) b] \<and> (\<forall>x. ps = Inr x \<longrightarrow> b)"
    by (auto simp: composePs_def dest!: runCmd_log split: prod.splits if_splits)
  show ?thesis
  proof (cases ps)
    case (Inl e)
    with p assms l show ?thesis by (auto simp: verifyRuntime_def)
  next
    case (Inr svcs)
    show ?thesis
    proof (cases "List.find notRunning svcs")
      case None
      then have "\<forall>svc\<in>set svcs. equalFold (svc_state svc) ''running''"
        by (auto simp: find_None_iff notRunning_def)
      with Inr p assms l None show ?thesis by (auto simp: verifyRuntime_def)
    next
      case (Some svc)
      then have "\<not> (\<forall>svc\<in>set svcs. equalFold (svc_state svc) ''running'')"
        by (auto dest!: find_SomeD simp: notRunning_def)
      with Inr p assms l Some show ?thesis by (auto simp: verifyRuntime_def)
    qed
  qed
qed

text \<open>The ways a deployment can end, one per return of the code.\<close>

lemma deploy_cases:
  assumes "deploy conn stat ex files opts s = ((res, err), s')"
  obtains (invalid) e where "s' = s" "res = None" "err = Some (''invalid bundle: '' @ e)"
    | (no_files) "s' = s" "res = None" "err = Some ''at least one compose file is required in DeployOptions''"
    | (staging) e where "stage conn ex files opts s = (Some e, s')" "res = None" "err = Some e"
    | (swap) s1 out where "stage conn ex files opts s = (None, s1)" "runCmd conn ex (liveSwap ex) s1 = (out, s')"
        "out_err out \<noteq> None" "res = None" "err = Some (withStderr ''directory swap failed'' out)"
    | (up) s1 out s2 up where "stage conn ex files opts s = (None, s1)" "runCmd conn ex (liveSwap ex) s1 = (out, s2)"
        "out_err out = None"
        "runCmd conn ex (ComposeUp (ex_remote_dir ex) (opt_compose_files opts))
           (cleanup conn ex (ex_remote_dir ex @ ''.old'') s2) = (up, s')"
        "out_err up \<noteq> None" "res = None" "err = Some (withStderr ''docker compose up'' up)"
    | (verify) s1 out s2 up s3 where "stage conn ex files opts s = (None, s1)"
        "runCmd conn ex (liveSwap ex) s1 = (out, s2)" "out_err out = None"
        "runCmd conn ex (ComposeUp (ex_remote_dir ex) (opt_compose_files opts))
           (cleanup conn ex (ex_remote_dir ex @ ''.old'') s2) = (up, s3)" "out_err up = None"
        "verifyRuntime conn ex (opt_compose_files opts) (combinedOutput up) s3 = ((res, err), s')"
proof -
  obtain e1 s1 where st: "stage conn ex files opts s = (e1, s1)" by (rule prod.exhaust)
  obtain out s2 where sw: "runCmd conn ex (liveSwap ex) s1 = (out, s2)" by (rule prod.exhaust)
  obtain upo s3 where u: "runCmd conn ex (ComposeUp (ex_remote_dir ex) (opt_compose_files opts))
      (cleanup conn ex (ex_remote_dir ex @ ''.old'') s2) = (upo, s3)" by (rule prod.exhaust)
  note d = assms [unfolded deploy_def Let_def st prod.case, folded stagingOf_def liveSwap_def, unfolded sw prod.case]
  consider e where "validateBundle stat files = Some e"
    | "validateBundle stat files = None" "opt_compose_files opts = []"
    | e where "validateBundle stat files = None" "opt_compose_files opts \<noteq> []" "e1 = Some e"
    | "validateBundle stat files = None" "opt_compose_files opts \<noteq> []" "e1 = None" "out_err out \<noteq> None"
    | "validateBundle stat files = None" "opt_compose_files opts \<noteq> []" "e1 = None" "out_err out = None" "out_err upo \<noteq> None"
    | "validateBundle stat files = None" "opt_compose_files opts \<noteq> []" "e1 = None" "out_err out = None" "out_err upo = None"
    by (cases "validateBundle stat files"; cases e1; cases "out_err out"; cases "out_err upo") auto
  then show thesis
  proof cases
    case (1 e)
    then show thesis using d by (intro invalid [of e]) auto
  next
    case 2
    then show thesis using d by (intro no_files) auto
  next
    case (3 e)
    then show thesis using d st by (intro staging [of e]) auto
  next
    case 4
    then show thesis using d st sw by (intro swap [of s1 out]) auto
  next
    case 5
    then show thesis using d st sw u by (intro up [of s1 out s2 upo]) auto
  next
    case 6
    then show thesis using d st sw u by (intro verify [of s1 out s2 upo s3]) auto
  qed
qed

text \<open>What a deployment did, by its log.\<close>

lemma deploy_log:
  assumes "deploy conn stat ex files opts s = ((res, err), s')"
  shows "\<exists>new. snd s' = snd s @ new
    \<and> (list_all (stagingCall ex files opts) new \<and> res = None \<and> err \<noteq> None
       \<or> (\<exists>b ok rest. new = stagedLog ex files opts b @ RunCall (liveSwap ex) ok # rest))
    \<and> (err = None \<longrightarrow>
         (\<exists>b b' r. new = stagedLog ex files opts b @
             [RunCall (liveSwap ex) True, RunCall (Cleanup (ex_remote_dir ex @ ''.old'')) b',
              RunCall (ComposeUp (ex_remote_dir ex) (opt_compose_files opts)) True,
              RunCall (ComposePs (ex_remote_dir ex) (opt_compose_files opts)) True]
           \<and> res = Some r \<and> (\<forall>svc\<in>set (dr_services r). equalFold (svc_state svc) ''running'')))"
proof -
  let ?old = "ex_remote_dir ex @ ''.old''"
  let ?up = "RunCall (ComposeUp (ex_remote_dir ex) (opt_compose_files opts))"
  have staged: "\<exists>b. snd s1 = snd s @ stagedLog ex files opts b" if "stage conn ex files opts s = (None, s1)" for s1
    using stage_log [OF that] by blast
  have cl: "\<exists>b. snd (cleanup conn ex ?old s2) = snd s2 @ [RunCall (Cleanup ?old) b]" for s2
    by (rule cleanup_log)
  from assms show ?thesis
  proof (cases rule: deploy_cases)
    case (staging e)
    then obtain n where "snd s' = snd s @ n" "list_all (stagingCall ex files opts) n" using stage_log by blast
    with staging show ?thesis by (intro exI [where x = n]) simp
  next
    case (swap s1 out)
    then obtain b where "snd s1 = snd s @ stagedLog ex files opts b" using staged by blast
    with swap runCmd_log [OF swap(2)] show ?thesis
      by (intro exI [where x = "stagedLog ex files opts b @ [RunCall (liveSwap ex) False]"]) auto
  next
    case (up s1 out s2 up)
    then obtain b where b: "snd s1 = snd s @ stagedLog ex files opts b" using staged by blast
    obtain b2 where "snd (cleanup conn ex ?old s2) = snd s2 @ [RunCall (Cleanup ?old) b2]" using cl by blast
    with b up runCmd_log [OF up(2)] runCmd_log [OF up(4)] show ?thesis
      by (intro exI [where x = "stagedLog ex files opts b @
            [RunCall (liveSwap ex) True, RunCall (Cleanup ?old) b2, ?up False]"]) auto
  next
    case (verify s1 out s2 up s3)
    then obtain bs where bs: "snd s1 = snd s @ stagedLog ex files opts bs" using staged by blast
    obtain b2 where b2: "snd (cleanup conn ex ?old s2) = snd s2 @ [RunCall (Cleanup ?old) b2]" using cl by blast
    note v = verifyRuntime_spec [OF verify(6)]
    obtain b where b: "snd s' = snd s3 @ [RunCall (ComposePs (ex_remote_dir ex) (opt_compose_files opts)) b]"
      "err = None \<longrightarrow> b" using v by blast
    let ?new = "stagedLog ex files opts bs @ RunCall (liveSwap ex) True # [RunCall (Cleanup ?old) b2,
          ?up True, RunCall (ComposePs (ex_remote_dir ex) (opt_compose_files opts)) b]"
    show ?thesis
    proof (intro exI [where x = ?new] conjI)
      show "snd s' = snd s @ ?new"
        using bs b2 b(1) verify runCmd_log [OF verify(2)] runCmd_log [OF verify(4)] by simp
      show "err = None \<longrightarrow> (\<exists>b'' b' r. ?new = stagedLog ex files opts b'' @
             [RunCall (liveSwap ex) True, RunCall (Cleanup ?old) b', ?up True,
              RunCall (ComposePs (ex_remote_dir ex) (opt_compose_files opts)) True]
           \<and> res = Some r \<and> (\<forall>svc\<in>set (dr_services r). equalFold (svc_state svc) ''running''))"
        using v b(2) by auto
    qed blast
  qed (rule exI [where x = "[]"], simp)+
qed

text \<open>What a call may create, change or remove on the host, by its command and arguments.\<close>

fun writes :: "remote_cmd \<Rightarrow> gostring list" where
  "writes (Cleanup dir) = [dir]"
| "writes (MkStaging dir) = [dir]"
| "writes (CopyPersist src dst dstDir) = [dst, dstDir]"
| "writes (Swap old live staging) = [old, live, staging]"
| "writes (ComposeConfig dir fs) = []"
| "writes (ComposeUp dir fs) = [dir]"
| "writes (ComposePs dir fs) = []"
| "writes (ComposeDown dir fs) = [dir]"

fun callWrites :: "remote_call \<Rightarrow> gostring list" where
  "callWrites (RunCall cmd ok) = writes cmd"
| "callWrites (UploadCall localPath remotePath ok) = [remotePath]"

definition confined :: "executor \<Rightarrow> remote_call \<Rightarrow> bool" where
  "confined ex c \<longleftrightarrow> (\<forall>p\<in>set (callWrites c). inside (stagingOf ex) p \<and> \<not> inside (ex_remote_dir ex) p)"

lemma stagingCall_confined:
  assumes "stagingCall ex files opts c" "tidyDir (ex_remote_dir ex)"
    and "\<forall>f\<in>set files. localName (bf_remote_name f)" "\<forall>n\<in>set (opt_persist_files opts). localName n"
  shows "confined ex c"
proof -
  have d: "tidyDir (stagingOf ex)" using assms(2) by (simp add: stagingOf_def tidyDir_suffix)
  have out: "inside (stagingOf ex) p \<Longrightarrow> \<not> inside (ex_remote_dir ex) p" for p
    unfolding stagingOf_def by (rule inside_staging)
  have self: "inside (stagingOf ex) (stagingOf ex)" by (simp add: inside_def)
  have "inside (stagingOf ex) p" if "p \<in> set (callWrites c)" for p
    using assms(1,3,4) that self tidyDir_join [OF d] localName_pathDir
    by (auto simp: stagingCall_def copyPersist_def)
  with out show ?thesis by (auto simp: confined_def)
qed

lemma stagedLog_stagingCalls: "list_all (stagingCall ex files opts) (stagedLog ex files opts b)"
  by (auto simp: stagedLog_def uploadLog_def persistLog_def stagingCall_def list_all_iff)

text \<open>A name with a parent segment does leave the staging directory: the executor does not refuse it.\<close>

lemma parent_name_leaves_staging:
  "\<not> localName ''../web/compose.yml'' \<and> pathJoin [''/srv/web.staging'', ''../web/compose.yml''] = ''/srv/web/compose.yml''"
  by code_simp

text \<open>
  C5. A deployment never touches the live directory before its new content is complete and accepted.
  For a directory in clean form and file names with no parent segment, its calls fall in two parts:
  every path the first ones create, change or remove lies in the staging directory and outside the
  live one; and there is a second part only if the first is the whole staging sequence, with the
  directory created, every bundle file uploaded, every persisted file carried over and
  \<open>docker compose config\<close> accepted there, all without error, and then it starts with the swap.
  Otherwise the deployment fails with no result. A deployment that reports success made exactly
  these calls, the swap, \<open>up\<close> and \<open>ps\<close>, all successful, and every service it lists is in state
  \<open>running\<close>. Bundle files are named by their place in a git tree, which has no parent segments, and the
  configuration check refuses them in persisted files.
\<close>

theorem deploy_guarded:
  assumes "deploy conn stat ex files opts s = ((res, err), s')"
    and "tidyDir (ex_remote_dir ex)"
    and "\<forall>f\<in>set files. localName (bf_remote_name f)" and "\<forall>n\<in>set (opt_persist_files opts). localName n"
  shows "\<exists>before after. snd s' = snd s @ before @ after
    \<and> list_all (confined ex) before
    \<and> (after = [] \<and> res = None \<and> err \<noteq> None
       \<or> (\<exists>b ok rest. before = stagedLog ex files opts b \<and> after = RunCall (liveSwap ex) ok # rest))
    \<and> (err = None \<longrightarrow>
         (\<exists>b b' r. before @ after = stagedLog ex files opts b @
             [RunCall (liveSwap ex) True, RunCall (Cleanup (ex_remote_dir ex @ ''.old'')) b',
              RunCall (ComposeUp (ex_remote_dir ex) (opt_compose_files opts)) True,
              RunCall (ComposePs (ex_remote_dir ex) (opt_compose_files opts)) True]
           \<and> res = Some r \<and> (\<forall>svc\<in>set (dr_services r). equalFold (svc_state svc) ''running'')))"
proof -
  have conf: "list_all (confined ex) calls" if "list_all (stagingCall ex files opts) calls" for calls
    using that stagingCall_confined [OF _ assms(2-4)] by (auto simp: list_all_iff)
  obtain new where new: "snd s' = snd s @ new"
    "list_all (stagingCall ex files opts) new \<and> res = None \<and> err \<noteq> None
     \<or> (\<exists>b ok rest. new = stagedLog ex files opts b @ RunCall (liveSwap ex) ok # rest)"
    "err = None \<longrightarrow>
         (\<exists>b b' r. new = stagedLog ex files opts b @
             [RunCall (liveSwap ex) True, RunCall (Cleanup (ex_remote_dir ex @ ''.old'')) b',
              RunCall (ComposeUp (ex_remote_dir ex) (opt_compose_files opts)) True,
              RunCall (ComposePs (ex_remote_dir ex) (opt_compose_files opts)) True]
           \<and> res = Some r \<and> (\<forall>svc\<in>set (dr_services r). equalFold (svc_state svc) ''running''))"
    using deploy_log [OF assms(1)] by blast
  from new(2) consider "list_all (stagingCall ex files opts) new" "res = None" "err \<noteq> None"
    | b ok rest where "new = stagedLog ex files opts b @ RunCall (liveSwap ex) ok # rest" by blast
  then show ?thesis
  proof cases
    case 1
    show ?thesis
      by (rule exI [where x = new], rule exI [where x = "[]"]) (use 1 new(1) conf in simp)
  next
    case (2 b ok rest)
    show ?thesis
      by (rule exI [where x = "stagedLog ex files opts b"], rule exI [where x = "RunCall (liveSwap ex) ok # rest"])
         (use 2 new(1,3) conf [OF stagedLog_stagingCalls] in auto)
  qed
qed

definition demoConn :: "unit connection" where
  "demoConn = \<lparr>conn_run = (\<lambda>cmd w. (\<lparr>out_stdout = [], out_stderr = [], out_err = None\<rparr>, w)),
      conn_upload = (\<lambda>l r w. (None, w)), conn_decode = (\<lambda>s. [])\<rparr>"

definition demoOpts :: deploy_options where
  "demoOpts = \<lparr>opt_compose_files = [''compose.yml''], opt_persist_files = [''.env'']\<rparr>"

lemma deploy_guarded_witness:
  "\<exists>before after. snd (snd (deploy demoConn (\<lambda>_. None) (newExecutor ''/srv/web'' ''web'')
        [\<lparr>bf_local_path = ''/tmp/c'', bf_remote_name = ''compose.yml''\<rparr>] demoOpts ((), []))) = before @ after
      \<and> list_all (confined (newExecutor ''/srv/web'' ''web'')) before
      \<and> (\<exists>ok. hd after = RunCall (liveSwap (newExecutor ''/srv/web'' ''web'')) ok)"
proof -
  let ?ex = "newExecutor ''/srv/web'' ''web''"
  let ?d = "deploy demoConn (\<lambda>_. None) ?ex
        [\<lparr>bf_local_path = ''/tmp/c'', bf_remote_name = ''compose.yml''\<rparr>] demoOpts ((), [])"
  obtain res err s' where d: "?d = ((res, err), s')" by (metis prod.exhaust)
  have segs: "''/srv/web'' = renderSegs True [''srv'', ''web'']" "\<forall>s\<in>set [''srv'', ''web'']. safeSeg s"
    by code_simp+
  then have dir: "tidyDir (ex_remote_dir ?ex)"
    unfolding tidyDir_def newExecutor_def by (intro exI [where x = True] exI [where x = "[''srv'', ''web'']"]) simp
  have names: "localName ''compose.yml''" "\<forall>n\<in>set (opt_persist_files demoOpts). localName n" by code_simp+
  have "snd (fst ?d) = None" by code_simp
  with d have ok: "err = None" by simp
  obtain before after where "snd s' = before @ after" "list_all (confined ?ex) before"
    "\<exists>ok rest. after = RunCall (liveSwap ?ex) ok # rest"
    using deploy_guarded [OF d dir _ names(2)] names(1) ok by auto
  moreover from this(3) have "\<exists>ok. hd after = RunCall (liveSwap ?ex) ok" by auto
  ultimately show ?thesis unfolding d snd_conv by blast
qed

end
