(* ===== verification/Mirror.thy ===== *)
theory Mirror
  imports Go_Path Go_Glob Atomic_File
begin

text \<open>
  Bare git mirrors on disk (\<open>internal/mirror\<close>). Running git, looking a path up and creating a
  directory are the operations of a host, a record of functions over a world; the theory models
  which commands are run with which arguments and how their output is read.
\<close>

section \<open>The host\<close>

record exec_result =
  xr_stdout :: gostring
  xr_stderr :: gostring
  xr_combined :: gostring
  xr_err :: goerror

datatype stat_result = StatOk | StatNotExist | StatError gostring

record 'w os =
  os_git :: "gostring \<Rightarrow> gostring list \<Rightarrow> gostring list \<Rightarrow> 'w \<Rightarrow> exec_result \<times> 'w"
  os_stat :: "gostring \<Rightarrow> 'w \<Rightarrow> stat_result"
  os_mkdir_all :: "gostring \<Rightarrow> 'w \<Rightarrow> goerror \<times> 'w"

record repo =
  repo_dir :: gostring
  repo_remote :: gostring
  repo_ssh_env :: "gostring list"

section \<open>Directory names\<close>

definition slugByte :: "char \<Rightarrow> bool" where
  "slugByte c \<longleftrightarrow> isDigit c \<or> ((65::nat) \<le> of_char c \<and> of_char c \<le> (90::nat))
     \<or> ((97::nat) \<le> of_char c \<and> of_char c \<le> (122::nat)) \<or> c = CHR ''.'' \<or> c = CHR ''-''"

text \<open>\<open>reSlug.ReplaceAllString\<close>: every rune outside the class becomes one underscore.\<close>

function slugReplace :: "gostring \<Rightarrow> gostring" where
  "slugReplace [] = []"
| "slugReplace (c # cs) =
     (if slugByte c then c # slugReplace cs
      else CHR ''_'' # slugReplace (snd (snd (decodeRune (c # cs)))))"
  by pat_completeness auto
termination
proof (relation "measure length", goal_cases)
  case (3 c cs)
  then show ?case using decodeRune_shorter [of "c # cs"] by simp
qed auto

definition slugFromURL :: "gostring \<Rightarrow> gostring" where
  "slugFromURL url =
     (let s1 = (case strCut ''://'' url of None \<Rightarrow> url | Some (a, b) \<Rightarrow> b);
          s2 = (case strCut ''@'' s1 of None \<Rightarrow> s1 | Some (a, b) \<Rightarrow> b);
          s3 = (case strCut '':'' s2 of
                  None \<Rightarrow> s2
                | Some (a, b) \<Rightarrow>
                    (case strCut ''/'' s2 of
                       None \<Rightarrow> a @ ''/'' @ b
                     | Some (d, e) \<Rightarrow> if length a < length d then a @ ''/'' @ b else s2))
      in slugReplace (trimSuffix s3 ''.git''))"

definition mirrorDir :: "gostring \<Rightarrow> gostring \<Rightarrow> gostring" where
  "mirrorDir dataPath url = pathJoin [dataPath, ''repos'', slugFromURL url]"

section \<open>Git commands\<close>

definition sshEnv :: "gostring \<Rightarrow> gostring \<Rightarrow> gostring \<Rightarrow> gostring list" where
  "sshEnv privateKeyFile knownHostsFile hostKeyPolicy =
     (if privateKeyFile = [] then []
      else [''GIT_SSH_COMMAND=ssh -i '' @ privateKeyFile @ '' -o StrictHostKeyChecking=''
            @ (if hostKeyPolicy = ''strict'' then ''yes'' else ''accept-new'')
            @ (if knownHostsFile \<noteq> [] then '' -o UserKnownHostsFile='' @ knownHostsFile else [])])"

definition newline :: gostring where "newline = [CHR 0x0A]"

definition errMessage :: "goerror \<Rightarrow> gostring" where
  "errMessage e = (case e of None \<Rightarrow> [] | Some m \<Rightarrow> m)"

text \<open>\<open>run\<close>: a command whose output only matters for the error.\<close>

definition runGit ::
  "'w os \<Rightarrow> gostring \<Rightarrow> gostring list \<Rightarrow> gostring list \<Rightarrow> 'w \<Rightarrow> goerror \<times> 'w" where
  "runGit os dir env args w =
     (case os_git os dir env args w of
        (r, w') \<Rightarrow> (case xr_err r of None \<Rightarrow> None | Some e \<Rightarrow> Some (e @ newline @ xr_combined r), w'))"

definition remoteSha ::
  "'w os \<Rightarrow> gostring \<Rightarrow> gostring \<Rightarrow> gostring list \<Rightarrow> 'w \<Rightarrow> (gostring + gostring) \<times> 'w" where
  "remoteSha os url branch env w =
     (let ref = ''refs/heads/'' @ branch in
      case os_git os [] env [''ls-remote'', url, ref] w of
        (r, w') \<Rightarrow>
          (case xr_err r of
             Some e \<Rightarrow> Inl (''git ls-remote '' @ url @ '' '' @ ref @ '': '' @ e @ newline @ xr_stderr r)
           | None \<Rightarrow>
               (let line = trimSpace (xr_stdout r) in
                if line = [] then Inr []
                else (case fieldsFunc isSpace line of
                        [] \<Rightarrow> Inl ''unexpected git ls-remote output''
                      | p # ps \<Rightarrow> if length p < 40 then Inl ''unexpected git ls-remote output'' else Inr p)), w'))"

definition openRepo ::
  "'w os \<Rightarrow> gostring \<Rightarrow> gostring \<Rightarrow> gostring list \<Rightarrow> 'w \<Rightarrow> (gostring + repo) \<times> 'w" where
  "openRepo os url dataPath env w =
     (let dir = mirrorDir dataPath url;
          opened = Inr \<lparr>repo_dir = dir, repo_remote = url, repo_ssh_env = env\<rparr> in
      if os_stat os (pathJoin [dir, ''HEAD'']) w = StatNotExist then
        (case os_mkdir_all os (pathDir dir) w of
           (Some e, w1) \<Rightarrow> (Inl (''create repo dir: '' @ e), w1)
         | (None, w1) \<Rightarrow>
             (case runGit os [] env [''clone'', ''--mirror'', url, dir] w1 of
                (Some e, w2) \<Rightarrow> (Inl (''git clone '' @ url @ '': '' @ e), w2)
              | (None, w2) \<Rightarrow> (opened, w2)))
      else (opened, w))"

definition findRepo ::
  "'w os \<Rightarrow> gostring \<Rightarrow> gostring \<Rightarrow> gostring list \<Rightarrow> 'w \<Rightarrow> gostring + repo option" where
  "findRepo os url dataPath env w =
     (let dir = mirrorDir dataPath url in
      case os_stat os (pathJoin [dir, ''HEAD'']) w of
        StatNotExist \<Rightarrow> Inr None
      | StatError e \<Rightarrow> Inl (''stat repo dir: '' @ e)
      | StatOk \<Rightarrow> Inr (Some \<lparr>repo_dir = dir, repo_remote = url, repo_ssh_env = env\<rparr>))"

definition gitEnv :: "repo \<Rightarrow> gostring list" where
  "gitEnv r = (''GIT_DIR='' @ repo_dir r) # repo_ssh_env r"

definition gitIn :: "'w os \<Rightarrow> repo \<Rightarrow> gostring list \<Rightarrow> 'w \<Rightarrow> exec_result \<times> 'w" where
  "gitIn os r args w = os_git os (repo_dir r) (gitEnv r) args w"

definition localHead :: "'w os \<Rightarrow> repo \<Rightarrow> gostring \<Rightarrow> 'w \<Rightarrow> (gostring + gostring) \<times> 'w" where
  "localHead os r branch w =
     (case gitIn os r [''rev-parse'', ''refs/heads/'' @ branch] w of
        (x, w') \<Rightarrow>
          (case xr_err x of
             Some e \<Rightarrow> Inl (''git rev-parse refs/heads/'' @ branch @ '': '' @ e)
           | None \<Rightarrow> Inr (trimSpace (xr_stdout x)), w'))"

definition hasCommit :: "'w os \<Rightarrow> repo \<Rightarrow> gostring \<Rightarrow> 'w \<Rightarrow> bool \<times> 'w" where
  "hasCommit os r sha w = (case gitIn os r [''cat-file'', ''-t'', sha] w of (x, w') \<Rightarrow> (xr_err x = None, w'))"

definition ensureCommit :: "'w os \<Rightarrow> repo \<Rightarrow> gostring \<Rightarrow> 'w \<Rightarrow> goerror \<times> 'w" where
  "ensureCommit os r sha w =
     (case hasCommit os r sha w of
        (True, w1) \<Rightarrow> (None, w1)
      | (False, w1) \<Rightarrow>
          (case runGit os (repo_dir r) (gitEnv r) [''fetch'', ''--prune'', ''--force'', ''origin''] w1 of
             (err, w2) \<Rightarrow>
               (case hasCommit os r sha w2 of
                  (True, w3) \<Rightarrow> (None, w3)
                | (False, w3) \<Rightarrow>
                    (case err of
                       Some e \<Rightarrow> (Some (''git fetch '' @ repo_remote r @ '': '' @ e), w3)
                     | None \<Rightarrow> (Some (''commit '' @ sha @ '' not found in '' @ repo_remote r @ '' after fetch''), w3)))))"

text \<open>The non-empty lines of an output.\<close>

definition outputLines :: "gostring \<Rightarrow> gostring list" where
  "outputLines out = filter (\<lambda>l. l \<noteq> []) (splitOn (CHR 0x0A) (trimSpace out))"

definition listFiles ::
  "'w os \<Rightarrow> repo \<Rightarrow> gostring \<Rightarrow> gostring \<Rightarrow> 'w \<Rightarrow> (gostring + gostring list) \<times> 'w" where
  "listFiles os r sha path w =
     (case gitIn os r [''ls-tree'', ''-r'', ''--name-only'', sha, ''--'', path] w of
        (x, w') \<Rightarrow>
          (case xr_err x of
             Some e \<Rightarrow> Inl (''git ls-tree '' @ shortSha sha @ '' '' @ path @ '': '' @ e @ newline @ xr_stderr x)
           | None \<Rightarrow> Inr (outputLines (xr_stdout x)), w'))"

definition readFileAt ::
  "'w os \<Rightarrow> repo \<Rightarrow> gostring \<Rightarrow> gostring \<Rightarrow> 'w \<Rightarrow> (gostring + gostring) \<times> 'w" where
  "readFileAt os r sha filePath w =
     (let ref = sha @ '':'' @ filePath in
      case gitIn os r [''show'', ref] w of
        (x, w') \<Rightarrow>
          (case xr_err x of
             Some e \<Rightarrow> Inl (''git show '' @ ref @ '': '' @ e @ newline @ xr_stderr x)
           | None \<Rightarrow> Inr (xr_stdout x), w'))"

definition isAncestor :: "'w os \<Rightarrow> repo \<Rightarrow> gostring \<Rightarrow> gostring \<Rightarrow> 'w \<Rightarrow> bool \<times> 'w" where
  "isAncestor os r ancestor descendant w =
     (case gitIn os r [''merge-base'', ''--is-ancestor'', ancestor, descendant] w of
        (x, w') \<Rightarrow> (xr_err x = None, w'))"

definition diffFiles ::
  "'w os \<Rightarrow> repo \<Rightarrow> gostring \<Rightarrow> gostring \<Rightarrow> 'w \<Rightarrow> (gostring + gostring list) \<times> 'w" where
  "diffFiles os r oldSha newSha w =
     (case gitIn os r [''diff'', ''--name-only'', oldSha, newSha] w of
        (x, w') \<Rightarrow>
          (case xr_err x of
             Some e \<Rightarrow> Inl (''git diff --name-only '' @ take 8 oldSha @ '' '' @ take 8 newSha @ '': '' @ e
                           @ newline @ xr_stderr x)
           | None \<Rightarrow> Inr (outputLines (xr_stdout x)), w'))"

section \<open>Laws\<close>

lemma ensureCommit_present:
  "ensureCommit os r sha w = (None, w') \<Longrightarrow> \<exists>v. hasCommit os r sha v = (True, w')"
  by (auto simp: ensureCommit_def split: prod.splits bool.splits option.splits)

lemma slugReplace_bytes: "list_all (\<lambda>c. slugByte c \<or> c = CHR ''_'') (slugReplace s)"
  by (induction s rule: slugReplace.induct) auto

lemma strCut_first: "c \<notin> set a \<Longrightarrow> strCut (c # sep) (a @ c # sep @ b) = Some (a, b)"
  by (induction a) (auto simp: hasPrefix_iff)

lemma filter_none: "c \<notin> set s \<Longrightarrow> filter (\<lambda>d. d = c) s = []"
  by (auto simp: filter_empty_conv)

lemma one_colon:
  assumes "CHR '':'' \<notin> set x" "CHR '':'' \<notin> set y" "x @ '':'' @ y = a @ '':'' @ b"
  shows "a = x \<and> b = y"
proof -
  have "filter (\<lambda>d. d = CHR '':'') (x @ '':'' @ y) = filter (\<lambda>d. d = CHR '':'') (a @ '':'' @ b)"
    using assms(3) by (rule arg_cong)
  then have "filter (\<lambda>d. d = CHR '':'') a = []"
    using filter_none [OF assms(1)] filter_none [OF assms(2)]
    by (cases "filter (\<lambda>d. d = CHR '':'') a") auto
  then have "CHR '':'' \<notin> set a" by (auto simp: filter_empty_conv)
  then have "strCut '':'' (a @ '':'' @ b) = Some (a, b)" by (simp add: strCut_char)
  moreover have "strCut '':'' (x @ '':'' @ y) = Some (x, y)" using assms(1) by (simp add: strCut_char)
  ultimately show ?thesis using assms(3) by simp
qed

lemma slug_ssh_form:
  assumes u: "CHR '':'' \<notin> set u" "CHR ''@'' \<notin> set u"
    and h: "CHR '':'' \<notin> set h" "slash \<notin> set h"
    and p: "CHR '':'' \<notin> set p" "\<not> hasPrefix p ''//''"
  shows "slugFromURL (u @ ''@'' @ h @ '':'' @ p @ ''.git'') = slugReplace (h @ ''/'' @ p)"
proof -
  let ?s = "u @ ''@'' @ h @ '':'' @ p @ ''.git''" and ?t = "h @ '':'' @ p @ ''.git''"
  have scheme: "strCut ''://'' ?s = None"
    unfolding strCut_None_iff
  proof (intro allI notI)
    fix a b assume eq: "?s = a @ ''://'' @ b"
    have "(u @ ''@'' @ h) @ '':'' @ (p @ ''.git'') = a @ '':'' @ (''//'' @ b)" using eq by simp
    then have "p @ ''.git'' = ''//'' @ b"
      using one_colon [of "u @ ''@'' @ h" "p @ ''.git''" a "''//'' @ b"] u h p by simp
    then show False using p(2) by (cases p; cases "tl p") (auto simp: hasPrefix_iff)
  qed
  have at: "strCut ''@'' ?s = Some (u, ?t)" using strCut_char [OF u(2), of ?t] by simp
  have colon: "strCut '':'' ?t = Some (h, p @ ''.git'')" using strCut_char [OF h(1), of "p @ ''.git''"] by simp
  have sl: "length h < length d" if "strCut ''/'' ?t = Some (d, e)" for d e
  proof (rule ccontr)
    assume le: "\<not> length h < length d"
    have eq: "?t = d @ ''/'' @ e" using strCut_Some_append [OF that] .
    have "(d @ ''/'' @ e) ! length d = slash" by simp
    then have "?t ! length d = slash" by (simp only: eq)
    then have "slash \<in> set h" using le by (auto simp: nth_append nth_Cons' dest: nth_mem split: if_splits)
    then show False using h(2) by simp
  qed
  have "slugFromURL ?s = slugReplace (trimSuffix (h @ ''/'' @ p @ ''.git'') ''.git'')"
    using scheme at colon sl by (auto simp: slugFromURL_def Let_def split: option.split)
  also have "trimSuffix (h @ ''/'' @ p @ ''.git'') ''.git'' = h @ ''/'' @ p"
    using trimSuffix_append [of "h @ ''/'' @ p" "''.git''"] by simp
  finally show ?thesis .
qed

lemma slug_url_form:
  assumes "CHR '':'' \<notin> set scheme" "CHR '':'' \<notin> set t" "CHR ''@'' \<notin> set t" "\<not> hasSuffix t ''.git''"
  shows "slugFromURL (scheme @ ''://'' @ t) = slugReplace t"
proof -
  have a: "strCut ''://'' (scheme @ ''://'' @ t) = Some (scheme, t)"
    using strCut_first [OF assms(1), of "''//''" t] by simp
  have b: "strCut ''@'' t = None" "strCut '':'' t = None"
    using assms by (simp_all add: strCut_char_none)
  show ?thesis unfolding slugFromURL_def Let_def a option.case prod.case b
    by (simp add: trimSuffix_no assms(4))
qed

text \<open>
  A mirror's directory is one path component made of letters, digits, dots, dashes and underscores,
  whatever the URL contains, and the two usual spellings of one repository share a mirror: the SSH
  form \<open>user@host:path.git\<close> and the URL form \<open>scheme://host/path\<close> have the same directory name.
\<close>

theorem slugFromURL_forms:
  "list_all (\<lambda>c. slugByte c \<or> c = CHR ''_'') (slugFromURL url) \<and> slash \<notin> set (slugFromURL url)
   \<and> (set u \<inter> set '':@'' = {} \<and> set h \<inter> set '':@/'' = {} \<and> set p \<inter> set '':@'' = {} \<and> CHR '':'' \<notin> set scheme
      \<and> \<not> hasPrefix p ''//'' \<and> \<not> hasSuffix (h @ ''/'' @ p) ''.git'' \<longrightarrow>
      slugFromURL (u @ ''@'' @ h @ '':'' @ p @ ''.git'') = slugFromURL (scheme @ ''://'' @ h @ ''/'' @ p))"
proof (intro conjI impI)
  show l: "list_all (\<lambda>c. slugByte c \<or> c = CHR ''_'') (slugFromURL url)"
    by (simp add: slugFromURL_def Let_def slugReplace_bytes)
  have "\<not> slugByte slash" by (simp add: slugByte_def isDigit_def)
  with l show "slash \<notin> set (slugFromURL url)" by (auto simp: list_all_iff)
next
  assume a: "set u \<inter> set '':@'' = {} \<and> set h \<inter> set '':@/'' = {} \<and> set p \<inter> set '':@'' = {} \<and> CHR '':'' \<notin> set scheme
      \<and> \<not> hasPrefix p ''//'' \<and> \<not> hasSuffix (h @ ''/'' @ p) ''.git''"
  have "slugFromURL (u @ ''@'' @ h @ '':'' @ p @ ''.git'') = slugReplace (h @ ''/'' @ p)"
    using a by (intro slug_ssh_form) auto
  moreover have "slugFromURL (scheme @ ''://'' @ h @ ''/'' @ p) = slugReplace (h @ ''/'' @ p)"
    using a by (intro slug_url_form) auto
  ultimately show "slugFromURL (u @ ''@'' @ h @ '':'' @ p @ ''.git'') = slugFromURL (scheme @ ''://'' @ h @ ''/'' @ p)"
    by simp
qed

lemma slugFromURL_forms_witness:
  "slugFromURL ''git@github.com:acme/shop.git'' = slugFromURL ''https://github.com/acme/shop''"
  using slugFromURL_forms [of "[]" "''git''" "''github.com''" "''acme/shop''" "''https''"]
  by (simp add: hasSuffix_def)

text \<open>The name is not injective, and a mirror that exists is used whatever its origin is.\<close>

lemma slugReplace_ascii:
  "list_all (\<lambda>c. byteVal c < 128) s \<Longrightarrow> slugReplace s = map (\<lambda>c. if slugByte c then c else CHR ''_'') s"
  by (induction s) (simp_all add: decodeRune_def)

lemma slugFromURL_collision:
  "slugFromURL ''https://github.com/a/b_c'' = slugFromURL ''https://github.com/a_b/c''"
proof -
  have a: "list_all (\<lambda>c. byteVal c < 128) ''github.com/a/b_c''" "list_all (\<lambda>c. byteVal c < 128) ''github.com/a_b/c''"
    by (simp_all add: byteVal_def)
  have "slugFromURL ''https://github.com/a/b_c'' = slugReplace ''github.com/a/b_c''"
    "slugFromURL ''https://github.com/a_b/c'' = slugReplace ''github.com/a_b/c''"
    using slug_url_form [of "''https''" "''github.com/a/b_c''"] slug_url_form [of "''https''" "''github.com/a_b/c''"]
    by (simp_all add: hasSuffix_def)
  then show ?thesis by (simp only: slugReplace_ascii [OF a(1)] slugReplace_ascii [OF a(2)]) (simp add: slugByte_def isDigit_def)
qed

lemma openRepo_existing:
  "os_stat os (pathJoin [mirrorDir dp url, ''HEAD'']) w \<noteq> StatNotExist \<Longrightarrow>
   openRepo os url dp env w = (Inr \<lparr>repo_dir = mirrorDir dp url, repo_remote = url, repo_ssh_env = env\<rparr>, w)"
  by (simp add: openRepo_def Let_def)

text \<open>Reading a listing back.\<close>

lemma splitOn_lines:
  "\<lbrakk>\<forall>f\<in>set fs. CHR 0x0A \<notin> set f; fs \<noteq> []\<rbrakk> \<Longrightarrow> splitOn (CHR 0x0A) (strJoin [CHR 0x0A] fs) = fs"
  by (simp add: splitOn_strJoin)

lemma outputLines_join:
  assumes fs: "\<forall>f\<in>set fs. f \<noteq> [] \<and> CHR 0x0A \<notin> set f \<and> \<not> isSpace (hd f) \<and> \<not> isSpace (last f)" and ne: "fs \<noteq> []"
  shows "outputLines (strJoin newline fs @ newline) = fs"
proof -
  let ?s = "strJoin newline fs"
  have s: "?s \<noteq> []" "hd ?s = hd (hd fs)" "last ?s = last (last fs)"
  proof -
    obtain f gs where f: "fs = f # gs" using ne by (cases fs) auto
    show "?s \<noteq> []" "hd ?s = hd (hd fs)" using fs f by (cases gs; auto simp: newline_def)+
    have "\<forall>f\<in>set fs. f \<noteq> []" using fs by blast
    with ne have "?s \<noteq> [] \<and> last ?s = last (last fs)"
    proof (induction fs rule: list_nonempty_induct)
      case (cons x xs)
      then show ?case by (simp add: strJoin_Cons newline_def)
    qed simp
    then show "last ?s = last (last fs)" ..
  qed
  have hs: "\<not> isSpace (hd ?s)" using s fs ne by simp
  have d: "dropWhile isSpace (?s @ x) = ?s @ x" for x
    using s(1) hs by (cases ?s) simp_all
  have "isSpace (CHR 0x0A)" by (simp add: isSpace_def)
  then have "trimSpace (?s @ newline) = trimSpace ?s"
    unfolding trimSpace_def trimFunc_def d using d [of "[]"] by (simp add: newline_def)
  also have "\<dots> = ?s"
    unfolding trimSpace_def using s fs ne by (intro trimFunc_id) auto
  finally have "outputLines (?s @ newline) = filter (\<lambda>l. l \<noteq> []) (splitOn (CHR 0x0A) ?s)"
    by (simp add: outputLines_def)
  then show ?thesis
    using fs ne by (simp add: newline_def splitOn_lines filter_id_conv)
qed

end
