(* ===== verification/Bootstrap.thy ===== *)
theory Bootstrap
  imports Config_Validate Mirror
begin

text \<open>
  The daemon's own settings and the life cycle of the deploy configuration (\<open>internal/bootstrap\<close>):
  the environment variables, their validation, environment files, the applied configuration, and
  the loader with its last-known-good cache.
\<close>

section \<open>Settings\<close>

datatype source = SourceLocal | SourceGit

record env_config =
  env_source :: source
  env_config_file :: gostring
  env_config_watch :: bool
  env_config_repo_url :: gostring
  env_config_repo_branch :: gostring
  env_config_repo_file :: gostring
  env_config_repo_mode :: gostring
  env_config_repo_interval :: gotime
  env_data_path :: gostring
  env_ssh_private_key_file :: gostring
  env_ssh_user :: gostring
  env_ssh_port :: int
  env_ssh_known_hosts :: gostring
  env_ssh_host_key_policy :: gostring
  env_http_port :: int
  env_public_url :: gostring
  env_unix_socket :: gostring
  env_admin_group :: gostring
  env_log_server :: bool
  env_log_server_port :: int
  env_max_workers :: int
  env_max_host_concurrency :: int
  env_deploy_timeout :: gotime
  env_shutdown_grace :: gotime
  env_log_level :: gostring
  env_log_format :: gostring
  env_log_color :: bool
  env_log_retention_days :: int
  env_github_webhook_secret_file :: gostring
  env_github_token_file :: gostring
  env_github_environment :: gostring
  env_github_environment_host :: bool

definition logServerListenPort :: "env_config \<Rightarrow> int" where
  "logServerListenPort env = (if env_log_server_port env > 0 then env_log_server_port env else env_http_port env)"

definition defaultUnixSocket :: gostring where "defaultUnixSocket = ''/run/deeplo/deeplo.sock''"

definition defaultHTTPPort :: int where "defaultHTTPPort = 8470"

definition unixSocketPath :: "(gostring \<Rightarrow> gostring) \<Rightarrow> gostring" where
  "unixSocketPath getenv =
     (if getenv ''DEEPLO_UNIX_SOCKET'' \<noteq> [] then getenv ''DEEPLO_UNIX_SOCKET'' else defaultUnixSocket)"

definition envString :: "(gostring \<Rightarrow> gostring) \<Rightarrow> gostring \<Rightarrow> gostring \<Rightarrow> gostring" where
  "envString getenv key def = (if getenv key \<noteq> [] then getenv key else def)"

definition envBool :: "(gostring \<Rightarrow> gostring) \<Rightarrow> gostring \<Rightarrow> bool" where
  "envBool getenv key = (case parseBool (getenv key) of None \<Rightarrow> False | Some b \<Rightarrow> b)"

definition envParsed ::
  "(gostring \<Rightarrow> 'a option) \<Rightarrow> (gostring \<Rightarrow> gostring) \<Rightarrow> gostring \<Rightarrow> 'a \<Rightarrow> 'a" where
  "envParsed parse getenv key def =
     (if getenv key = [] then def else case parse (getenv key) of None \<Rightarrow> def | Some v \<Rightarrow> v)"

text \<open>The parser of durations is an argument.\<close>

definition loadEnvFrom :: "(gostring \<Rightarrow> gotime option) \<Rightarrow> (gostring \<Rightarrow> gostring) \<Rightarrow> env_config" where
  "loadEnvFrom parseDuration getenv =
     (let dataPath = envString getenv ''DEEPLO_DATA_DIR'' [];
          configRepoURL = envString getenv ''DEEPLO_CONFIG_REPO_URL'' [];
          knownHosts = envString getenv ''DEEPLO_SSH_KNOWN_HOSTS'' []
      in \<lparr>env_source = (if configRepoURL \<noteq> [] then SourceGit else SourceLocal),
          env_config_file = envString getenv ''DEEPLO_CONFIG_FILE'' ''/etc/deeplo/config.yml'',
          env_config_watch = envBool getenv ''DEEPLO_CONFIG_WATCH'',
          env_config_repo_url = configRepoURL,
          env_config_repo_branch = envString getenv ''DEEPLO_CONFIG_REPO_BRANCH'' ''main'',
          env_config_repo_file = envString getenv ''DEEPLO_CONFIG_REPO_FILE'' ''config.yml'',
          env_config_repo_mode = envString getenv ''DEEPLO_CONFIG_REPO_MODE'' ''poll'',
          env_config_repo_interval = envParsed parseDuration getenv ''DEEPLO_CONFIG_REPO_INTERVAL'' (60 * second),
          env_data_path = dataPath,
          env_ssh_private_key_file = envString getenv ''DEEPLO_SSH_PRIVATE_KEY_FILE'' [],
          env_ssh_user = envString getenv ''DEEPLO_SSH_USER'' ''deploy'',
          env_ssh_port = envParsed atoi getenv ''DEEPLO_SSH_PORT'' 22,
          env_ssh_known_hosts =
            (if knownHosts = [] \<and> dataPath \<noteq> [] then pathJoin [dataPath, ''known_hosts''] else knownHosts),
          env_ssh_host_key_policy = envString getenv ''DEEPLO_SSH_HOST_KEY_POLICY'' ''accept-new'',
          env_http_port = envParsed atoi getenv ''DEEPLO_HTTP_PORT'' defaultHTTPPort,
          env_public_url = envString getenv ''DEEPLO_PUBLIC_URL'' [],
          env_unix_socket = envString getenv ''DEEPLO_UNIX_SOCKET'' defaultUnixSocket,
          env_admin_group = envString getenv ''DEEPLO_ADMIN_GROUP'' [],
          env_log_server = envBool getenv ''DEEPLO_LOG_SERVER'',
          env_log_server_port = envParsed atoi getenv ''DEEPLO_LOG_SERVER_PORT'' defaultHTTPPort,
          env_max_workers = envParsed atoi getenv ''DEEPLO_MAX_WORKERS'' 0,
          env_max_host_concurrency = envParsed atoi getenv ''DEEPLO_MAX_HOST_CONCURRENCY'' 1,
          env_deploy_timeout = envParsed parseDuration getenv ''DEEPLO_DEPLOY_TIMEOUT'' 0,
          env_shutdown_grace = envParsed parseDuration getenv ''DEEPLO_SHUTDOWN_GRACE'' (30 * second),
          env_log_level = envString getenv ''DEEPLO_LOG_LEVEL'' ''info'',
          env_log_format = envString getenv ''DEEPLO_LOG_FORMAT'' ''pretty'',
          env_log_color = envParsed parseBool getenv ''DEEPLO_LOG_COLOR'' True,
          env_log_retention_days = envParsed atoi getenv ''DEEPLO_LOG_RETENTION_DAYS'' 14,
          env_github_webhook_secret_file = envString getenv ''DEEPLO_GITHUB_WEBHOOK_SECRET_FILE'' [],
          env_github_token_file = envString getenv ''DEEPLO_GITHUB_TOKEN_FILE'' [],
          env_github_environment = envString getenv ''DEEPLO_GITHUB_ENVIRONMENT'' [],
          env_github_environment_host = envBool getenv ''DEEPLO_GITHUB_ENVIRONMENT_HOST''\<rparr>)"

definition badPort :: "int \<Rightarrow> bool" where
  "badPort p \<longleftrightarrow> p \<noteq> 0 \<and> (p < 1 \<or> p > 65535)"

text \<open>\<open>Validate\<close>: the fields with an error, in the code's order.\<close>

definition fieldIf :: "bool \<Rightarrow> gostring \<Rightarrow> gostring list" where
  "fieldIf b field = (if b then [field] else [])"

definition validateEnv :: "env_config \<Rightarrow> gostring list" where
  "validateEnv env =
     fieldIf (env_data_path env = []) ''DEEPLO_DATA_DIR''
     @ fieldIf (env_ssh_private_key_file env = []) ''DEEPLO_SSH_PRIVATE_KEY_FILE''
     @ fieldIf (env_ssh_port env < 1 \<or> env_ssh_port env > 65535) ''DEEPLO_SSH_PORT''
     @ fieldIf (badPort (env_http_port env)) ''DEEPLO_HTTP_PORT''
     @ fieldIf (badPort (env_log_server_port env)) ''DEEPLO_LOG_SERVER_PORT''
     @ fieldIf (env_unix_socket env \<noteq> [] \<and> \<not> hasSuffix (env_unix_socket env) ''.sock'') ''DEEPLO_UNIX_SOCKET''
     @ fieldIf (env_ssh_host_key_policy env \<notin> {''strict'', ''accept-new''}) ''DEEPLO_SSH_HOST_KEY_POLICY''
     @ fieldIf (env_ssh_host_key_policy env = ''strict'' \<and> env_ssh_known_hosts env = []) ''DEEPLO_SSH_KNOWN_HOSTS''
     @ (if env_source env = SourceGit then
          fieldIf (env_config_repo_url env = []) ''DEEPLO_CONFIG_REPO_URL''
          @ (if env_config_repo_mode env \<in> {[], ''poll''} then []
             else if env_config_repo_mode env \<in> {''webhook'', ''hybrid''}
             then fieldIf (env_github_webhook_secret_file env = []) ''DEEPLO_GITHUB_WEBHOOK_SECRET_FILE''
             else [''DEEPLO_CONFIG_REPO_MODE''])
        else [])"

section \<open>Environment files\<close>

definition unquoteValue :: "gostring \<Rightarrow> gostring" where
  "unquoteValue v =
     (if length v \<ge> 2 \<and> (hd v = CHR 0x22 \<and> last v = CHR 0x22 \<or> hd v = CHR 0x27 \<and> last v = CHR 0x27)
      then butlast (tl v) else v)"

definition parseEnvLine :: "gostring \<Rightarrow> (gostring \<times> gostring) option" where
  "parseEnvLine raw =
     (let line = trimSpace raw in
      if line = [] \<or> hasPrefix line ''#'' then None
      else (case strCut ''='' (trimPrefix line ''export '') of
              None \<Rightarrow> None
            | Some (k, v) \<Rightarrow> Some (trimSpace k, unquoteValue (trimSpace v))))"

definition parseEnvFile :: "gostring option \<Rightarrow> (gostring \<rightharpoonup> gostring) option" where
  "parseEnvFile content =
     (case content of
        None \<Rightarrow> None
      | Some text \<Rightarrow>
          Some (foldl (\<lambda>m raw. case parseEnvLine raw of None \<Rightarrow> m | Some (k, v) \<Rightarrow> m(k \<mapsto> v))
                  Map.empty (splitOn (CHR 0x0A) text)))"

section \<open>The applied configuration\<close>

text \<open>
  A file that holds a JSON document: missing, unreadable, not decodable, or a value. The
  configuration's JSON form keeps every field, \<open>nil\<close> slices included.
\<close>

datatype 'c file_state = FileMissing | FileUnreadable | FileMalformed | FileHolds 'c

definition saveAppliedConfig ::
  "bool \<Rightarrow> bool \<Rightarrow> config \<Rightarrow> config file_state \<Rightarrow> goerror \<times> config file_state" where
  "saveAppliedConfig mkdirOk writeOk c file =
     (if \<not> mkdirOk then (Some ''create state dir'', file)
      else if \<not> writeOk then (Some ''write'', file)
      else (None, FileHolds c))"

definition loadAppliedConfig :: "config file_state \<Rightarrow> gostring + config option" where
  "loadAppliedConfig file =
     (case file of
        FileMissing \<Rightarrow> Inr None
      | FileUnreadable \<Rightarrow> Inl ''read applied config''
      | FileMalformed \<Rightarrow> Inl ''parse applied config''
      | FileHolds c \<Rightarrow> Inr (Some (applyDefaults c)))"

section \<open>Loading the deploy configuration\<close>

record config_result =
  cr_config :: config
  cr_from_cache :: bool
  cr_commit_sha :: gostring
  cr_source_url :: gostring

record config_metadata =
  md_branch :: gostring
  md_fetched_at :: gotime
  md_commit_sha :: gostring
  md_source_url :: gostring

text \<open>
  What the loader works with: the host that runs git, the parser of the configuration, and on the
  state side the world of git and the files of the cache. A write of the cache may fail.
\<close>

record 'w loader =
  ld_os :: "'w os"
  ld_parse :: "gostring \<Rightarrow> parse_error + config"
  ld_now :: gotime

record 'w cache_state =
  ca_world :: 'w
  ca_yaml :: "gostring file_state"
  ca_metadata :: "config_metadata file_state"
  ca_yaml_write_ok :: bool
  ca_metadata_write_ok :: bool

datatype load_error =
    UnknownSource | ReadConfig | ParseConfig parse_error | CacheDir gostring
  | NoCache | CacheUnreadable | CacheUnparseable parse_error | CacheInvalid validation_issue

definition loadLocalConfig ::
  "(gostring \<Rightarrow> parse_error + config) \<Rightarrow> gostring file_state \<Rightarrow> load_error + config_result" where
  "loadLocalConfig parse file =
     (case file of
        FileHolds data \<Rightarrow>
          (case parse data of
             Inl e \<Rightarrow> Inl (ParseConfig e)
           | Inr c \<Rightarrow> Inr \<lparr>cr_config = c, cr_from_cache = False, cr_commit_sha = [], cr_source_url = []\<rparr>)
      | _ \<Rightarrow> Inl ReadConfig)"

definition parseAndValidate ::
  "(gostring \<Rightarrow> parse_error + config) \<Rightarrow> gostring \<Rightarrow> load_error + config" where
  "parseAndValidate parse data =
     (case parse data of
        Inl e \<Rightarrow> Inl (ParseConfig e)
      | Inr c \<Rightarrow> (case validate c of [] \<Rightarrow> Inr c | i # is \<Rightarrow> Inl (CacheInvalid i)))"

definition readCachedConfig ::
  "(gostring \<Rightarrow> parse_error + config) \<Rightarrow> env_config \<Rightarrow> 'w cache_state \<Rightarrow> load_error + config_result" where
  "readCachedConfig parse env st =
     (case ca_yaml st of
        FileMissing \<Rightarrow> Inl NoCache
      | FileHolds data \<Rightarrow>
          (case parse data of
             Inl e \<Rightarrow> Inl (CacheUnparseable e)
           | Inr c \<Rightarrow>
               (case validate c of
                  i # is \<Rightarrow> Inl (CacheInvalid i)
                | [] \<Rightarrow> Inr \<lparr>cr_config = c, cr_from_cache = True,
                          cr_commit_sha = (case ca_metadata st of FileHolds md \<Rightarrow> md_commit_sha md | _ \<Rightarrow> []),
                          cr_source_url = env_config_repo_url env\<rparr>))
      | _ \<Rightarrow> Inl CacheUnreadable)"

definition writeCachedConfig ::
  "gostring \<Rightarrow> env_config \<Rightarrow> gostring \<Rightarrow> gotime \<Rightarrow> 'w cache_state \<Rightarrow> goerror \<times> 'w cache_state" where
  "writeCachedConfig data env sha now st =
     (if \<not> ca_yaml_write_ok st then (Some ''write config cache'', st)
      else let st1 = st\<lparr>ca_yaml := FileHolds data\<rparr> in
        if \<not> ca_metadata_write_ok st then (Some ''write config metadata'', st1)
        else (None, st1\<lparr>ca_metadata := FileHolds
                \<lparr>md_branch = env_config_repo_branch env, md_fetched_at = now, md_commit_sha = sha,
                 md_source_url = env_config_repo_url env\<rparr>\<rparr>))"

definition fetchConfigFromGit ::
  "'w os \<Rightarrow> env_config \<Rightarrow> gostring \<Rightarrow> gostring list \<Rightarrow> 'w \<Rightarrow> (gostring + gostring \<times> gostring) \<times> 'w" where
  "fetchConfigFromGit os env cachedConfigDir senv w =
     (case remoteSha os (env_config_repo_url env) (env_config_repo_branch env) senv w of
        (Inl e, w1) \<Rightarrow> (Inl e, w1)
      | (Inr sha, w1) \<Rightarrow>
          (case openRepo os (env_config_repo_url env) cachedConfigDir senv w1 of
             (Inl e, w2) \<Rightarrow> (Inl e, w2)
           | (Inr r, w2) \<Rightarrow>
               (case ensureCommit os r sha w2 of
                  (Some e, w3) \<Rightarrow> (Inl e, w3)
                | (None, w3) \<Rightarrow>
                    (case readFileAt os r sha (env_config_repo_file env) w3 of
                       (Inl e, w4) \<Rightarrow> (Inl e, w4)
                     | (Inr data, w4) \<Rightarrow> (Inr (data, sha), w4)))))"

definition loadGitConfig ::
  "'w loader \<Rightarrow> env_config \<Rightarrow> 'w cache_state \<Rightarrow> (load_error + config_result) \<times> 'w cache_state" where
  "loadGitConfig ld env st =
     (let dir = pathJoin [env_data_path env, ''config''];
          senv = sshEnv (env_ssh_private_key_file env) (env_ssh_known_hosts env) (env_ssh_host_key_policy env)
      in case os_mkdir_all (ld_os ld) dir (ca_world st) of
           (Some e, w) \<Rightarrow> (Inl (CacheDir e), st\<lparr>ca_world := w\<rparr>)
         | (None, w) \<Rightarrow>
             (case fetchConfigFromGit (ld_os ld) env dir senv w of
                (Inl e, w1) \<Rightarrow> (readCachedConfig (ld_parse ld) env (st\<lparr>ca_world := w1\<rparr>), st\<lparr>ca_world := w1\<rparr>)
              | (Inr (data, sha), w1) \<Rightarrow>
                  (let st1 = st\<lparr>ca_world := w1\<rparr> in
                   case parseAndValidate (ld_parse ld) data of
                     Inl e \<Rightarrow> (readCachedConfig (ld_parse ld) env st1, st1)
                   | Inr c \<Rightarrow>
                       (Inr \<lparr>cr_config = c, cr_from_cache = False, cr_commit_sha = sha,
                             cr_source_url = env_config_repo_url env\<rparr>,
                        snd (writeCachedConfig data env sha (ld_now ld) st1)))))"

definition loadConfig ::
  "'w loader \<Rightarrow> env_config \<Rightarrow> gostring file_state \<Rightarrow> 'w cache_state
   \<Rightarrow> (load_error + config_result) \<times> 'w cache_state" where
  "loadConfig ld env localFile st =
     (case env_source env of
        SourceLocal \<Rightarrow> (loadLocalConfig (ld_parse ld) localFile, st)
      | SourceGit \<Rightarrow> loadGitConfig ld env st)"

section \<open>Laws\<close>

lemma validate_no_issue_wf: "validate c = [] \<Longrightarrow> wfConfig c \<and> cfg_projects c \<noteq> []"
proof -
  assume v: "validate c = []"
  then have "blockingIssues c = []" by (simp add: blockingIssues_def)
  moreover have "cfg_projects c \<noteq> []" using v by (auto simp: validate_def Let_def split: prod.splits)
  ultimately show ?thesis by (simp add: blockingIssues_Nil_wf)
qed

lemma readCachedConfig_valid:
  "readCachedConfig parse env st = Inr r \<Longrightarrow> validate (cr_config r) = [] \<and> cr_from_cache r"
  by (auto simp: readCachedConfig_def split: file_state.splits sum.splits list.splits)

lemma parseAndValidate_valid: "parseAndValidate parse data = Inr c \<Longrightarrow> parse data = Inr c \<and> validate c = []"
  by (auto simp: parseAndValidate_def split: sum.splits list.splits)

lemma loadGitConfig_cases:
  assumes "loadGitConfig ld env st = (res, st')"
  obtains (dir) e where "res = Inl (CacheDir e)"
    | (cached) w where "st' = st\<lparr>ca_world := w\<rparr>" "res = readCachedConfig (ld_parse ld) env st'"
    | (fresh) w data sha c where "parseAndValidate (ld_parse ld) data = Inr c"
        "res = Inr \<lparr>cr_config = c, cr_from_cache = False, cr_commit_sha = sha, cr_source_url = env_config_repo_url env\<rparr>"
        "st' = snd (writeCachedConfig data env sha (ld_now ld) (st\<lparr>ca_world := w\<rparr>))"
  using assms
  by (auto simp: loadGitConfig_def Let_def split: prod.splits option.splits sum.splits)

text \<open>
  What a load of git may use: the file and the commit that the fetch gave, when it succeeded, the file
  parses and the configuration has no issue at all; and what the cache holds, by the same measure.
\<close>

definition fetchedConfig ::
  "'w loader \<Rightarrow> env_config \<Rightarrow> 'w \<Rightarrow> (gostring \<times> gostring \<times> config) option" where
  "fetchedConfig ld env w =
     (case fst (fetchConfigFromGit (ld_os ld) env (pathJoin [env_data_path env, ''config''])
              (sshEnv (env_ssh_private_key_file env) (env_ssh_known_hosts env) (env_ssh_host_key_policy env))
              (snd (os_mkdir_all (ld_os ld) (pathJoin [env_data_path env, ''config'']) w))) of
        Inl e \<Rightarrow> None
      | Inr (data, sha) \<Rightarrow>
          (case ld_parse ld data of Inl e \<Rightarrow> None | Inr c \<Rightarrow> if validate c = [] then Some (data, sha, c) else None))"

definition cachedConfig :: "'w loader \<Rightarrow> 'w cache_state \<Rightarrow> (config \<times> gostring) option" where
  "cachedConfig ld st =
     (case ca_yaml st of
        FileHolds data \<Rightarrow>
          (case ld_parse ld data of
             Inl e \<Rightarrow> None
           | Inr c \<Rightarrow>
               if validate c = []
               then Some (c, case ca_metadata st of FileHolds md \<Rightarrow> md_commit_sha md | _ \<Rightarrow> []) else None)
      | _ \<Rightarrow> None)"

definition loadOutcome :: "load_error + config_result \<Rightarrow> (config \<times> gostring \<times> bool) option" where
  "loadOutcome r = (case r of Inl e \<Rightarrow> None | Inr res \<Rightarrow> Some (cr_config res, cr_commit_sha res, cr_from_cache res))"

text \<open>A sequence of loads: before each one git, its mirror and the clock may have changed in any way.\<close>

fun loadSeq ::
  "(gostring \<Rightarrow> parse_error + config) \<Rightarrow> env_config \<Rightarrow> ('w os \<times> gotime \<times> 'w) list \<Rightarrow> 'w cache_state
   \<Rightarrow> (load_error + config_result) list \<times> 'w cache_state" where
  "loadSeq parse env [] st = ([], st)"
| "loadSeq parse env ((os, now, w) # ls) st =
     (case loadGitConfig \<lparr>ld_os = os, ld_parse = parse, ld_now = now\<rparr> env (st\<lparr>ca_world := w\<rparr>) of
        (r, st1) \<Rightarrow> (case loadSeq parse env ls st1 of (rs, st2) \<Rightarrow> (r # rs, st2)))"

text \<open>The specification: a register that each good fetch overwrites and that answers when there is none.\<close>

fun lastKnownGood ::
  "(config \<times> gostring) option \<Rightarrow> (gostring \<times> gostring \<times> config) option list \<Rightarrow> (config \<times> gostring \<times> bool) option list" where
  "lastKnownGood known [] = []"
| "lastKnownGood known (Some (data, sha, c) # fs) = Some (c, sha, False) # lastKnownGood (Some (c, sha)) fs"
| "lastKnownGood known (None # fs) = map_option (\<lambda>(c, sha). (c, sha, True)) known # lastKnownGood known fs"

lemma cachedConfig_world [simp]: "cachedConfig ld (st\<lparr>ca_world := w\<rparr>) = cachedConfig ld st"
  by (simp add: cachedConfig_def split: file_state.split sum.split)

lemma cachedConfig_files:
  "\<lbrakk>ca_yaml st' = ca_yaml st; ca_metadata st' = ca_metadata st\<rbrakk> \<Longrightarrow> cachedConfig ld st' = cachedConfig ld st"
  by (simp add: cachedConfig_def split: file_state.split sum.split)

lemma readCachedConfig_outcome:
  "loadOutcome (readCachedConfig (ld_parse ld) env st) = map_option (\<lambda>(c, sha). (c, sha, True)) (cachedConfig ld st)"
  by (auto simp: readCachedConfig_def cachedConfig_def loadOutcome_def split: file_state.split sum.split list.split)

lemma loadGitConfig_outcome:
  assumes "fst (os_mkdir_all (ld_os ld) (pathJoin [env_data_path env, ''config'']) (ca_world st)) = None"
    and "loadGitConfig ld env st = (res, st')"
  shows "case fetchedConfig ld env (ca_world st) of
      None \<Rightarrow> loadOutcome res = map_option (\<lambda>(c, sha). (c, sha, True)) (cachedConfig ld st)
        \<and> ca_yaml st' = ca_yaml st \<and> ca_metadata st' = ca_metadata st
    | Some (data, sha, c) \<Rightarrow> res = Inr \<lparr>cr_config = c, cr_from_cache = False, cr_commit_sha = sha,
          cr_source_url = env_config_repo_url env\<rparr>
        \<and> (ca_yaml_write_ok st \<longrightarrow> ca_yaml st' = FileHolds data)
        \<and> (ca_yaml_write_ok st \<and> ca_metadata_write_ok st \<longrightarrow> cachedConfig ld st' = Some (c, sha))"
proof -
  obtain w where m: "os_mkdir_all (ld_os ld) (pathJoin [env_data_path env, ''config'']) (ca_world st) = (None, w)"
    using assms(1) by (metis prod.collapse)
  obtain f w1 where f: "fetchConfigFromGit (ld_os ld) env (pathJoin [env_data_path env, ''config''])
      (sshEnv (env_ssh_private_key_file env) (env_ssh_known_hosts env) (env_ssh_host_key_policy env)) w = (f, w1)"
    by (rule prod.exhaust)
  note l = assms(2) [unfolded loadGitConfig_def Let_def m prod.case option.case f]
  have c: "loadOutcome (readCachedConfig (ld_parse ld) env (st\<lparr>ca_world := w1\<rparr>))
      = map_option (\<lambda>(c, sha). (c, sha, True)) (cachedConfig ld st)"
    unfolding readCachedConfig_outcome by simp
  note fd = fetchedConfig_def [of ld env "ca_world st", unfolded m snd_conv f fst_conv]
  consider e where "f = Inl e" | data sha where "f = Inr (data, sha)" by (cases f) auto
  then show ?thesis
  proof cases
    case 1
    then show ?thesis using l c by (auto simp: fd)
  next
    case (2 data sha)
    show ?thesis
    proof (cases "parseAndValidate (ld_parse ld) data")
      case (Inl e)
      then have "fetchedConfig ld env (ca_world st) = None"
        using 2 by (auto simp: fd parseAndValidate_def split: sum.splits list.splits)
      then show ?thesis using l c 2 Inl by auto
    next
      case (Inr d)
      then have pv: "ld_parse ld data = Inr d" "validate d = []" using parseAndValidate_valid by blast+
      then have "fetchedConfig ld env (ca_world st) = Some (data, sha, d)" using 2 by (simp add: fd)
      then show ?thesis using l 2 Inr pv by (auto simp: writeCachedConfig_def cachedConfig_def Let_def)
    qed
  qed
qed

lemma loadGitConfig_flags:
  "loadGitConfig ld env st = (res, st') \<Longrightarrow> ca_yaml_write_ok st' = ca_yaml_write_ok st \<and> ca_metadata_write_ok st' = ca_metadata_write_ok st"
  by (auto simp: loadGitConfig_def writeCachedConfig_def Let_def split: prod.splits option.splits sum.splits if_splits)

text \<open>
  C29. Loading from git hands out the last known good configuration, and nothing else. Over any sequence of
  loads, between which git and the mirror change in any way, each load returns the configuration it has
  just fetched, with its commit, when the fetch succeeds and the configuration parses and has no issue;
  else the one of the last load that did, or of the cache at the start, marked as cached; and an error
  only when there is none. Afterwards the cache holds the last one fetched: a failed fetch or an
  invalid configuration never replaces it. So every configuration handed out is well-formed.
\<close>

theorem loadGitConfig_last_known_good:
  assumes "ca_yaml_write_ok st" and "ca_metadata_write_ok st"
    and "\<forall>(os, now, w)\<in>set ls. fst (os_mkdir_all os (pathJoin [env_data_path env, ''config'']) w) = None"
    and "loadSeq (ld_parse ld) env ls st = (results, st')"
  shows "map loadOutcome results
      = lastKnownGood (cachedConfig ld st) (map (\<lambda>(os, now, w). fetchedConfig (ld\<lparr>ld_os := os\<rparr>) env w) ls)
    \<and> cachedConfig ld st' = fold (\<lambda>f known. case f of None \<Rightarrow> known | Some (data, sha, c) \<Rightarrow> Some (c, sha))
        (map (\<lambda>(os, now, w). fetchedConfig (ld\<lparr>ld_os := os\<rparr>) env w) ls) (cachedConfig ld st)
    \<and> (\<forall>r\<in>set results. \<forall>res. r = Inr res \<longrightarrow> validate (cr_config res) = [] \<and> wfConfig (cr_config res))"
  using assms
proof (induction ls arbitrary: st results)
  case (Cons l ls)
  obtain os now w where l: "l = (os, now, w)" by (metis prod.exhaust)
  let ?ld = "\<lparr>ld_os = os, ld_parse = ld_parse ld, ld_now = now\<rparr>"
  obtain r st1 where g: "loadGitConfig ?ld env (st\<lparr>ca_world := w\<rparr>) = (r, st1)" by (rule prod.exhaust)
  obtain rs where rs: "loadSeq (ld_parse ld) env ls st1 = (rs, st')" "results = r # rs"
    using Cons.prems(4) by (auto simp: l g split: prod.splits)
  have m: "fst (os_mkdir_all (ld_os ?ld) (pathJoin [env_data_path env, ''config'']) (ca_world (st\<lparr>ca_world := w\<rparr>))) = None"
    using Cons.prems(3) l by auto
  have ok: "ca_yaml_write_ok st1" "ca_metadata_write_ok st1" using loadGitConfig_flags [OF g] Cons.prems(1,2) by simp_all
  have same: "fetchedConfig ?ld env w = fetchedConfig (ld\<lparr>ld_os := os\<rparr>) env w" "cachedConfig ?ld = cachedConfig ld"
    "ca_world (st\<lparr>ca_world := w\<rparr>) = w"
    by (simp_all add: fetchedConfig_def cachedConfig_def fun_eq_iff split: sum.split prod.split file_state.split)
  have valid: "validate (cr_config res) = []" if "r = Inr res" for res
    using g unfolding that by (cases rule: loadGitConfig_cases) (auto dest: readCachedConfig_valid [OF sym] parseAndValidate_valid)
  note o = loadGitConfig_outcome [OF m g, unfolded same cachedConfig_world]
  note ih = Cons.IH [OF ok _ rs(1)] Cons.prems(3)
  show ?case
  proof (cases "fetchedConfig (ld\<lparr>ld_os := os\<rparr>) env w")
    case None
    then have "loadOutcome r = map_option (\<lambda>(c, sha). (c, sha, True)) (cachedConfig ld st)" "cachedConfig ld st1 = cachedConfig ld st"
      using o cachedConfig_files [of st1 st ld] by simp_all
    then show ?thesis using ih None valid validate_no_issue_wf by (auto simp: l rs(2))
  next
    case (Some x)
    obtain data sha c where x: "x = (data, sha, c)" by (metis prod.exhaust)
    then have "loadOutcome r = Some (c, sha, False)" "cachedConfig ld st1 = Some (c, sha)"
      using o Some Cons.prems(1,2) by (simp_all add: loadOutcome_def)
    then show ?thesis using ih Some x valid validate_no_issue_wf by (auto simp: l rs(2))
  qed
qed simp

definition demoSha :: gostring where
  "demoSha = ''0123456789012345678901234567890123456789''"

text \<open>A host on which every git command succeeds, and one on which every command fails.\<close>

definition goodGit :: "unit os" where
  "goodGit = \<lparr>os_git = (\<lambda>dir env args w. (\<lparr>xr_stdout = demoSha, xr_stderr = [], xr_combined = [], xr_err = None\<rparr>, w)),
     os_stat = (\<lambda>p w. StatOk), os_mkdir_all = (\<lambda>p w. (None, w))\<rparr>"

definition badGit :: "unit os" where
  "badGit = \<lparr>os_git = (\<lambda>dir env args w. (\<lparr>xr_stdout = [], xr_stderr = [], xr_combined = [], xr_err = Some ''no route''\<rparr>, w)),
     os_stat = (\<lambda>p w. StatOk), os_mkdir_all = (\<lambda>p w. (None, w))\<rparr>"

definition demoEnv :: env_config where
  "demoEnv = loadEnvFrom (\<lambda>_. None)
     (\<lambda>k. if k = ''DEEPLO_DATA_DIR'' then ''/data'' else if k = ''DEEPLO_SSH_PRIVATE_KEY_FILE'' then ''/key''
          else if k = ''DEEPLO_CONFIG_REPO_URL'' then ''git@x:conf.git'' else [])"

definition demoLoader :: "unit loader" where
  "demoLoader = \<lparr>ld_os = goodGit, ld_parse = (\<lambda>d. if d = demoSha then Inr demoConfig else Inl InvalidYaml), ld_now = 1\<rparr>"

definition demoCache :: "unit cache_state" where
  "demoCache = \<lparr>ca_world = (), ca_yaml = FileMissing, ca_metadata = FileMissing, ca_yaml_write_ok = True,
     ca_metadata_write_ok = True\<rparr>"

lemma demoSha_read: "trimSpace demoSha = demoSha" "fieldsFunc isSpace demoSha = [demoSha]" "length demoSha = 40" "demoSha \<noteq> []"
  by code_simp+

lemma fetch_good: "fetchConfigFromGit goodGit env dir senv w = (Inr (demoSha, demoSha), w)"
  by (simp add: fetchConfigFromGit_def remoteSha_def openRepo_def ensureCommit_def hasCommit_def gitIn_def
      readFileAt_def goodGit_def demoSha_read Let_def)

lemma fetch_bad: "\<exists>e. fetchConfigFromGit badGit env dir senv w = (Inl e, w)"
  by (simp add: fetchConfigFromGit_def remoteSha_def badGit_def Let_def)

lemma demoConfig_valid: "validate demoConfig = []"
  by code_simp

definition cachedDemo :: "unit cache_state" where
  "cachedDemo = snd (writeCachedConfig demoSha demoEnv demoSha 1 demoCache)"

lemma demo_first_load:
  "loadGitConfig demoLoader demoEnv demoCache =
     (Inr \<lparr>cr_config = demoConfig, cr_from_cache = False, cr_commit_sha = demoSha,
          cr_source_url = env_config_repo_url demoEnv\<rparr>, cachedDemo)"
proof -
  have "os_mkdir_all goodGit p w = (None, w)" for p w by (simp add: goodGit_def)
  then show ?thesis
    by (simp add: loadGitConfig_def demoLoader_def fetch_good parseAndValidate_def demoConfig_valid cachedDemo_def Let_def)
       (simp add: demoCache_def)
qed

lemma loadGitConfig_last_known_good_witness:
  "map loadOutcome (fst (loadSeq (ld_parse demoLoader) demoEnv [(badGit, 1, ()), (goodGit, 2, ()), (badGit, 3, ())] demoCache))
   = [None, Some (demoConfig, demoSha, False), Some (demoConfig, demoSha, True)]"
proof -
  let ?ls = "[(badGit, 1, ()), (goodGit, 2, ()), (badGit, 3, ())]"
  obtain results st' where r: "loadSeq (ld_parse demoLoader) demoEnv ?ls demoCache = (results, st')" by (rule prod.exhaust)
  have "ca_yaml_write_ok demoCache" "ca_metadata_write_ok demoCache" by (simp_all add: demoCache_def)
  moreover have "\<forall>(os, now, w)\<in>set ?ls. fst (os_mkdir_all os (pathJoin [env_data_path demoEnv, ''config'']) w) = None"
    by (simp add: badGit_def goodGit_def)
  moreover have "fetchedConfig (demoLoader\<lparr>ld_os := badGit\<rparr>) demoEnv () = None"
    using fetch_bad [of demoEnv "pathJoin [env_data_path demoEnv, ''config'']"
        "sshEnv (env_ssh_private_key_file demoEnv) (env_ssh_known_hosts demoEnv) (env_ssh_host_key_policy demoEnv)" "()"]
    by (auto simp: fetchedConfig_def)
  moreover have "fetchedConfig (demoLoader\<lparr>ld_os := goodGit\<rparr>) demoEnv () = Some (demoSha, demoSha, demoConfig)"
    by (simp add: fetchedConfig_def fetch_good demoLoader_def demoConfig_valid)
  moreover have "cachedConfig demoLoader demoCache = None" by (simp add: cachedConfig_def demoCache_def)
  ultimately show ?thesis using loadGitConfig_last_known_good [OF _ _ _ r] r by simp
qed

text \<open>
  The loader counts a warning as an error: a configuration without projects, which the validator
  accepts with a warning, is rejected in git mode.
\<close>

lemma gitMode_rejects_warning:
  "blockingIssues (demoConfig\<lparr>cfg_projects := []\<rparr>) = []
   \<and> parseAndValidate (\<lambda>_. Inr (demoConfig\<lparr>cfg_projects := []\<rparr>)) data = Inl (CacheInvalid (mkWarning ''projects'' NoProjects))"
proof
  show "blockingIssues (demoConfig\<lparr>cfg_projects := []\<rparr>) = []" by code_simp
  have "validate (demoConfig\<lparr>cfg_projects := []\<rparr>) = [mkWarning ''projects'' NoProjects]" by code_simp
  then show "parseAndValidate (\<lambda>_. Inr (demoConfig\<lparr>cfg_projects := []\<rparr>)) data =
      Inl (CacheInvalid (mkWarning ''projects'' NoProjects))" by (simp add: parseAndValidate_def)
qed

lemma applied_roundtrip:
  "saveAppliedConfig True True (applyDefaults c) old = (None, file) \<Longrightarrow>
   loadAppliedConfig file = Inr (Some (applyDefaults c))"
  by (auto simp: saveAppliedConfig_def loadAppliedConfig_def applyDefaults_idem)

end
