(* ===== verification/Engine_Deploy.thy ===== *)
theory Engine_Deploy
  imports Planner Store_History Compose_Laws Bootstrap
begin

text \<open>
  Deploying one project to one host (\<open>internal/engine/deploy.go\<close>, \<open>bundle.go\<close>) and the reporter
  interface (\<open>internal/reporter/reporter.go\<close>). The file system, git and the SSH dialer are the
  operations of a host over a world; the deployment records live on the disk of the store. The
  text written to the run log and to the logger is left out: nothing reads it back here.
\<close>

section \<open>The host\<close>

record dial_config =
  dc_address :: gostring
  dc_port :: int
  dc_user :: gostring
  dc_private_key_file :: gostring
  dc_known_hosts_file :: gostring
  dc_host_key_policy :: gostring

record 'w eng_io =
  eo_os :: "'w os"
  eo_mkdir_temp :: "'w \<Rightarrow> (gostring + gostring) \<times> 'w"
  eo_write_file :: "gostring \<Rightarrow> gostring \<Rightarrow> 'w \<Rightarrow> goerror \<times> 'w"
  eo_remove_all :: "gostring \<Rightarrow> 'w \<Rightarrow> 'w"
  eo_stat :: "gostring \<Rightarrow> 'w \<Rightarrow> goerror"
  eo_dial :: "dial_config \<Rightarrow> 'w \<Rightarrow> (gostring + 'w connection) \<times> 'w"
  eo_close :: "'w \<Rightarrow> 'w"

section \<open>The bundle\<close>

fun bundlePaths ::
  "'w eng_io \<Rightarrow> repo \<Rightarrow> gostring \<Rightarrow> project \<Rightarrow> gostring \<Rightarrow> gostring list \<Rightarrow> 'w
   \<Rightarrow> (gostring + bundle_file list) \<times> 'w" where
  "bundlePaths io r sha p tmpDir [] w = (Inr [], w)"
| "bundlePaths io r sha p tmpDir (filePath # paths) w =
     (case readFileAt (eo_os io) r sha filePath w of
        (Inl e, w1) \<Rightarrow> (Inl (''read '' @ filePath @ ''@'' @ shortSha sha @ '': '' @ e), w1)
      | (Inr content, w1) \<Rightarrow>
          (let remoteName = trimPrefix filePath (proj_repo_subdir p @ ''/'');
               localPath = pathJoin [tmpDir, remoteName] in
           case os_mkdir_all (eo_os io) (pathDir localPath) w1 of
             (Some e, w2) \<Rightarrow> (Inl (''mkdir for '' @ remoteName @ '': '' @ e), w2)
           | (None, w2) \<Rightarrow>
               (case eo_write_file io localPath content w2 of
                  (Some e, w3) \<Rightarrow> (Inl (''write '' @ remoteName @ '': '' @ e), w3)
                | (None, w3) \<Rightarrow>
                    (case bundlePaths io r sha p tmpDir paths w3 of
                       (Inl e, w4) \<Rightarrow> (Inl e, w4)
                     | (Inr fs, w4) \<Rightarrow>
                         (Inr (\<lparr>bf_local_path = localPath, bf_remote_name = remoteName\<rparr> # fs), w4)))))"

fun bundleNames ::
  "'w eng_io \<Rightarrow> repo \<Rightarrow> gostring \<Rightarrow> project \<Rightarrow> gostring \<Rightarrow> gostring list \<Rightarrow> 'w
   \<Rightarrow> (gostring + bundle_file list) \<times> 'w" where
  "bundleNames io r sha p tmpDir [] w = (Inr [], w)"
| "bundleNames io r sha p tmpDir (n # ns) w =
     (let gitPath = pathJoin [proj_repo_subdir p, n] in
      case listFiles (eo_os io) r sha gitPath w of
        (Inl e, w1) \<Rightarrow> (Inl (''list '' @ gitPath @ ''@'' @ shortSha sha @ '': '' @ e), w1)
      | (Inr paths, w1) \<Rightarrow>
          if paths = [] then (Inl (gitPath @ '' not found at '' @ shortSha sha), w1)
          else (case bundlePaths io r sha p tmpDir paths w1 of
                  (Inl e, w2) \<Rightarrow> (Inl e, w2)
                | (Inr fs, w2) \<Rightarrow>
                    (case bundleNames io r sha p tmpDir ns w2 of
                       (Inl e, w3) \<Rightarrow> (Inl e, w3)
                     | (Inr fs', w3) \<Rightarrow> (Inr (fs @ fs'), w3))))"

definition buildBundle ::
  "'w eng_io \<Rightarrow> repo \<Rightarrow> gostring \<Rightarrow> project \<Rightarrow> gostring \<Rightarrow> 'w \<Rightarrow> (gostring + bundle_file list) \<times> 'w" where
  "buildBundle io r sha p tmpDir w =
     bundleNames io r sha p tmpDir (proj_compose_files p @ proj_extra_files p) w"

section \<open>The reporter interface\<close>

record deploy_info =
  di_repo_url :: gostring
  di_commit_sha :: gostring
  di_project_name :: gostring
  di_host_name :: gostring

record 'w reporter =
  rep_enabled :: bool
  rep_started :: "deploy_info \<Rightarrow> gostring \<Rightarrow> 'w \<Rightarrow> gostring \<times> 'w"
  rep_succeeded :: "deploy_info \<Rightarrow> gostring \<Rightarrow> gostring \<Rightarrow> gostring \<Rightarrow> 'w \<Rightarrow> goerror \<times> 'w"
  rep_failed :: "deploy_info \<Rightarrow> gostring \<Rightarrow> gostring \<Rightarrow> gostring \<Rightarrow> 'w \<Rightarrow> goerror \<times> 'w"

definition noopReporter :: "'w reporter" where
  "noopReporter = \<lparr>rep_enabled = False, rep_started = (\<lambda>i u w. ([], w)),
     rep_succeeded = (\<lambda>i t m u w. (None, w)), rep_failed = (\<lambda>i t m u w. (None, w))\<rparr>"

section \<open>Skipping and summarising\<close>

definition shouldSkipDeploy :: "gostring \<Rightarrow> disk \<Rightarrow> gostring \<Rightarrow> gostring \<Rightarrow> gostring \<Rightarrow> bool" where
  "shouldSkipDeploy dp d project ho sha =
     (case getLatestDeployment dp project ho d of
        Inr (Some latest) \<Rightarrow>
          dep_commit_sha latest = sha
          \<and> (dep_status latest = StatusRunning \<or> dep_status latest = StatusSuccess)
      | _ \<Rightarrow> False)"

definition conciseSummary :: "goerror \<Rightarrow> gostring \<Rightarrow> gostring" where
  "conciseSummary err ho =
     (case err of
        None \<Rightarrow> ''Deployed successfully''
      | Some msg \<Rightarrow>
          if hasPrefix msg ''open repo:'' \<or> hasPrefix msg ''ensure commit:'' then ''Git fetch failed on '' @ ho
          else if hasPrefix msg ''build bundle:'' then ''Bundle error on '' @ ho
          else if hasPrefix msg ''mktemp:'' then ''Storage error on '' @ ho
          else if hasPrefix msg ''dial '' then ''SSH connection failed for '' @ ho
          else if hasPrefix msg ''preflight:'' then ''Preflight failed on '' @ ho
          else if hasPrefix msg ''runtime check:'' then ''Runtime verification failed on '' @ ho
          else ''Deploy failed on '' @ ho)"

section \<open>The mechanics of one deployment\<close>

definition dialConfigFor :: "env_config \<Rightarrow> host \<Rightarrow> dial_config" where
  "dialConfigFor env h =
     \<lparr>dc_address = host_address h, dc_port = effectivePort h (env_ssh_port env),
      dc_user = effectiveUser h (env_ssh_user env), dc_private_key_file = env_ssh_private_key_file env,
      dc_known_hosts_file = env_ssh_known_hosts env, dc_host_key_policy = env_ssh_host_key_policy env\<rparr>"

definition remoteDirOf :: "host \<Rightarrow> project \<Rightarrow> gostring" where
  "remoteDirOf h p = pathJoin [host_deploy_dir h, proj_deploy_subdir p]"

text \<open>The part with an open connection; its result carries the remote calls made.\<close>

definition deployOver ::
  "'w eng_io \<Rightarrow> env_config \<Rightarrow> deploy_target \<Rightarrow> bundle_file list \<Rightarrow> 'w \<Rightarrow> (goerror \<times> remote_call list) \<times> 'w" where
  "deployOver io env t files w =
     (let h = t_host t; p = t_project t in
      case eo_dial io (dialConfigFor env h) w of
        (Inl e, w1) \<Rightarrow> ((Some (''dial '' @ host_name h @ '' ('' @ host_address h @ ''): '' @ e), []), w1)
      | (Inr conn, w1) \<Rightarrow>
          (case deploy conn (\<lambda>f. eo_stat io f w1) (newExecutor (remoteDirOf h p) (proj_name p)) files
                  \<lparr>opt_compose_files = proj_compose_files p, opt_persist_files = sliceElems (proj_persist_files p)\<rparr>
                  (w1, []) of
             ((res, err), (w2, calls)) \<Rightarrow> ((err, calls), eo_close io w2)))"

definition runDeploy ::
  "'w eng_io \<Rightarrow> env_config \<Rightarrow> deploy_target \<Rightarrow> repo_event \<Rightarrow> gostring list \<Rightarrow> 'w
   \<Rightarrow> (goerror \<times> remote_call list) \<times> 'w" where
  "runDeploy io env t ev senv w =
     (case openRepo (eo_os io) (repo_url (t_repo t)) (env_data_path env) senv w of
        (Inl e, w1) \<Rightarrow> ((Some (''open repo: '' @ e), []), w1)
      | (Inr r, w1) \<Rightarrow>
          (case ensureCommit (eo_os io) r (ev_commit_sha ev) w1 of
             (Some e, w2) \<Rightarrow> ((Some (''ensure commit: '' @ e), []), w2)
           | (None, w2) \<Rightarrow>
               (case eo_mkdir_temp io w2 of
                  (Inl e, w3) \<Rightarrow> ((Some (''mktemp: '' @ e), []), w3)
                | (Inr tmpDir, w3) \<Rightarrow>
                    (case buildBundle io r (ev_commit_sha ev) (t_project t) tmpDir w3 of
                       (Inl e, w4) \<Rightarrow> ((Some (''build bundle: '' @ e), []), eo_remove_all io tmpDir w4)
                     | (Inr files, w4) \<Rightarrow>
                         (case deployOver io env t files w4 of
                            (out, w5) \<Rightarrow> (out, eo_remove_all io tmpDir w5))))))"

section \<open>The whole deployment with its record and report\<close>

record 'w engine_state =
  en_world :: 'w
  en_disk :: disk

record deploy_clock =
  ck_id :: gostring
  ck_started :: gotime
  ck_completed :: gotime

definition startRecord :: "deploy_clock \<Rightarrow> deploy_target \<Rightarrow> repo_event \<Rightarrow> deployment" where
  "startRecord ck t ev =
     zeroDeployment\<lparr>dep_id := ck_id ck, dep_project := proj_name (t_project t), dep_host := host_name (t_host t),
       dep_commit_sha := ev_commit_sha ev, dep_branch := ev_branch ev, dep_trigger_source := ev_source ev,
       dep_status := StatusRunning, dep_started_at := ck_started ck\<rparr>"

definition finishRecord ::
  "deploy_clock \<Rightarrow> bool \<Rightarrow> gostring \<Rightarrow> goerror \<Rightarrow> goerror \<Rightarrow> deployment \<Rightarrow> deployment" where
  "finishRecord ck enabled token deployErr reportErr dep =
     dep\<lparr>dep_report_token := token,
       dep_report_status := (if enabled then (if deployErr \<noteq> None then ''failure'' else ''success'') else dep_report_status dep),
       dep_report_error := (case reportErr of None \<Rightarrow> dep_report_error dep | Some e \<Rightarrow> e),
       dep_completed_at := Some (ck_completed ck),
       dep_status := (if deployErr \<noteq> None then StatusFailed else StatusSuccess),
       dep_error := (case deployErr of None \<Rightarrow> dep_error dep | Some e \<Rightarrow> e)\<rparr>"

definition reportOutcome ::
  "'w reporter \<Rightarrow> deploy_info \<Rightarrow> gostring \<Rightarrow> gostring \<Rightarrow> gostring \<Rightarrow> goerror \<Rightarrow> 'w \<Rightarrow> goerror \<times> 'w" where
  "reportOutcome rep info token summary logURL deployErr w =
     (if \<not> rep_enabled rep then (None, w)
      else if deployErr \<noteq> None then rep_failed rep info token summary logURL w
      else rep_succeeded rep info token summary logURL w)"

definition deployInfoOf :: "deploy_target \<Rightarrow> repo_event \<Rightarrow> deploy_info" where
  "deployInfoOf t ev =
     \<lparr>di_repo_url = repo_url (t_repo t), di_commit_sha = ev_commit_sha ev,
      di_project_name = proj_name (t_project t), di_host_name = host_name (t_host t)\<rparr>"

definition logURLOf :: "env_config \<Rightarrow> deploy_clock \<Rightarrow> gostring" where
  "logURLOf env ck =
     (if env_public_url env \<noteq> [] then env_public_url env @ ''/runs/'' @ ck_id ck @ ''/logs'' else [])"

definition deployTarget ::
  "'w eng_io \<Rightarrow> env_config \<Rightarrow> 'w reporter \<Rightarrow> deploy_clock \<Rightarrow> deploy_target \<Rightarrow> repo_event \<Rightarrow> gostring list
   \<Rightarrow> 'w engine_state \<Rightarrow> (goerror \<times> remote_call list) call \<times> 'w engine_state" where
  "deployTarget io env rep ck t ev senv s =
     (let dp = env_data_path env;
          info = deployInfoOf t ev;
          logURL = logURLOf env ck;
          dep0 = startRecord ck t ev
      in case saveDeployment dp (Some dep0) (en_disk s) of
           (Panic, d1) \<Rightarrow> (Panic, s\<lparr>en_disk := d1\<rparr>)
         | (Ret saveErr, d1) \<Rightarrow>
             (case rep_started rep info logURL (en_world s) of
                (token, w1) \<Rightarrow>
                  (case runDeploy io env t ev senv w1 of
                     ((deployErr, calls), w2) \<Rightarrow>
                       (case reportOutcome rep info token (conciseSummary deployErr (host_name (t_host t))) logURL deployErr w2 of
                          (reportErr, w3) \<Rightarrow>
                            (case saveDeployment dp
                                    (Some (finishRecord ck (rep_enabled rep) token deployErr reportErr dep0)) d1 of
                               (Panic, d2) \<Rightarrow> (Panic, \<lparr>en_world = w3, en_disk = d2\<rparr>)
                             | (Ret saveErr', d2) \<Rightarrow>
                                 (Ret (deployErr, calls), \<lparr>en_world = w3, en_disk = d2\<rparr>))))))"

end
