(* ===== verification/Engine_Deploy_Laws.thy ===== *)
theory Engine_Deploy_Laws
  imports Engine_Deploy
begin

text \<open>
  What a deployment guarantees: its record ends in the index with the right outcome, a commit is
  skipped afterwards exactly when it was deployed, the summary names the stage that failed, and
  success means the whole remote sequence ran. The reporter interface is a locale.
\<close>

section \<open>Records\<close>

lemma startRecord_fields [simp]:
  "dep_id (startRecord ck t ev) = ck_id ck" "dep_project (startRecord ck t ev) = proj_name (t_project t)"
  "dep_host (startRecord ck t ev) = host_name (t_host t)" "dep_started_at (startRecord ck t ev) = ck_started ck"
  "dep_status (startRecord ck t ev) = StatusRunning" "dep_commit_sha (startRecord ck t ev) = ev_commit_sha ev"
  by (simp_all add: startRecord_def)

lemma finishRecord_fields [simp]:
  "dep_id (finishRecord ck en tok de re dep) = dep_id dep" "dep_project (finishRecord ck en tok de re dep) = dep_project dep"
  "dep_host (finishRecord ck en tok de re dep) = dep_host dep"
  "dep_started_at (finishRecord ck en tok de re dep) = dep_started_at dep"
  "dep_commit_sha (finishRecord ck en tok de re dep) = dep_commit_sha dep"
  "dep_completed_at (finishRecord ck en tok de re dep) = Some (ck_completed ck)"
  "dep_status (finishRecord ck en tok de re dep) = (if de = None then StatusSuccess else StatusFailed)"
  by (simp_all add: finishRecord_def)

lemma validRunID_savable:
  assumes "validRunID (dep_id dep)" "dep_project dep \<noteq> []" "dep_host dep \<noteq> []"
  shows "savable dep"
  using validRunID_chars [OF assms(1)] assms
  by (auto simp: savable_def validRecord_def containsAny_def)

definition targetKey :: "deploy_target \<Rightarrow> gostring" where
  "targetKey t = indexKeyForProjectHost (proj_name (t_project t)) (host_name (t_host t))"

text \<open>The record of a deployment, for the clients.\<close>

lemma deployTarget_outcome:
  assumes h: "healthy (env_data_path env) (en_disk s)" and id: "validRunID (ck_id ck)"
    and names: "proj_name (t_project t) \<noteq> []" "host_name (t_host t) \<noteq> []"
    and newest: "\<forall>c. latestOf (env_data_path env) (en_disk s) (targetKey t) = Some c \<longrightarrow> dep_started_at c \<le> ck_started ck"
  shows "\<exists>err calls s' fin. deployTarget io env rep ck t ev senv s = (Ret (err, calls), s')
     \<and> healthy (env_data_path env) (en_disk s')
     \<and> latestOf (env_data_path env) (en_disk s') = (latestOf (env_data_path env) (en_disk s))(targetKey t \<mapsto> fin)
     \<and> dkRead (en_disk s') (runFile (env_data_path env) (ck_id ck)) = Some (DocDeployment fin)
     \<and> dep_id fin = ck_id ck \<and> dep_commit_sha fin = ev_commit_sha ev \<and> dep_completed_at fin = Some (ck_completed ck)
     \<and> dep_started_at fin = ck_started ck
     \<and> dep_status fin = (if err = None then StatusSuccess else StatusFailed)
     \<and> (shouldSkipDeploy (env_data_path env) (en_disk s') (proj_name (t_project t)) (host_name (t_host t)) (ev_commit_sha ev)
          \<longleftrightarrow> err = None)"
proof -
  let ?dp = "env_data_path env" and ?dep = "startRecord ck t ev"
  have k: "keyOfDeployment ?dep = targetKey t" by (simp add: keyOfDeployment_def targetKey_def)
  have sv: "savable ?dep" using id names by (intro validRunID_savable) simp_all
  obtain d1 where d1: "saveDeployment ?dp (Some ?dep) (en_disk s) = (Ret None, d1)" "healthy ?dp d1"
    "latestOf ?dp d1 = (latestOf ?dp (en_disk s))(keyOfDeployment ?dep :=
        Some (mergeLatest ?dep (latestOf ?dp (en_disk s) (keyOfDeployment ?dep))))"
    using saveDeployment_spec [OF h sv] by blast
  have m1: "mergeLatest ?dep (latestOf ?dp (en_disk s) (targetKey t)) = ?dep"
    using newest by (auto simp: mergeLatest_def split: option.split)
  obtain tok w1 where "rep_started rep (deployInfoOf t ev) (logURLOf env ck) (en_world s) = (tok, w1)"
    by (rule prod.exhaust)
  moreover obtain err calls w2 where "runDeploy io env t ev senv w1 = ((err, calls), w2)"
    by (metis prod.exhaust)
  moreover obtain re w3 where "reportOutcome rep (deployInfoOf t ev) tok
      (conciseSummary err (host_name (t_host t))) (logURLOf env ck) err w2 = (re, w3)"
    by (rule prod.exhaust)
  moreover define fin where "fin = finishRecord ck (rep_enabled rep) tok err re ?dep"
  have kf: "keyOfDeployment fin = targetKey t" by (simp add: fin_def keyOfDeployment_def targetKey_def)
  have sf: "savable fin" using id names by (intro validRunID_savable) (simp_all add: fin_def)
  obtain d2 where d2: "saveDeployment ?dp (Some fin) d1 = (Ret None, d2)" "healthy ?dp d2"
    "latestOf ?dp d2 = (latestOf ?dp d1)(keyOfDeployment fin :=
        Some (mergeLatest fin (latestOf ?dp d1 (keyOfDeployment fin))))"
    and reads: "\<forall>p. p \<noteq> projectsFile ?dp \<longrightarrow>
       dkRead d2 p = ((dkRead d1)(runFile ?dp (dep_id fin) \<mapsto> DocDeployment fin)) p"
    using saveDeployment_spec [OF d1(2) sf] by blast
  ultimately have run: "deployTarget io env rep ck t ev senv s = (Ret (err, calls), \<lparr>en_world = w3, en_disk = d2\<rparr>)"
    using d1(1) by (simp add: deployTarget_def Let_def fin_def)
  have "mergeLatest fin (Some ?dep) = fin" by (simp add: mergeLatest_def fin_def)
  then have l2: "latestOf ?dp d2 = (latestOf ?dp (en_disk s))(targetKey t \<mapsto> fin)"
    using d2(3) d1(3) by (simp add: k kf m1)
  have "runFile ?dp (ck_id ck) \<noteq> projectsFile ?dp"
    using runFile_not_index healthyD(1) [OF h] validRunID_chars(1) [OF id] by blast
  then have rd: "dkRead d2 (runFile ?dp (ck_id ck)) = Some (DocDeployment fin)"
    using reads by (simp add: fin_def)
  have "getLatestDeployment ?dp (proj_name (t_project t)) (host_name (t_host t)) d2 = Inr (Some fin)"
    using l2 by (simp add: getLatest_healthy [OF d2(2)] flip: targetKey_def)
  then have "shouldSkipDeploy ?dp d2 (proj_name (t_project t)) (host_name (t_host t)) (ev_commit_sha ev) \<longleftrightarrow> err = None"
    by (simp add: shouldSkipDeploy_def fin_def)
  then show ?thesis
    using run d2(2) l2 rd by (intro exI [where x = err] exI [where x = calls]
        exI [where x = "\<lparr>en_world = w3, en_disk = d2\<rparr>"] exI [where x = fin]) (simp add: fin_def)
qed

text \<open>
  C6. The record of a deployment tells the truth: on a healthy disk without a later run of the same
  project and host, whatever git, SSH, Docker and the reporter do, the deployment returns, its run is
  the latest one of the project and host, marked success when no step failed and failed otherwise,
  with its completion time, in the index and in its run file; all other entries are unchanged; and the
  same commit is skipped by the next push exactly when this deployment succeeded.
\<close>

theorem deployTarget_records:
  assumes h: "healthy (env_data_path env) (en_disk s)" and id: "validRunID (ck_id ck)"
    and names: "proj_name (t_project t) \<noteq> []" "host_name (t_host t) \<noteq> []"
    and newest: "\<forall>c. latestOf (env_data_path env) (en_disk s) (targetKey t) = Some c \<longrightarrow> dep_started_at c \<le> ck_started ck"
  shows "\<exists>err calls s' fin. deployTarget io env rep ck t ev senv s = (Ret (err, calls), s')
     \<and> healthy (env_data_path env) (en_disk s')
     \<and> latestOf (env_data_path env) (en_disk s') = (latestOf (env_data_path env) (en_disk s))(targetKey t \<mapsto> fin)
     \<and> dkRead (en_disk s') (runFile (env_data_path env) (ck_id ck)) = Some (DocDeployment fin)
     \<and> dep_id fin = ck_id ck \<and> dep_commit_sha fin = ev_commit_sha ev \<and> dep_completed_at fin = Some (ck_completed ck)
     \<and> dep_status fin = (if err = None then StatusSuccess else StatusFailed)
     \<and> (shouldSkipDeploy (env_data_path env) (en_disk s') (proj_name (t_project t)) (host_name (t_host t)) (ev_commit_sha ev)
          \<longleftrightarrow> err = None)"
  using deployTarget_outcome [OF assms] by blast

definition demoTarget :: deploy_target where
  "demoTarget = \<lparr>t_project = demoProject, t_host = demoHost, t_repo = demoRepo\<rparr>"

definition demoIO :: "unit eng_io" where
  "demoIO = \<lparr>eo_os = goodGit, eo_mkdir_temp = (\<lambda>w. (Inr ''/tmp/b'', w)), eo_write_file = (\<lambda>p c w. (None, w)),
     eo_remove_all = (\<lambda>p w. w), eo_stat = (\<lambda>p w. None), eo_dial = (\<lambda>c w. (Inr demoConn, w)), eo_close = (\<lambda>w. w)\<rparr>"

definition demoClock :: deploy_clock where
  "demoClock = \<lparr>ck_id = ''170-0011aabb'', ck_started = 5, ck_completed = 9\<rparr>"

lemma demoEnv_data: "env_data_path demoEnv = ''/data''"
  by (simp add: demoEnv_def loadEnvFrom_def envString_def Let_def)

lemma deployTarget_records_witness:
  "\<exists>err calls s'. deployTarget demoIO demoEnv noopReporter demoClock demoTarget demoEvent [] \<lparr>en_world = (), en_disk = emptyDisk\<rparr>
      = (Ret (err, calls), s')
      \<and> (shouldSkipDeploy ''/data'' (en_disk s') ''web'' ''h1'' (ev_commit_sha demoEvent) \<longleftrightarrow> err = None)"
proof -
  have "validRunID (ck_id demoClock)" by code_simp
  moreover have "proj_name (t_project demoTarget) = ''web''" "host_name (t_host demoTarget) = ''h1''"
    by (simp_all add: demoTarget_def demoProject_def demoHost_def)
  ultimately show ?thesis
    using deployTarget_records [of demoEnv "\<lparr>en_world = (), en_disk = emptyDisk\<rparr>" demoClock demoTarget demoIO
        noopReporter demoEvent "[]"] demo_facts(1,8)
    by (auto simp: demoEnv_data)
qed

section \<open>The stage that failed\<close>

lemma uploadFiles_error:
  "uploadFiles c x d fs s = (Some e, s1) \<Longrightarrow> \<exists>m. e = ''upload '' @ m"
  by (induction fs arbitrary: s) (auto split: prod.splits option.splits)

lemma persistFiles_error:
  "persistFiles c x d ns s = (Some e, s1) \<Longrightarrow> \<exists>m. e = ''copy persist file '' @ m"
  by (induction ns arbitrary: s) (auto simp: withStderr_def split: prod.splits if_splits)

definition plainDeployErrors :: "gostring list" where
  "plainDeployErrors = [''invalid bundle: '', ''at least one'', ''create staging dir: '', ''upload '',
     ''copy persist file '', ''directory swap failed: '', ''docker compose up: '']"

definition plainDeployError :: "gostring \<Rightarrow> bool" where
  "plainDeployError e \<longleftrightarrow> list_ex (\<lambda>p. hasPrefix e p) plainDeployErrors"

lemma stage_error:
  assumes "stage c x fs opts s = (Some e, s1)"
  shows "(\<exists>m. e = ''preflight: '' @ m) \<or> plainDeployError e"
proof -
  have "(\<exists>m. e = ''preflight: '' @ m) \<or> (\<exists>m. e = ''create staging dir: '' @ m)
      \<or> (\<exists>m. e = ''upload '' @ m) \<or> (\<exists>m. e = ''copy persist file '' @ m)"
    using assms unfolding stage_def Let_def
    by (auto simp: withStderr_def split: prod.splits if_splits option.splits
        dest!: uploadFiles_error persistFiles_error)
  then show ?thesis by (auto simp: plainDeployError_def plainDeployErrors_def)
qed

lemma deploy_error:
  assumes "deploy conn stat ex files opts s = ((res, Some e), s')"
  shows "(\<exists>m. e = ''preflight: '' @ m) \<or> (\<exists>m. e = ''runtime check: '' @ m) \<or> plainDeployError e"
  using assms
proof (cases rule: deploy_cases)
  case (staging e')
  then show ?thesis using stage_error by blast
next
  case (verify s1 out s2 up s3)
  then show ?thesis using verifyRuntime_spec [OF verify(6)] by blast
qed (auto simp: plainDeployError_def plainDeployErrors_def withStderr_def)

lemma summary_plain: "plainDeployError e \<Longrightarrow> conciseSummary (Some e) h = ''Deploy failed on '' @ h"
  by (auto simp: plainDeployError_def plainDeployErrors_def conciseSummary_def hasPrefix_iff)

lemma summary_prefixes:
  "conciseSummary (Some (''open repo: '' @ e)) h = ''Git fetch failed on '' @ h"
  "conciseSummary (Some (''ensure commit: '' @ e)) h = ''Git fetch failed on '' @ h"
  "conciseSummary (Some (''mktemp: '' @ e)) h = ''Storage error on '' @ h"
  "conciseSummary (Some (''build bundle: '' @ e)) h = ''Bundle error on '' @ h"
  "conciseSummary (Some (''dial '' @ e)) h = ''SSH connection failed for '' @ h"
  "conciseSummary (Some (''preflight: '' @ e)) h = ''Preflight failed on '' @ h"
  "conciseSummary (Some (''runtime check: '' @ e)) h = ''Runtime verification failed on '' @ h"
  "conciseSummary None h = ''Deployed successfully''"
  by (simp_all add: conciseSummary_def)

lemmas summary_simps [simp] = summary_prefixes [simplified]

definition executorFor :: "deploy_target \<Rightarrow> executor" where
  "executorFor t = newExecutor (remoteDirOf (t_host t) (t_project t)) (proj_name (t_project t))"

definition optionsFor :: "deploy_target \<Rightarrow> deploy_options" where
  "optionsFor t = \<lparr>opt_compose_files = proj_compose_files (t_project t),
                   opt_persist_files = sliceElems (proj_persist_files (t_project t))\<rparr>"

lemma deployOver_cases:
  fixes io :: "'w eng_io"
  assumes "deployOver io env t files w = ((err, calls), w')"
  obtains (dial) e where "calls = []" "err = Some (''dial '' @ e)"
    | (remote) conn :: "'w connection" and stat v res v' where
        "deploy conn stat (executorFor t) files (optionsFor t) (v, []) = ((res, err), (v', calls))"
proof -
  obtain d w1 where d: "eo_dial io (dialConfigFor env (t_host t)) w = (d, w1)" by (rule prod.exhaust)
  note a = assms [unfolded deployOver_def Let_def d prod.case, folded executorFor_def optionsFor_def]
  show thesis
  proof (cases d)
    case (Inl e)
    with a show thesis by (intro dial) auto
  next
    case (Inr conn)
    obtain res err' w2 calls' where "deploy conn (\<lambda>f. eo_stat io f w1) (executorFor t) files (optionsFor t) (w1, [])
        = ((res, err'), (w2, calls'))" by (metis prod.exhaust)
    with a Inr show thesis by (intro remote) auto
  qed
qed

lemma runDeploy_cases:
  fixes io :: "'w eng_io"
  assumes "runDeploy io env t ev senv w = ((err, calls), w')"
  obtains (git) e where "calls = []" "err = Some (''open repo: '' @ e) \<or> err = Some (''ensure commit: '' @ e)"
    | (storage) e where "calls = []" "err = Some (''mktemp: '' @ e)"
    | (bundling) e where "calls = []" "err = Some (''build bundle: '' @ e)"
    | (dial) e where "calls = []" "err = Some (''dial '' @ e)"
    | (remote) conn :: "'w connection" and stat files v res v' where
        "deploy conn stat (executorFor t) files (optionsFor t) (v, []) = ((res, err), (v', calls))"
proof -
  obtain a w1 where a: "openRepo (eo_os io) (repo_url (t_repo t)) (env_data_path env) senv w = (a, w1)"
    by (rule prod.exhaust)
  show thesis
  proof (cases a)
    case (Inl e)
    with a assms show thesis by (intro git) (auto simp: runDeploy_def)
  next
    case r: (Inr r)
    obtain b w2 where b: "ensureCommit (eo_os io) r (ev_commit_sha ev) w1 = (b, w2)" by (rule prod.exhaust)
    obtain c w3 where c: "eo_mkdir_temp io w2 = (c, w3)" by (rule prod.exhaust)
    show thesis
    proof (cases b)
      case (Some e)
      with a r b assms show thesis by (intro git) (auto simp: runDeploy_def)
    next
      case bn: None
      show thesis
      proof (cases c)
        case (Inl e)
        with a r b bn c assms show thesis by (intro storage) (auto simp: runDeploy_def)
      next
        case tmp: (Inr tmp)
        obtain d w4 where d: "buildBundle io r (ev_commit_sha ev) (t_project t) tmp w3 = (d, w4)" by (rule prod.exhaust)
        show thesis
        proof (cases d)
          case (Inl e)
          with a r b bn c tmp d assms show thesis by (intro bundling) (auto simp: runDeploy_def)
        next
          case (Inr files)
          then obtain w5 where "deployOver io env t files w4 = ((err, calls), w5)"
            using a r b bn c tmp d assms by (auto simp: runDeploy_def split: prod.splits)
          then show thesis by (cases rule: deployOver_cases) (fact dial, fact remote)
        qed
      qed
    qed
  qed
qed

definition swapped :: "deploy_target \<Rightarrow> remote_call list \<Rightarrow> bool" where
  "swapped t calls \<longleftrightarrow> (\<exists>ok. RunCall (liveSwap (executorFor t)) ok \<in> set calls)"

lemma stagingCall_no_swap:
  "list_all (stagingCall ex files opts) new \<Longrightarrow> RunCall (liveSwap ex) ok \<notin> set new"
  by (auto simp: list_all_iff stagingCall_def liveSwap_def copyPersist_def)

text \<open>
  What the operator is told is what happened: the summary of a deployment reads \<open>Deployed
  successfully\<close> exactly when no step failed, and then the host saw the whole staged sequence, the
  swap, \<open>up\<close> and \<open>ps\<close> without an error; a git, storage, bundle or SSH failure means that no call
  reached the host; a preflight failure means that the live directory was not swapped; a runtime
  failure means that the swap and \<open>up\<close> had both succeeded.
\<close>

theorem summary_tells_outcome:
  assumes "runDeploy io env t ev senv w = ((err, calls), w')" and "summary = conciseSummary err h"
  shows "(summary = ''Deployed successfully'' \<longleftrightarrow> err = None)
    \<and> (err = None \<longrightarrow> (\<exists>files b b'. calls = stagedLog (executorFor t) files (optionsFor t) b @
          [RunCall (liveSwap (executorFor t)) True, RunCall (Cleanup (ex_remote_dir (executorFor t) @ ''.old'')) b',
           RunCall (ComposeUp (ex_remote_dir (executorFor t)) (opt_compose_files (optionsFor t))) True,
           RunCall (ComposePs (ex_remote_dir (executorFor t)) (opt_compose_files (optionsFor t))) True]))
    \<and> (summary \<in> {''Git fetch failed on '' @ h, ''Storage error on '' @ h, ''Bundle error on '' @ h,
          ''SSH connection failed for '' @ h} \<longrightarrow> calls = [])
    \<and> (summary = ''Preflight failed on '' @ h \<longrightarrow> \<not> swapped t calls)
    \<and> (summary = ''Runtime verification failed on '' @ h \<longrightarrow>
         RunCall (liveSwap (executorFor t)) True \<in> set calls
         \<and> RunCall (ComposeUp (ex_remote_dir (executorFor t)) (opt_compose_files (optionsFor t))) True \<in> set calls)"
  using assms(1)
proof (cases rule: runDeploy_cases)
  case (remote conn stat files v res v')
  show ?thesis
  proof (cases err)
    case None
    then show ?thesis
      using deploy_log [OF remote] assms(2) by auto
  next
    case (Some e)
    note dep = remote [unfolded Some]
    have plain: ?thesis if "plainDeployError e"
      using summary_plain [OF that, of h] assms(2) Some by simp
    from dep show ?thesis
    proof (cases rule: deploy_cases)
      case (staging e')
      then obtain n where n: "calls = n" "list_all (stagingCall (executorFor t) files (optionsFor t)) n"
        using stage_log [OF staging(1)] by auto
      have "(\<exists>m. e = ''preflight: '' @ m) \<or> plainDeployError e" using stage_error staging by blast
      then show ?thesis
        using plain n stagingCall_no_swap [OF n(2)] assms(2) Some by (auto simp: swapped_def)
    next
      case (verify s1 out s2 up s3)
      have l: "snd s2 = snd s1 @ [RunCall (liveSwap (executorFor t)) True]"
        using runCmd_log [OF verify(2)] verify(3) by simp
      obtain b where b: "snd (cleanup conn (executorFor t) (ex_remote_dir (executorFor t) @ ''.old'') s2)
          = snd s2 @ [RunCall (Cleanup (ex_remote_dir (executorFor t) @ ''.old'')) b]" using cleanup_log by blast
      have "calls \<noteq> [] \<and> RunCall (liveSwap (executorFor t)) True \<in> set calls
         \<and> RunCall (ComposeUp (ex_remote_dir (executorFor t)) (opt_compose_files (optionsFor t))) True \<in> set calls"
        using l b runCmd_log [OF verify(4)] verify(5) verifyRuntime_spec [OF verify(6)] by auto
      moreover obtain m where "e = ''runtime check: '' @ m" using verifyRuntime_spec [OF verify(6)] by blast
      ultimately show ?thesis using assms(2) Some by simp
    qed (rule plain, simp add: plainDeployError_def plainDeployErrors_def withStderr_def)+
  qed
qed (use assms(2) in \<open>auto simp: swapped_def\<close>)

lemma summary_tells_outcome_witness:
  "\<exists>err calls w'. runDeploy demoIO demoEnv demoTarget demoEvent [] () = ((err, calls), w')
     \<and> (conciseSummary err ''h1'' = ''Deployed successfully'' \<longleftrightarrow> err = None)"
proof -
  obtain err calls w' where r: "runDeploy demoIO demoEnv demoTarget demoEvent [] () = ((err, calls), w')"
    by (metis prod.exhaust)
  from summary_tells_outcome [OF r refl, of "''h1''"] r show ?thesis by blast
qed

section \<open>The reporter as an interface\<close>

text \<open>
  What the engine relies on: a disabled reporter is silent. The clients' lemma is proved once for
  every reporter of this kind.
\<close>

locale quiet_reporter =
  fixes enabled :: bool
    and started :: "deploy_info \<Rightarrow> gostring \<Rightarrow> 'w \<Rightarrow> gostring \<times> 'w"
    and succeeded failed :: "deploy_info \<Rightarrow> gostring \<Rightarrow> gostring \<Rightarrow> gostring \<Rightarrow> 'w \<Rightarrow> goerror \<times> 'w"
  assumes quiet: "\<not> enabled \<Longrightarrow> started i u w = ([], w) \<and> succeeded i t m u w = (None, w) \<and> failed i t m u w = (None, w)"
begin

lemma started_off: "\<not> enabled \<Longrightarrow> started i u w = ([], w)"
  using quiet by blast

lemma finished_off: "\<not> enabled \<Longrightarrow> (if b then failed i t m u w else succeeded i t m u w) = (None, w)"
  using quiet by simp

end

interpretation noop: quiet_reporter "rep_enabled noopReporter" "rep_started noopReporter"
  "rep_succeeded noopReporter" "rep_failed noopReporter"
  by unfold_locales (simp add: noopReporter_def)

lemma noop_report: "reportOutcome noopReporter i t m u e w = (None, w)"
  by (simp add: reportOutcome_def noopReporter_def)

end
