(* ===== verification/Engine_Reconcile.thy ===== *)
theory Engine_Reconcile
  imports Engine_Deploy_Laws
begin

text \<open>
  Reconciling a configuration change (\<open>internal/engine/desired.go\<close>, \<open>reconcile.go\<close>): what must be
  torn down, deployed and redeployed between two configurations. The dispatched events are returned
  as a list; Go ranges over the repositories in an arbitrary order, the model in that of first
  occurrence. A store is its data path with its disk, or \<open>nil\<close>.
\<close>

type_synonym store = "(gostring \<times> disk) option"

section \<open>Desired targets\<close>

definition desiredRemoteDir :: "config option \<Rightarrow> gostring \<Rightarrow> gostring \<Rightarrow> gostring option" where
  "desiredRemoteDir cfg project ho =
     (case cfg of
        None \<Rightarrow> None
      | Some c \<Rightarrow>
          (case List.find (\<lambda>p. proj_name p = project) (cfg_projects c) of
             None \<Rightarrow> None
           | Some p \<Rightarrow>
               if ho \<notin> set (proj_targets p) then None
               else (case List.find (\<lambda>h. host_name h = ho) (cfg_hosts c) of
                       None \<Rightarrow> None
                     | Some h \<Rightarrow> Some (pathJoin [host_deploy_dir h, proj_deploy_subdir p]))))"

definition targetDesired :: "config option \<Rightarrow> gostring \<Rightarrow> gostring \<Rightarrow> bool" where
  "targetDesired cfg project ho \<longleftrightarrow> desiredRemoteDir cfg project ho \<noteq> None"

section \<open>Removals\<close>

record teardown_target =
  td_project_name :: gostring
  td_host :: host
  td_remote_dir :: gostring
  td_compose_files :: "gostring list"
  td_remove_state :: bool

definition sameLocation :: "(gostring \<rightharpoonup> host) \<Rightarrow> project option \<Rightarrow> gostring \<Rightarrow> gostring \<Rightarrow> bool" where
  "sameLocation newHosts newProject hostName oldRemoteDir =
     (case newProject of
        None \<Rightarrow> False
      | Some np \<Rightarrow>
          hostName \<in> set (proj_targets np)
          \<and> (case newHosts hostName of
               None \<Rightarrow> False
             | Some nh \<Rightarrow> pathJoin [host_deploy_dir nh, proj_deploy_subdir np] = oldRemoteDir))"

fun teardownsOf ::
  "(gostring \<rightharpoonup> host) \<Rightarrow> (gostring \<rightharpoonup> host) \<Rightarrow> project option \<Rightarrow> project \<Rightarrow> gostring list \<Rightarrow> teardown_target list" where
  "teardownsOf oldHosts newHosts newProject op [] = []"
| "teardownsOf oldHosts newHosts newProject op (hostName # ns) =
     (case oldHosts hostName of
        None \<Rightarrow> teardownsOf oldHosts newHosts newProject op ns
      | Some oh \<Rightarrow>
          (let oldRemoteDir = pathJoin [host_deploy_dir oh, proj_deploy_subdir op];
               stillTargeted = (case newProject of None \<Rightarrow> False | Some np \<Rightarrow> hostName \<in> set (proj_targets np))
           in if stillTargeted \<and> sameLocation newHosts newProject hostName oldRemoteDir
              then teardownsOf oldHosts newHosts newProject op ns
              else \<lparr>td_project_name = proj_name op, td_host = oh, td_remote_dir = oldRemoteDir,
                    td_compose_files = proj_compose_files op, td_remove_state = (\<not> stillTargeted)\<rparr>
                   # teardownsOf oldHosts newHosts newProject op ns))"

definition findTeardownTargets :: "config \<Rightarrow> config \<Rightarrow> teardown_target list" where
  "findTeardownTargets oldConfig newConfig =
     concat (map (\<lambda>op. teardownsOf (hostIndex oldConfig) (hostIndex newConfig)
                         (projectIndex newConfig (proj_name op)) op (proj_targets op))
               (cfg_projects oldConfig))"

definition hasDeploymentRecord :: "store \<Rightarrow> gostring \<Rightarrow> gostring \<Rightarrow> bool" where
  "hasDeploymentRecord st project ho =
     (case st of
        None \<Rightarrow> False
      | Some (dp, d) \<Rightarrow> (case getLatestDeployment dp project ho d of Inr (Some dep) \<Rightarrow> True | _ \<Rightarrow> False))"

text \<open>Stopping one target; the result carries the remote calls made.\<close>

definition teardown ::
  "'w eng_io \<Rightarrow> env_config \<Rightarrow> teardown_target \<Rightarrow> 'w \<Rightarrow> (goerror \<times> remote_call list) \<times> 'w" where
  "teardown io env t w =
     (case eo_dial io (dialConfigFor env (td_host t)) w of
        (Inl e, w1) \<Rightarrow>
          ((Some (''dial '' @ host_name (td_host t) @ '' ('' @ host_address (td_host t) @ ''): '' @ e), []), w1)
      | (Inr conn, w1) \<Rightarrow>
          (let ex = newExecutor (td_remote_dir t) (td_project_name t) in
           case composeDown conn ex (td_compose_files t) (w1, []) of
             (Some e, (w2, calls)) \<Rightarrow> ((Some (''compose down: '' @ e), calls), eo_close io w2)
           | (None, s2) \<Rightarrow>
               (case runCmd conn ex (Cleanup (td_remote_dir t)) s2 of
                  (out, (w3, calls)) \<Rightarrow>
                    ((case out_err out of
                        None \<Rightarrow> None
                      | Some e \<Rightarrow> Some (''remove directory '' @ td_remote_dir t @ '': '' @ e), calls),
                     eo_close io w3))))"

text \<open>The body of a removal job, run against the configuration of that moment.\<close>

definition removalJob ::
  "'w eng_io \<Rightarrow> env_config \<Rightarrow> gostring \<Rightarrow> config option \<Rightarrow> teardown_target \<Rightarrow> 'w engine_state
   \<Rightarrow> (goerror \<times> remote_call list) \<times> 'w engine_state" where
  "removalJob io env dp cfg t s =
     (if desiredRemoteDir cfg (td_project_name t) (host_name (td_host t)) = Some (td_remote_dir t)
      then ((None, []), s)
      else (case teardown io env t (en_world s) of
              ((Some e, calls), w) \<Rightarrow> ((Some e, calls), s\<lparr>en_world := w\<rparr>)
            | ((None, calls), w) \<Rightarrow>
                ((None, calls),
                 \<lparr>en_world = w,
                  en_disk = (if td_remove_state t
                             then snd (deleteLatestDeployment dp (td_project_name t) (host_name (td_host t)) (en_disk s))
                             else en_disk s)\<rparr>)))"

text \<open>\<open>ReconcileRemovals\<close>: the targets for which a job is submitted to the runner.\<close>

definition removalJobs :: "config \<Rightarrow> config \<Rightarrow> store \<Rightarrow> teardown_target list" where
  "removalJobs oldConfig newConfig st =
     filter (\<lambda>t. hasDeploymentRecord st (td_project_name t) (host_name (td_host t)))
       (findTeardownTargets oldConfig newConfig)"

section \<open>Additions\<close>

definition configPairs :: "config \<Rightarrow> (gostring \<times> gostring) set" where
  "configPairs c = {(proj_name p, n) |p n. p \<in> set (cfg_projects c) \<and> n \<in> set (proj_targets p)}"

lemma configPairs_code [code]:
  "configPairs c = (\<Union>p\<in>set (cfg_projects c). (\<lambda>n. (proj_name p, n)) ` set (proj_targets p))"
  by (auto simp: configPairs_def)

definition findAddedDeployTargets :: "config \<Rightarrow> config \<Rightarrow> deploy_target list" where
  "findAddedDeployTargets oldConfig newConfig =
     filter (\<lambda>t. (proj_name (t_project t), host_name (t_host t)) \<notin> configPairs oldConfig) (allTargets newConfig)"

definition lastDeployedSha :: "gostring \<Rightarrow> disk \<Rightarrow> gostring \<Rightarrow> gostring \<Rightarrow> gostring option" where
  "lastDeployedSha dp d repo branch =
     (case getRepoState dp repo branch d of
        Inr (Some rs) \<Rightarrow> if rs_last_deployed_sha rs = [] then None else Some (rs_last_deployed_sha rs)
      | _ \<Rightarrow> None)"

text \<open>The mirror's head of a branch, else the last commit deployed from it.\<close>

definition headSha ::
  "(gostring \<Rightarrow> gostring \<Rightarrow> gostring option) \<Rightarrow> gostring \<Rightarrow> disk \<Rightarrow> gostring \<Rightarrow> repo_config \<Rightarrow> gostring option" where
  "headSha getMirrorHead dp d repoName r =
     (case getMirrorHead (repo_url r) (repo_branch r) of
        Some sha \<Rightarrow> if sha \<noteq> [] then Some sha else lastDeployedSha dp d repoName (repo_branch r)
      | None \<Rightarrow> lastDeployedSha dp d repoName (repo_branch r))"

definition forcedEvent ::
  "trigger_source \<Rightarrow> gostring \<Rightarrow> gostring \<Rightarrow> gostring \<Rightarrow> deploy_target list \<Rightarrow> bool \<Rightarrow> repo_event" where
  "forcedEvent src repoName branch sha targets redeploy =
     \<lparr>ev_source = src, ev_delivery_id = [], ev_repo_name = repoName, ev_branch = branch, ev_commit_sha = sha,
      ev_changed_files = None, ev_forced_targets = targets, ev_redeploy = redeploy\<rparr>"

definition repoOfTarget :: "deploy_target \<Rightarrow> gostring" where
  "repoOfTarget t = repo_name (t_repo t)"

text \<open>One event per repository that has targets, if its commit is known.\<close>

definition eventsPerRepo ::
  "(gostring \<Rightarrow> repo_config \<Rightarrow> gostring option) \<Rightarrow> trigger_source \<Rightarrow> bool \<Rightarrow> deploy_target list \<Rightarrow> repo_event list" where
  "eventsPerRepo shaOf src redeploy targets =
     List.map_filter
       (\<lambda>repoName.
          let repoTargets = groupBy repoOfTarget targets repoName; r = t_repo (hd repoTargets) in
          case shaOf repoName r of
            None \<Rightarrow> None
          | Some sha \<Rightarrow> Some (forcedEvent src repoName (repo_branch r) sha repoTargets redeploy))
       (firsts (map repoOfTarget targets))"

definition reconcileAdditions ::
  "(gostring \<Rightarrow> gostring \<Rightarrow> gostring option) \<Rightarrow> config \<Rightarrow> config \<Rightarrow> store \<Rightarrow> repo_event list" where
  "reconcileAdditions getMirrorHead oldConfig newConfig st =
     (case st of
        None \<Rightarrow> []
      | Some (dp, d) \<Rightarrow>
          eventsPerRepo (headSha getMirrorHead dp d) TriggerReconcileAddition False
            (findAddedDeployTargets oldConfig newConfig))"

section \<open>Changes\<close>

definition deployConfigChanged :: "project \<Rightarrow> project \<Rightarrow> bool" where
  "deployConfigChanged op np \<longleftrightarrow>
     proj_repo_subdir op \<noteq> proj_repo_subdir np \<or> proj_deploy_subdir op \<noteq> proj_deploy_subdir np
     \<or> proj_compose_files op \<noteq> proj_compose_files np \<or> proj_extra_files op \<noteq> proj_extra_files np
     \<or> sliceElems (proj_persist_files op) \<noteq> sliceElems (proj_persist_files np)"

definition hostConfigChanged :: "host \<Rightarrow> host \<Rightarrow> bool" where
  "hostConfigChanged oh nh \<longleftrightarrow>
     host_address oh \<noteq> host_address nh \<or> host_deploy_dir oh \<noteq> host_deploy_dir nh
     \<or> host_user oh \<noteq> host_user nh \<or> host_port oh \<noteq> host_port nh"

fun changedOn ::
  "(gostring \<rightharpoonup> host) \<Rightarrow> (gostring \<rightharpoonup> host) \<Rightarrow> project \<Rightarrow> project \<Rightarrow> repo_config \<Rightarrow> gostring list \<Rightarrow> deploy_target list" where
  "changedOn oldHosts newHosts op np r [] = []"
| "changedOn oldHosts newHosts op np r (hostName # ns) =
     (if hostName \<notin> set (proj_targets op) then changedOn oldHosts newHosts op np r ns
      else (case newHosts hostName of
              None \<Rightarrow> changedOn oldHosts newHosts op np r ns
            | Some h \<Rightarrow>
                (let hostChanged = (case oldHosts hostName of None \<Rightarrow> False | Some oh \<Rightarrow> hostConfigChanged oh h) in
                 if \<not> deployConfigChanged op np \<and> \<not> hostChanged
                 then changedOn oldHosts newHosts op np r ns
                 else \<lparr>t_project = np, t_host = h, t_repo = r\<rparr> # changedOn oldHosts newHosts op np r ns)))"

definition changedTargets :: "config \<Rightarrow> config \<Rightarrow> deploy_target list" where
  "changedTargets oldConfig newConfig =
     concat (map (\<lambda>np.
       case projectIndex oldConfig (proj_name np) of
         None \<Rightarrow> []
       | Some op \<Rightarrow>
           (case repoIndex newConfig (proj_repo np) of
              None \<Rightarrow> []
            | Some r \<Rightarrow> changedOn (hostIndex oldConfig) (hostIndex newConfig) op np r (proj_targets np)))
       (cfg_projects newConfig))"

definition reconcileProjectChanges :: "config \<Rightarrow> config \<Rightarrow> store \<Rightarrow> repo_event list" where
  "reconcileProjectChanges oldConfig newConfig st =
     (case st of
        None \<Rightarrow> []
      | Some (dp, d) \<Rightarrow>
          eventsPerRepo (\<lambda>repoName r. lastDeployedSha dp d repoName (repo_branch r))
            TriggerReconcileProjectChange True (changedTargets oldConfig newConfig))"

end
