(* ===== verification/Engine_Reconcile_Laws.thy ===== *)
theory Engine_Reconcile_Laws
  imports Engine_Reconcile
begin

text \<open>
  Correctness of reconciliation: teardowns are exactly the deployments the new configuration does not
  want where they are, every desired target is unchanged, added or changed, a moved target is both
  removed and redeployed, and a removal re-checks the configuration of the moment it runs.
\<close>

section \<open>Desired directories and targets\<close>

lemma hostIndex_find: "wfConfig c \<Longrightarrow> List.find (\<lambda>h. host_name h = n) (cfg_hosts c) = hostIndex c n"
  unfolding hostIndex_def by (rule find_Some_iff_indexBy) (rule wfConfigD(1))

lemma projectIndex_find: "wfConfig c \<Longrightarrow> List.find (\<lambda>p. proj_name p = n) (cfg_projects c) = projectIndex c n"
  unfolding projectIndex_def by (rule find_Some_iff_indexBy) (rule wfConfigD(3))

lemma projectIndex_mem: "\<lbrakk>wfConfig c; p \<in> set (cfg_projects c)\<rbrakk> \<Longrightarrow> projectIndex c (proj_name p) = Some p"
  unfolding projectIndex_def by (rule indexBy_mem) (auto dest: wfConfigD(3))

lemma projectIndex_SomeD: "projectIndex c n = Some p \<Longrightarrow> p \<in> set (cfg_projects c) \<and> proj_name p = n"
  unfolding projectIndex_def by (rule indexBy_SomeD)

lemma hostIndex_mem: "\<lbrakk>wfConfig c; h \<in> set (cfg_hosts c)\<rbrakk> \<Longrightarrow> hostIndex c (host_name h) = Some h"
  unfolding hostIndex_def by (rule indexBy_mem) (auto dest: wfConfigD(1))

lemma hostIndex_SomeD: "hostIndex c n = Some h \<Longrightarrow> h \<in> set (cfg_hosts c) \<and> host_name h = n"
  unfolding hostIndex_def by (rule indexBy_SomeD)

lemma wf_hostIndex:
  assumes "wfConfig c" "p \<in> set (cfg_projects c)" "n \<in> set (proj_targets p)"
  obtains h where "hostIndex c n = Some h" "h \<in> set (cfg_hosts c)" "host_name h = n"
proof -
  have "n \<in> host_name ` set (cfg_hosts c)"
    using wfConfigD(4) [OF assms(1,2)] assms(3) by (auto simp: wfProject_def)
  then show ?thesis using hostIndex_mem [OF assms(1)] that by auto
qed

lemma wf_repoIndex:
  assumes "wfConfig c" "p \<in> set (cfg_projects c)"
  obtains r where "repoIndex c (proj_repo p) = Some r"
proof -
  have "proj_repo p \<in> dom (repoIndex c)"
    using wfConfigD(4) [OF assms] by (simp add: wfProject_def repoIndex_def del: domIff)
  then show ?thesis using that by blast
qed

lemma desired_iff:
  assumes wf: "wfConfig c"
  shows "desiredRemoteDir (Some c) p h = Some dir \<longleftrightarrow>
    (\<exists>t\<in>set (allTargets c). proj_name (t_project t) = p \<and> host_name (t_host t) = h \<and> remoteDirOf (t_host t) (t_project t) = dir)"
proof
  assume "desiredRemoteDir (Some c) p h = Some dir"
  then obtain pr ho where pr: "projectIndex c p = Some pr" "h \<in> set (proj_targets pr)" "hostIndex c h = Some ho"
    "dir = pathJoin [host_deploy_dir ho, proj_deploy_subdir pr]"
    by (auto simp: desiredRemoteDir_def projectIndex_find [OF wf] hostIndex_find [OF wf] split: option.splits if_splits)
  note d = projectIndex_SomeD [OF pr(1)] hostIndex_SomeD [OF pr(3)]
  obtain r where "repoIndex c (proj_repo pr) = Some r" using wf_repoIndex [OF wf] d by blast
  then show "\<exists>t\<in>set (allTargets c). proj_name (t_project t) = p \<and> host_name (t_host t) = h \<and> remoteDirOf (t_host t) (t_project t) = dir"
    using pr d by (intro bexI [where x = "\<lparr>t_project = pr, t_host = ho, t_repo = r\<rparr>"])
      (auto simp: remoteDirOf_def allTargets_iff)
next
  assume "\<exists>t\<in>set (allTargets c). proj_name (t_project t) = p \<and> host_name (t_host t) = h \<and> remoteDirOf (t_host t) (t_project t) = dir"
  then obtain t where t: "t \<in> set (allTargets c)" "proj_name (t_project t) = p" "host_name (t_host t) = h"
    "remoteDirOf (t_host t) (t_project t) = dir" by blast
  have "projectIndex c p = Some (t_project t)" "hostIndex c h = Some (t_host t)"
    using t projectIndex_mem [OF wf] hostIndex_mem [OF wf] allTargets_host [OF t(1)]
    by (auto simp: allTargets_iff)
  then show "desiredRemoteDir (Some c) p h = Some dir"
    using t allTargets_host [OF t(1)]
    by (simp add: desiredRemoteDir_def projectIndex_find [OF wf] hostIndex_find [OF wf] remoteDirOf_def)
qed

lemma desired_index:
  "wfConfig c \<Longrightarrow> desiredRemoteDir (Some c) p h =
     (case projectIndex c p of None \<Rightarrow> None
      | Some pr \<Rightarrow> if h \<notin> set (proj_targets pr) then None
          else map_option (\<lambda>ho. pathJoin [host_deploy_dir ho, proj_deploy_subdir pr]) (hostIndex c h))"
  by (simp add: desiredRemoteDir_def projectIndex_find hostIndex_find split: option.split)

lemma targetDesired_iff:
  assumes wf: "wfConfig c"
  shows "targetDesired (Some c) p h \<longleftrightarrow> (\<exists>pr. projectIndex c p = Some pr \<and> h \<in> set (proj_targets pr))"
proof -
  have "hostIndex c h \<noteq> None" if "projectIndex c p = Some pr" "h \<in> set (proj_targets pr)" for pr
    using wf_hostIndex [OF wf, of pr h] projectIndex_SomeD [OF that(1)] that(2) by auto
  then show ?thesis
    by (auto simp: targetDesired_def desired_index [OF wf] split: option.splits)
qed

section \<open>Teardowns\<close>

lemma teardownsOf_iff:
  assumes wf: "wfConfig n"
  shows "t \<in> set (teardownsOf oh (hostIndex n) (projectIndex n (proj_name op)) op ns) \<longleftrightarrow>
    (\<exists>hn\<in>set ns. oh hn = Some (td_host t) \<and> td_project_name t = proj_name op
       \<and> td_remote_dir t = pathJoin [host_deploy_dir (td_host t), proj_deploy_subdir op]
       \<and> td_compose_files t = proj_compose_files op
       \<and> td_remove_state t = (\<not> targetDesired (Some n) (proj_name op) hn)
       \<and> desiredRemoteDir (Some n) (proj_name op) hn \<noteq> Some (td_remote_dir t))"
proof (induction ns)
  case (Cons hn ns)
  show ?case
  proof (cases "oh hn")
    case None
    with Cons show ?thesis by simp
  next
    case (Some h)
    have s: "(case projectIndex n (proj_name op) of None \<Rightarrow> False | Some np \<Rightarrow> hn \<in> set (proj_targets np))
        = targetDesired (Some n) (proj_name op) hn"
      by (auto simp: targetDesired_iff [OF wf] split: option.splits)
    have l: "sameLocation (hostIndex n) (projectIndex n (proj_name op)) hn dir \<longleftrightarrow>
        desiredRemoteDir (Some n) (proj_name op) hn = Some dir" for dir
      by (auto simp: sameLocation_def desired_index [OF wf] split: option.splits)
    have d: "desiredRemoteDir (Some n) (proj_name op) hn = Some dir \<Longrightarrow> targetDesired (Some n) (proj_name op) hn" for dir
      by (simp add: targetDesired_def)
    show ?thesis
      unfolding teardownsOf.simps Some option.case Let_def s l
      by (cases t) (use Cons d in \<open>auto simp: Some\<close>)
  qed
qed simp

lemma findTeardownTargets_iff:
  assumes "wfConfig n"
  shows "t \<in> set (findTeardownTargets c n) \<longleftrightarrow>
    (\<exists>op\<in>set (cfg_projects c). \<exists>hn\<in>set (proj_targets op). hostIndex c hn = Some (td_host t)
       \<and> td_project_name t = proj_name op
       \<and> td_remote_dir t = pathJoin [host_deploy_dir (td_host t), proj_deploy_subdir op]
       \<and> td_compose_files t = proj_compose_files op
       \<and> td_remove_state t = (\<not> targetDesired (Some n) (proj_name op) hn)
       \<and> desiredRemoteDir (Some n) (proj_name op) hn \<noteq> Some (td_remote_dir t))"
  by (simp add: findTeardownTargets_def teardownsOf_iff [OF assms])

text \<open>
  Teardowns are exact: between two well-formed configurations the targets to tear down are those of
  the old configuration whose directory the new one does not want for the same project and host, each
  with its old directory and compose files, and its state is removed exactly when the new
  configuration does not want the pair at all.
\<close>

theorem findTeardownTargets_exact:
  assumes o: "wfConfig c" and n: "wfConfig n"
  shows "(\<exists>t\<in>set (findTeardownTargets c n). td_project_name t = p \<and> host_name (td_host t) = h
            \<and> td_remote_dir t = dir \<and> td_remove_state t = rem) \<longleftrightarrow>
     desiredRemoteDir (Some c) p h = Some dir \<and> desiredRemoteDir (Some n) p h \<noteq> Some dir
     \<and> rem = (\<not> targetDesired (Some n) p h)"
proof
  assume "\<exists>t\<in>set (findTeardownTargets c n). td_project_name t = p \<and> host_name (td_host t) = h
            \<and> td_remote_dir t = dir \<and> td_remove_state t = rem"
  then obtain t where t: "td_project_name t = p" "host_name (td_host t) = h" "td_remote_dir t = dir" "td_remove_state t = rem"
    and mem: "t \<in> set (findTeardownTargets c n)"
    by blast
  from mem obtain op hn where op: "op \<in> set (cfg_projects c)" "hn \<in> set (proj_targets op)" "hostIndex c hn = Some (td_host t)"
      "td_project_name t = proj_name op" "td_remote_dir t = pathJoin [host_deploy_dir (td_host t), proj_deploy_subdir op]"
      "td_remove_state t = (\<not> targetDesired (Some n) (proj_name op) hn)"
      "desiredRemoteDir (Some n) (proj_name op) hn \<noteq> Some (td_remote_dir t)"
    unfolding findTeardownTargets_iff [OF n] by blast
  have "hn = h" using hostIndex_SomeD [OF op(3)] t by simp
  then show "desiredRemoteDir (Some c) p h = Some dir \<and> desiredRemoteDir (Some n) p h \<noteq> Some dir
     \<and> rem = (\<not> targetDesired (Some n) p h)"
    using op t projectIndex_mem [OF o op(1)] by (auto simp: desired_index [OF o])
next
  assume a: "desiredRemoteDir (Some c) p h = Some dir \<and> desiredRemoteDir (Some n) p h \<noteq> Some dir
     \<and> rem = (\<not> targetDesired (Some n) p h)"
  then obtain pr ho where pr: "projectIndex c p = Some pr" "h \<in> set (proj_targets pr)" "hostIndex c h = Some ho"
    "dir = pathJoin [host_deploy_dir ho, proj_deploy_subdir pr]"
    by (auto simp: desired_index [OF o] split: option.splits if_splits)
  then show "\<exists>t\<in>set (findTeardownTargets c n). td_project_name t = p \<and> host_name (td_host t) = h
            \<and> td_remote_dir t = dir \<and> td_remove_state t = rem"
    using a projectIndex_SomeD [OF pr(1)] hostIndex_SomeD [OF pr(3)]
    by (intro bexI [where x = "\<lparr>td_project_name = p, td_host = ho, td_remote_dir = dir,
          td_compose_files = proj_compose_files pr, td_remove_state = rem\<rparr>"])
       (auto simp: findTeardownTargets_iff [OF n])
qed

lemma findTeardownTargets_exact_witness:
  "\<exists>t\<in>set (findTeardownTargets demoConfig (demoConfig\<lparr>cfg_projects := []\<rparr>)).
      td_project_name t = ''web'' \<and> host_name (td_host t) = ''h1'' \<and> td_remote_dir t = ''/srv/web'' \<and> td_remove_state t"
proof -
  have n: "wfConfig (demoConfig\<lparr>cfg_projects := []\<rparr>)" by code_simp
  have "desiredRemoteDir (Some demoConfig) ''web'' ''h1'' = Some ''/srv/web''" by code_simp
  moreover have "desiredRemoteDir (Some (demoConfig\<lparr>cfg_projects := []\<rparr>)) ''web'' ''h1'' = None" by code_simp
  ultimately show ?thesis
    using findTeardownTargets_exact [OF demoConfig_wf n, of "''web''" "''h1''" "''/srv/web''" True]
    by (auto simp: targetDesired_def)
qed

section \<open>Additions and changes\<close>

lemma changedOn_iff:
  "t \<in> set (changedOn oh nh op np r ns) \<longleftrightarrow>
    (\<exists>hn\<in>set ns. hn \<in> set (proj_targets op) \<and> nh hn = Some (t_host t) \<and> t_project t = np \<and> t_repo t = r
       \<and> (deployConfigChanged op np \<or> (\<exists>o1. oh hn = Some o1 \<and> hostConfigChanged o1 (t_host t))))"
proof (induction ns)
  case (Cons hn ns)
  then show ?case
    by (cases t; cases "nh hn"; cases "oh hn") auto
qed simp

text \<open>Everything of a target that a deployment uses, the repository aside.\<close>

definition deployInputs where
  "deployInputs p h = ((proj_repo_subdir p, proj_deploy_subdir p, proj_compose_files p, proj_extra_files p,
      sliceElems (proj_persist_files p)), (host_address h, host_deploy_dir h, host_user h, host_port h))"

lemma deployInputs_neq:
  "deployInputs op oh \<noteq> deployInputs np nh \<longleftrightarrow> deployConfigChanged op np \<or> hostConfigChanged oh nh"
  by (auto simp: deployInputs_def deployConfigChanged_def hostConfigChanged_def)

lemma changedTargets_iff:
  assumes c: "wfConfig c" and n: "wfConfig n" and t: "t \<in> set (allTargets n)"
  shows "t \<in> set (changedTargets c n) \<longleftrightarrow>
    (\<exists>op oh. projectIndex c (proj_name (t_project t)) = Some op \<and> host_name (t_host t) \<in> set (proj_targets op)
       \<and> hostIndex c (host_name (t_host t)) = Some oh \<and> deployInputs op oh \<noteq> deployInputs (t_project t) (t_host t))"
    (is "?l \<longleftrightarrow> (\<exists>op oh. ?r op oh)")
proof
  assume ?l
  then obtain np op r where np: "np \<in> set (cfg_projects n)" "projectIndex c (proj_name np) = Some op"
    "t \<in> set (changedOn (hostIndex c) (hostIndex n) op np r (proj_targets np))"
    unfolding changedTargets_def by (auto split: option.splits simp: eq_commute [of "Some _"])
  from np(3) obtain hn where hn: "hn \<in> set (proj_targets op)" "hostIndex n hn = Some (t_host t)" "t_project t = np"
    "deployConfigChanged op np \<or> (\<exists>o1. hostIndex c hn = Some o1 \<and> hostConfigChanged o1 (t_host t))"
    unfolding changedOn_iff by blast
  have name: "host_name (t_host t) = hn" using hostIndex_SomeD [OF hn(2)] by simp
  obtain oh where "hostIndex c hn = Some oh"
    using wf_hostIndex [OF c _ hn(1)] projectIndex_SomeD [OF np(2)] by blast
  then have "?r op oh" using np hn name by (auto simp: deployInputs_neq)
  then show "\<exists>op oh. ?r op oh" by blast
next
  assume "\<exists>op oh. ?r op oh"
  then obtain op oh where r: "?r op oh" by blast
  have mem: "t_project t \<in> set (cfg_projects n)" "repoIndex n (proj_repo (t_project t)) = Some (t_repo t)"
    using t by (auto simp: allTargets_iff)
  have hs: "host_name (t_host t) \<in> set (proj_targets (t_project t))" "hostIndex n (host_name (t_host t)) = Some (t_host t)"
    using allTargets_host [OF t] hostIndex_mem [OF n] by auto
  have "t \<in> set (changedOn (hostIndex c) (hostIndex n) op (t_project t) (t_repo t) (proj_targets (t_project t)))"
    unfolding changedOn_iff using r hs by (intro bexI [OF _ hs(1)]) (auto simp: deployInputs_neq)
  then show ?l
    unfolding changedTargets_def set_concat set_map
    using mem r by (intro UN_I [OF imageI [OF mem(1)]]) simp
qed

lemma configPairs_iff: "wfConfig c \<Longrightarrow> (p, h) \<in> configPairs c \<longleftrightarrow> targetDesired (Some c) p h"
  unfolding targetDesired_iff configPairs_def by (auto dest: projectIndex_mem projectIndex_SomeD)

text \<open>
  C7. A configuration change redeploys exactly what it changes: between two well-formed configurations,
  a target of the new one is an addition iff the old one did not want its project on its host, and a
  changed target iff the old one did with another subdirectory, file list, persisted file, address,
  directory, user or port; no other target is selected by either, and none by both. A target whose old
  directory is torn down because it moved (its state is kept) is among the changed targets.
\<close>

theorem reconcile_targets_exact:
  assumes "wfConfig c" and "wfConfig n" and "t \<in> set (allTargets n)"
    and "p = proj_name (t_project t)" and "h = host_name (t_host t)"
  shows "(t \<in> set (findAddedDeployTargets c n) \<longleftrightarrow> desiredRemoteDir (Some c) p h = None)
    \<and> (t \<in> set (changedTargets c n) \<longleftrightarrow>
         (\<exists>s\<in>set (allTargets c). proj_name (t_project s) = p \<and> host_name (t_host s) = h
            \<and> deployInputs (t_project s) (t_host s) \<noteq> deployInputs (t_project t) (t_host t)))
    \<and> \<not> (t \<in> set (findAddedDeployTargets c n) \<and> t \<in> set (changedTargets c n))
    \<and> (\<forall>d\<in>set (findTeardownTargets c n). td_project_name d = p \<and> host_name (td_host d) = h \<and> \<not> td_remove_state d
         \<longrightarrow> t \<in> set (changedTargets c n))"
proof -
  note c = assms(1) note n = assms(2) note t = assms(3) note ph = assms(4,5)
  have add: "t \<in> set (findAddedDeployTargets c n) \<longleftrightarrow> \<not> targetDesired (Some c) p h"
    using t ph configPairs_iff [OF c] by (auto simp: findAddedDeployTargets_def)
  have "(\<exists>op oh. projectIndex c p = Some op \<and> h \<in> set (proj_targets op) \<and> hostIndex c h = Some oh
          \<and> deployInputs op oh \<noteq> deployInputs (t_project t) (t_host t)) \<longleftrightarrow>
       (\<exists>s\<in>set (allTargets c). proj_name (t_project s) = p \<and> host_name (t_host s) = h
            \<and> deployInputs (t_project s) (t_host s) \<noteq> deployInputs (t_project t) (t_host t))" (is "?a \<longleftrightarrow> ?b")
  proof
    assume ?a
    then obtain op oh where a: "projectIndex c p = Some op" "h \<in> set (proj_targets op)" "hostIndex c h = Some oh"
      "deployInputs op oh \<noteq> deployInputs (t_project t) (t_host t)" by blast
    note m = projectIndex_SomeD [OF a(1)] hostIndex_SomeD [OF a(3)]
    obtain r where "repoIndex c (proj_repo op) = Some r" using wf_repoIndex [OF c] m by blast
    then show ?b using a m by (intro bexI [where x = "\<lparr>t_project = op, t_host = oh, t_repo = r\<rparr>"]) (auto simp: allTargets_iff)
  next
    assume ?b
    then obtain s where s: "s \<in> set (allTargets c)" "proj_name (t_project s) = p" "host_name (t_host s) = h"
      "deployInputs (t_project s) (t_host s) \<noteq> deployInputs (t_project t) (t_host t)" by blast
    show ?a
      using s allTargets_host [OF s(1)] projectIndex_mem [OF c, of "t_project s"] hostIndex_mem [OF c, of "t_host s"]
      by (intro exI [where x = "t_project s"] exI [where x = "t_host s"]) (auto simp: allTargets_iff)
  qed
  then have chg: "t \<in> set (changedTargets c n) \<longleftrightarrow> ?b"
    using changedTargets_iff [OF c n t] ph by simp
  have none: "\<not> targetDesired (Some c) p h \<longleftrightarrow> desiredRemoteDir (Some c) p h = None" by (simp add: targetDesired_def)
  have "?b \<Longrightarrow> targetDesired (Some c) p h"
    by (auto simp: targetDesired_def desired_iff [OF c])
  moreover have "t \<in> set (changedTargets c n)"
    if d: "d \<in> set (findTeardownTargets c n)" "td_project_name d = p" "host_name (td_host d) = h" for d
  proof -
    from d(1) obtain op hn where op: "op \<in> set (cfg_projects c)" "hn \<in> set (proj_targets op)" "hostIndex c hn = Some (td_host d)"
      "td_project_name d = proj_name op" "td_remote_dir d = pathJoin [host_deploy_dir (td_host d), proj_deploy_subdir op]"
      "desiredRemoteDir (Some n) (proj_name op) hn \<noteq> Some (td_remote_dir d)"
      unfolding findTeardownTargets_iff [OF n] by blast
    have hn: "hn = h" using hostIndex_SomeD [OF op(3)] d by simp
    have "desiredRemoteDir (Some n) p h = Some (remoteDirOf (t_host t) (t_project t))"
      using t ph by (auto simp: desired_iff [OF n])
    then have "deployInputs op (td_host d) \<noteq> deployInputs (t_project t) (t_host t)"
      using op d(2) hn by (auto simp: deployInputs_def remoteDirOf_def)
    then show ?thesis
      using op d(2) hn projectIndex_mem [OF c op(1)] ph by (auto simp: changedTargets_iff [OF c n t])
  qed
  ultimately show ?thesis using add chg none by blast
qed

definition demoMoved :: config where
  "demoMoved = demoConfig\<lparr>cfg_projects := [demoProject\<lparr>proj_deploy_subdir := ''web2''\<rparr>]\<rparr>"

lemma reconcile_targets_exact_witness:
  "\<exists>t\<in>set (allTargets demoMoved). t \<notin> set (findAddedDeployTargets demoConfig demoMoved)
     \<and> t \<in> set (changedTargets demoConfig demoMoved)"
proof -
  have n: "wfConfig demoMoved" by code_simp
  let ?t = "demoTarget\<lparr>t_project := demoProject\<lparr>proj_deploy_subdir := ''web2''\<rparr>\<rparr>"
  have t: "?t \<in> set (allTargets demoMoved)" by code_simp
  have s: "demoTarget \<in> set (allTargets demoConfig)" by code_simp
  have k: "proj_name (t_project demoTarget) = proj_name (t_project ?t)" "host_name (t_host demoTarget) = host_name (t_host ?t)"
    by code_simp+
  have "deployInputs (t_project demoTarget) (t_host demoTarget) \<noteq> deployInputs (t_project ?t) (t_host ?t)" by code_simp
  then show ?thesis
    using reconcile_targets_exact [OF demoConfig_wf n t refl refl] s t k by blast
qed

section \<open>Removals\<close>

lemma teardown_calls:
  fixes io :: "'w eng_io"
  assumes "teardown io env t w = ((err, calls), w')"
  obtains (unreached) e where "err = Some e" "calls = []"
    | (down_failed) e where "err = Some e" "calls = [RunCall (ComposeDown (td_remote_dir t) (td_compose_files t)) False]"
    | (down) b where "calls = [RunCall (ComposeDown (td_remote_dir t) (td_compose_files t)) True,
        RunCall (Cleanup (td_remote_dir t)) b]" "err = None \<longleftrightarrow> b"
proof -
  obtain d w1 where d: "eo_dial io (dialConfigFor env (td_host t)) w = (d, w1)" by (rule prod.exhaust)
  show thesis
  proof (cases d)
    case (Inl e)
    with d assms show thesis by (intro unreached) (auto simp: teardown_def)
  next
    case (Inr conn)
    let ?ex = "newExecutor (td_remote_dir t) (td_project_name t)"
    obtain out s2 where r: "runCmd conn ?ex (ComposeDown (td_remote_dir t) (td_compose_files t)) (w1, []) = (out, s2)"
      by (rule prod.exhaust)
    obtain out2 s3 where r2: "runCmd conn ?ex (Cleanup (td_remote_dir t)) s2 = (out2, s3)" by (rule prod.exhaust)
    have dir: "ex_remote_dir ?ex = td_remote_dir t" by (simp add: newExecutor_def)
    note l = runCmd_log [OF r] runCmd_log [OF r2]
    show thesis
    proof (cases "out_err out")
      case None
      then show thesis using assms l d Inr r r2 dir
        by (intro down [of "out_err out2 = None"])
           (auto simp: teardown_def composeDown_def Let_def split: prod.splits option.splits)
    next
      case (Some e)
      then show thesis using assms l d Inr r dir
        by (intro down_failed) (auto simp: teardown_def composeDown_def Let_def split: prod.splits)
    qed
  qed
qed

text \<open>
  C8. A queued removal does not destroy the project's own directory once it is wanted again: run when the
  configuration of that moment has the project on the host in the very directory of the removal, the
  job makes no remote call and changes nothing. Otherwise it stops the services before it deletes the
  directory, deletes only its own directory and only after the services were stopped, and the record of
  the latest deployment is dropped exactly when the pair was removed and both steps succeeded. The
  protection goes by the names of the project and the host: a directory that is deleted, if the
  configuration wants it on that host at all, is wanted under the name of another project.
\<close>

theorem removalJob_safe:
  assumes "removalJob io env dp cfg t s = ((err, calls), s')"
    and "p = td_project_name t" and "h = host_name (td_host t)"
  shows "(desiredRemoteDir cfg p h = Some (td_remote_dir t) \<longrightarrow> err = None \<and> calls = [] \<and> s' = s)
    \<and> (\<forall>dir ok. RunCall (Cleanup dir) ok \<in> set calls \<longrightarrow>
          dir = td_remote_dir t \<and> hd calls = RunCall (ComposeDown dir (td_compose_files t)) True
          \<and> (\<forall>q. desiredRemoteDir cfg q h = Some dir \<longrightarrow> q \<noteq> p))
    \<and> (desiredRemoteDir cfg p h \<noteq> Some (td_remote_dir t) \<longrightarrow>
         (err = None \<longleftrightarrow> calls = [RunCall (ComposeDown (td_remote_dir t) (td_compose_files t)) True,
                                 RunCall (Cleanup (td_remote_dir t)) True])
         \<and> en_disk s' = (if err = None \<and> td_remove_state t
                         then snd (deleteLatestDeployment dp p h (en_disk s)) else en_disk s))"
proof (cases "desiredRemoteDir cfg p h = Some (td_remote_dir t)")
  case True
  then show ?thesis using assms by (simp add: removalJob_def)
next
  case False
  obtain e' calls' w' where td: "teardown io env t (en_world s) = ((e', calls'), w')" by (metis prod.exhaust)
  have j: "err = e'" "calls = calls'"
    "en_disk s' = (if err = None \<and> td_remove_state t then snd (deleteLatestDeployment dp p h (en_disk s)) else en_disk s)"
    using assms False td by (auto simp: removalJob_def split: option.splits)
  from td show ?thesis
    by (cases rule: teardown_calls) (use False j in auto)
qed

definition demoTeardown :: teardown_target where
  "demoTeardown = \<lparr>td_project_name = ''web'', td_host = demoHost, td_remote_dir = ''/srv/web'',
     td_compose_files = [''compose.yml''], td_remove_state = True\<rparr>"

lemma removalJob_safe_witness:
  "removalJob demoIO demoEnv ''/data'' (Some demoConfig) demoTeardown \<lparr>en_world = (), en_disk = emptyDisk\<rparr>
     = ((None, []), \<lparr>en_world = (), en_disk = emptyDisk\<rparr>)"
proof -
  let ?s = "\<lparr>en_world = (), en_disk = emptyDisk\<rparr>"
  obtain err calls s' where r: "removalJob demoIO demoEnv ''/data'' (Some demoConfig) demoTeardown ?s = ((err, calls), s')"
    by (metis prod.exhaust)
  have "desiredRemoteDir (Some demoConfig) (td_project_name demoTeardown) (host_name (td_host demoTeardown))
     = Some (td_remote_dir demoTeardown)" by code_simp
  with removalJob_safe [OF r refl refl] r show ?thesis by blast
qed

text \<open>
  What is not protected: a project renamed in the configuration with the same directory on the host. The
  removal of the old name deletes the directory that the new name wants.
\<close>

definition renamedConfig :: config where
  "renamedConfig = demoConfig\<lparr>cfg_projects := [demoProject\<lparr>proj_name := ''web2''\<rparr>]\<rparr>"

lemma rename_removes_wanted_directory:
  "map (\<lambda>t. (td_project_name t, td_remote_dir t)) (findTeardownTargets demoConfig renamedConfig) = [(''web'', ''/srv/web'')]
   \<and> desiredRemoteDir (Some renamedConfig) ''web2'' ''h1'' = Some ''/srv/web''
   \<and> fst (removalJob demoIO demoEnv ''/data'' (Some renamedConfig) (hd (findTeardownTargets demoConfig renamedConfig))
        \<lparr>en_world = (), en_disk = emptyDisk\<rparr>)
     = (None, [RunCall (ComposeDown ''/srv/web'' [''compose.yml'']) True, RunCall (Cleanup ''/srv/web'') True])"
proof (intro conjI)
  let ?s = "\<lparr>en_world = (), en_disk = emptyDisk\<rparr>"
  let ?t = "hd (findTeardownTargets demoConfig renamedConfig)"
  show "map (\<lambda>t. (td_project_name t, td_remote_dir t)) (findTeardownTargets demoConfig renamedConfig) = [(''web'', ''/srv/web'')]"
    by code_simp
  show "desiredRemoteDir (Some renamedConfig) ''web2'' ''h1'' = Some ''/srv/web''" by code_simp
  have w: "desiredRemoteDir (Some renamedConfig) (td_project_name ?t) (host_name (td_host ?t)) \<noteq> Some (td_remote_dir ?t)"
    "td_remote_dir ?t = ''/srv/web''" "td_compose_files ?t = [''compose.yml'']" by code_simp+
  have t: "fst (fst (teardown demoIO demoEnv ?t ())) = None" by code_simp
  then have c: "snd (fst (teardown demoIO demoEnv ?t ())) =
      [RunCall (ComposeDown (td_remote_dir ?t) (td_compose_files ?t)) True, RunCall (Cleanup (td_remote_dir ?t)) True]"
    by (cases "teardown demoIO demoEnv ?t ()" rule: prod.exhaust; cases "fst (teardown demoIO demoEnv ?t ())")
       (auto elim!: teardown_calls)
  show "fst (removalJob demoIO demoEnv ''/data'' (Some renamedConfig) ?t ?s)
     = (None, [RunCall (ComposeDown ''/srv/web'' [''compose.yml'']) True, RunCall (Cleanup ''/srv/web'') True])"
    using t c w by (cases "teardown demoIO demoEnv ?t ()"; cases "fst (teardown demoIO demoEnv ?t ())") (simp add: removalJob_def)
qed

section \<open>One event per repository\<close>

lemma eventsPerRepo_mem:
  "ev \<in> set (eventsPerRepo shaOf src rd ts) \<longleftrightarrow>
    (\<exists>t\<in>set ts. \<exists>sha. let g = filter (\<lambda>u. repoOfTarget u = repoOfTarget t) ts in
       shaOf (repoOfTarget t) (t_repo (hd g)) = Some sha
       \<and> ev = forcedEvent src (repoOfTarget t) (repo_branch (t_repo (hd g))) sha g rd)"
  unfolding eventsPerRepo_def List.map_filter_def
  by (auto simp: groupBy_filter Let_def image_iff split: option.splits) (metis option.distinct(1))+

lemma plan_forcedEvent: "ts \<noteq> [] \<Longrightarrow> plan c (forcedEvent src r b sha ts rd) = ts"
  by (cases ts) (simp_all add: plan_def forcedEvent_def)

lemma forcedEvent_sha [simp]: "ev_commit_sha (forcedEvent src r b sha ts rd) = sha"
  by (simp add: forcedEvent_def)

lemma events_plan:
  assumes same: "\<And>t u. \<lbrakk>t \<in> set ts; u \<in> set ts; repoOfTarget t = repoOfTarget u\<rbrakk> \<Longrightarrow> t_repo t = t_repo u"
  shows "(\<exists>ev\<in>set (eventsPerRepo shaOf src rd ts). t \<in> set (plan c ev) \<and> ev_commit_sha ev = sha) \<longleftrightarrow>
    t \<in> set ts \<and> shaOf (repoOfTarget t) (t_repo t) = Some sha" (is "?l \<longleftrightarrow> ?r")
proof -
  let ?g = "\<lambda>t. filter (\<lambda>u. repoOfTarget u = repoOfTarget t) ts"
  have hd: "?g u \<noteq> [] \<and> t_repo (hd (?g u)) = t_repo u" if "u \<in> set ts" for u
  proof
    show ne: "?g u \<noteq> []" using that by (auto simp: filter_empty_conv)
    then have "hd (?g u) \<in> set (?g u)" by (rule hd_in_set)
    then have "hd (?g u) \<in> set ts \<and> repoOfTarget (hd (?g u)) = repoOfTarget u" unfolding set_filter by blast
    then show "t_repo (hd (?g u)) = t_repo u" using same that by blast
  qed
  show ?thesis
  proof
    assume ?l
    then obtain ev where ev: "ev \<in> set (eventsPerRepo shaOf src rd ts)" "t \<in> set (plan c ev)" "ev_commit_sha ev = sha"
      by blast
    from ev(1) obtain u sha' where u: "u \<in> set ts" "shaOf (repoOfTarget u) (t_repo (hd (?g u))) = Some sha'"
      "ev = forcedEvent src (repoOfTarget u) (repo_branch (t_repo (hd (?g u)))) sha' (?g u) rd"
      unfolding eventsPerRepo_mem Let_def by blast
    have "t \<in> set (?g u)" using ev(2) u(3) hd [OF u(1)] by (simp add: plan_forcedEvent)
    then have "t \<in> set ts" "repoOfTarget t = repoOfTarget u" by auto
    then show ?r using u ev(3) hd [OF u(1)] same [OF _ u(1), of t] by (simp add: forcedEvent_def)
  next
    assume r: ?r
    let ?ev = "forcedEvent src (repoOfTarget t) (repo_branch (t_repo (hd (?g t)))) sha (?g t) rd"
    have h: "?g t \<noteq> []" "t_repo (hd (?g t)) = t_repo t" using hd r by blast+
    have "?ev \<in> set (eventsPerRepo shaOf src rd ts)"
      unfolding eventsPerRepo_mem Let_def using r h by (intro bexI [of _ t] exI [of _ sha]) auto
    then show ?l using r h by (intro bexI [of _ ?ev]) (simp_all add: plan_forcedEvent)
  qed
qed

lemma same_repo_sub:
  assumes "\<And>t. t \<in> set ts \<Longrightarrow> repoIndex c (proj_repo (t_project t)) = Some (t_repo t)"
    and "t \<in> set ts" "u \<in> set ts" "repoOfTarget t = repoOfTarget u"
  shows "t_repo t = t_repo u"
proof -
  have "repoIndex c (repoOfTarget v) = Some (t_repo v)" if "v \<in> set ts" for v
    using assms(1) [OF that] indexBy_SomeD [of repo_name "cfg_repos c" "proj_repo (t_project v)" "t_repo v"]
    by (simp add: repoOfTarget_def repoIndex_def)
  then show ?thesis using assms(2-4) by (metis option.inject)
qed

lemma added_repo: "t \<in> set (findAddedDeployTargets c n) \<Longrightarrow> repoIndex n (proj_repo (t_project t)) = Some (t_repo t)"
  by (auto simp: findAddedDeployTargets_def allTargets_iff)

lemma changed_repo: "t \<in> set (changedTargets c n) \<Longrightarrow> repoIndex n (proj_repo (t_project t)) = Some (t_repo t)"
  by (auto simp: changedTargets_def changedOn_iff split: option.splits)

text \<open>
  C32. What reconciliation dispatches is what the planner then deploys: a target comes out of the plan of
  some addition event at a commit iff it is an addition and that commit is the head the mirror knows
  (or else the last one deployed) of its repository and branch; and out of a change event iff it is a
  changed target and that commit is the last one deployed. Without a known commit nothing is deployed.
\<close>

theorem reconcile_events_exact:
  "((\<exists>ev\<in>set (reconcileAdditions gm c n (Some (dp, d))). t \<in> set (plan n ev) \<and> ev_commit_sha ev = sha) \<longleftrightarrow>
      t \<in> set (findAddedDeployTargets c n) \<and> headSha gm dp d (repo_name (t_repo t)) (t_repo t) = Some sha)
   \<and> ((\<exists>ev\<in>set (reconcileProjectChanges c n (Some (dp, d))). t \<in> set (plan n ev) \<and> ev_commit_sha ev = sha) \<longleftrightarrow>
      t \<in> set (changedTargets c n) \<and> lastDeployedSha dp d (repo_name (t_repo t)) (repo_branch (t_repo t)) = Some sha)"
  unfolding reconcileAdditions_def reconcileProjectChanges_def option.case prod.case
  by (subst events_plan, rule same_repo_sub [OF added_repo], assumption+)
     (subst events_plan, rule same_repo_sub [OF changed_repo], assumption+, simp add: repoOfTarget_def)

end
