(* ===== verification/Webhook.thy ===== *)
theory Webhook
  imports Go_Strings Prelude
begin

text \<open>
  GitHub push webhooks (\<open>internal/webhook/webhook.go\<close>, \<open>internal/webhook/github\<close>): the ring of
  recent delivery ids with its refinement of a bounded memory, the payload, and the HTTP handler.
  HMAC-SHA256 and the JSON decoder are parameters; the mutex of the ring makes each \<open>Seen\<close> one step.
\<close>

section \<open>The delivery cache\<close>

record dedupe_cache =
  dc_seen :: "gostring list" \<comment> \<open>the keys of the map\<close>
  dc_ring :: "gostring list"
  dc_head :: nat
  dc_capacity :: nat

definition defaultDedupeSize :: nat where "defaultDedupeSize = 1000"

definition newDedupeCache :: "int \<Rightarrow> dedupe_cache" where
  "newDedupeCache capacity =
     (let n = (if capacity \<le> 0 then defaultDedupeSize else nat capacity) in
      \<lparr>dc_seen = [], dc_ring = replicate n [], dc_head = 0, dc_capacity = n\<rparr>)"

definition dedupeSeen :: "gostring \<Rightarrow> dedupe_cache \<Rightarrow> bool \<times> dedupe_cache" where
  "dedupeSeen i cache =
     (if i \<in> set (dc_seen cache) then (True, cache)
      else
        (let old = dc_ring cache ! dc_head cache;
             kept = (if old \<noteq> [] then filter (\<lambda>s. s \<noteq> old) (dc_seen cache) else dc_seen cache)
         in (False, cache\<lparr>dc_ring := (dc_ring cache)[dc_head cache := i],
                          dc_seen := i # kept,
                          dc_head := (dc_head cache + 1) mod dc_capacity cache\<rparr>)))"

text \<open>
  What the cache promises, as an interface: a memory of at most \<open>n\<close> items, the newest first. A client
  that only calls the operation sees the behaviour of that memory.
\<close>

definition remember :: "nat \<Rightarrow> 'k \<Rightarrow> 'k list \<Rightarrow> bool \<times> 'k list" where
  "remember n k h = (if k \<in> set h then (True, h) else (False, take n (k # h)))"

fun answers :: "('k \<Rightarrow> 's \<Rightarrow> bool \<times> 's) \<Rightarrow> 'k list \<Rightarrow> 's \<Rightarrow> bool list \<times> 's" where
  "answers seen [] s = ([], s)"
| "answers seen (k # ks) s =
     (case seen k s of (b, s') \<Rightarrow> (case answers seen ks s' of (bs, s'') \<Rightarrow> (b # bs, s'')))"

locale bounded_memory =
  fixes seen :: "'k \<Rightarrow> 's \<Rightarrow> bool \<times> 's"
    and size_of :: "'s \<Rightarrow> nat"
    and rel :: "'s \<Rightarrow> 'k list \<Rightarrow> bool"
    and okay :: "'k \<Rightarrow> bool"
  assumes step: "rel s h \<Longrightarrow> okay k \<Longrightarrow>
      fst (seen k s) = fst (remember (size_of s) k h) \<and> rel (snd (seen k s)) (snd (remember (size_of s) k h))
      \<and> size_of (snd (seen k s)) = size_of s"
begin

lemma answers_remember:
  assumes "rel s h" and "list_all okay ks"
  shows "fst (answers seen ks s) = fst (answers (remember (size_of s)) ks h)
    \<and> rel (snd (answers seen ks s)) (snd (answers (remember (size_of s)) ks h))
    \<and> size_of (snd (answers seen ks s)) = size_of s"
  using assms
proof (induction ks arbitrary: s h)
  case (Cons k ks)
  have st: "fst (seen k s) = fst (remember (size_of s) k h)" "rel (snd (seen k s)) (snd (remember (size_of s) k h))"
    "size_of (snd (seen k s)) = size_of s"
    using step [OF Cons.prems(1)] Cons.prems(2) by auto
  show ?case
    using Cons.IH [OF st(2)] Cons.prems(2) st(1,3) by (simp add: split_beta)
qed simp

lemma just_seen:
  assumes "rel s h" and "okay k" and "0 < size_of s"
  shows "fst (seen k (snd (seen k s)))"
proof -
  have "k \<in> set (snd (remember (size_of s) k h))"
    using assms(3) by (cases "size_of s") (auto simp: remember_def)
  then show ?thesis
    using step [OF assms(1,2)] step [OF _ assms(2), of "snd (seen k s)"] by (metis fst_conv remember_def)
qed

end

text \<open>The ring implements the memory: from the head on it holds the free slots, then the ids, oldest first.\<close>

definition ringRel :: "dedupe_cache \<Rightarrow> gostring list \<Rightarrow> bool" where
  "ringRel c h \<longleftrightarrow>
     0 < dc_capacity c \<and> length (dc_ring c) = dc_capacity c \<and> dc_head c < dc_capacity c
     \<and> length h \<le> dc_capacity c \<and> distinct h \<and> [] \<notin> set h \<and> set (dc_seen c) = set h
     \<and> rotate (dc_head c) (dc_ring c) = replicate (dc_capacity c - length h) [] @ rev h"

lemma rotate_put:
  assumes "i < length xs"
  shows "rotate (Suc i mod length xs) (xs[i := y]) = tl (rotate i xs) @ [y]" and "hd (rotate i xs) = xs ! i"
proof -
  have r: "rotate i xs = drop i xs @ take i xs" using assms by (simp add: rotate_drop_take)
  have d: "drop i xs = xs ! i # drop (Suc i) xs" using assms by (simp add: Cons_nth_drop_Suc)
  show "hd (rotate i xs) = xs ! i" using r d by simp
  have "rotate (Suc i mod length xs) (xs[i := y]) = rotate (Suc i) (xs[i := y])"
    by (metis length_list_update rotate_conv_mod)
  also have "\<dots> = rotate1 (rotate i (xs[i := y]))" by simp
  also have "rotate i (xs[i := y]) = y # drop (Suc i) xs @ take i xs"
    using assms by (simp add: rotate_drop_take drop_update_cancel flip: Cons_nth_drop_Suc)
  finally show "rotate (Suc i mod length xs) (xs[i := y]) = tl (rotate i xs) @ [y]" using r d by simp
qed

lemma ring_step:
  assumes rel: "ringRel c h" and k: "k \<noteq> []"
  shows "fst (dedupeSeen k c) = fst (remember (dc_capacity c) k h)
    \<and> ringRel (snd (dedupeSeen k c)) (snd (remember (dc_capacity c) k h))
    \<and> dc_capacity (snd (dedupeSeen k c)) = dc_capacity c"
proof (cases "k \<in> set h")
  case True
  with rel show ?thesis by (auto simp: dedupeSeen_def remember_def ringRel_def)
next
  case False
  let ?n = "dc_capacity c" and ?old = "dc_ring c ! dc_head c"
  note r = rel [unfolded ringRel_def]
  have head: "dc_head c < length (dc_ring c)" using r by simp
  have rot: "rotate (dc_head c) (dc_ring c) = replicate (?n - length h) [] @ rev h" using r by blast
  note put = rotate_put(1) [OF head, of k] rotate_put(2) [OF head]
  have new: "rotate (Suc (dc_head c) mod ?n) ((dc_ring c)[dc_head c := k])
      = tl (replicate (?n - length h) [] @ rev h) @ [k]"
    using put(1) r rot by simp
  have old: "?old = hd (replicate (?n - length h) [] @ rev h)" using put(2) rot by simp
  show ?thesis
  proof (cases "length h < ?n")
    case True
    then obtain m where m: "?n - length h = Suc m" by (metis Suc_diff_Suc)
    then have "?old = []" using old by simp
    moreover have "take ?n (k # h) = k # h" using True by simp
    moreover have "?n - Suc (length h) = m" using m by simp
    ultimately show ?thesis
      using False r new m True k by (auto simp: dedupeSeen_def remember_def ringRel_def Let_def)
  next
    case full: False
    then have len: "length h = ?n" using r by simp
    then have hne: "h \<noteq> []" using r by auto
    have o: "?old = last h" using old len hne by (simp add: hd_rev)
    obtain g where g: "h = g @ [last h]" using hne by (metis append_butlast_last_id)
    define x where "x = last h"
    have h: "h = g @ [x]" using g x_def by simp
    have n: "?n = Suc (length g)" using len h by simp
    have "x \<noteq> []" "x \<notin> set g" using r h by auto
    moreover have "take ?n (k # h) = k # g" using n h by simp
    moreover have "tl (rev h) = rev g" using h by simp
    ultimately show ?thesis
      using False r new o len n h k by (auto simp: dedupeSeen_def remember_def ringRel_def Let_def x_def [symmetric])
  qed
qed

interpretation ring: bounded_memory dedupeSeen dc_capacity ringRel "\<lambda>k. k \<noteq> []"
  by unfold_locales (rule ring_step)

lemma ringRel_new: "ringRel (newDedupeCache n) [] \<and> dc_capacity (newDedupeCache n) > 0"
  by (simp add: ringRel_def newDedupeCache_def Let_def defaultDedupeSize_def)

text \<open>
  C33. A delivery is processed at most once within the window: whatever sequence of delivery ids arrives,
  the ring answers like a memory of the last \<open>capacity\<close> new ids, so an id is reported as a duplicate
  iff it is one of the \<open>capacity\<close> ids most recently accepted, however often the ring wrapped around;
  and a redelivery right after the first one is a duplicate.
\<close>

theorem dedupe_refines_window:
  assumes "list_all (\<lambda>i. i \<noteq> []) ids" and "c = newDedupeCache n" and "i \<noteq> []"
  shows "fst (answers dedupeSeen ids c) = fst (answers (remember (dc_capacity c)) ids [])
    \<and> set (dc_seen (snd (answers dedupeSeen ids c))) = set (snd (answers (remember (dc_capacity c)) ids []))
    \<and> dc_capacity c = (if n \<le> 0 then 1000 else nat n)
    \<and> fst (dedupeSeen i (snd (dedupeSeen i (snd (answers dedupeSeen ids c)))))"
proof -
  have r: "ringRel c [] \<and> dc_capacity c > 0" unfolding assms(2) by (rule ringRel_new)
  have a: "fst (answers dedupeSeen ids c) = fst (answers (remember (dc_capacity c)) ids [])
    \<and> ringRel (snd (answers dedupeSeen ids c)) (snd (answers (remember (dc_capacity c)) ids []))
    \<and> dc_capacity (snd (answers dedupeSeen ids c)) = dc_capacity c"
    by (rule ring.answers_remember) (use r assms(1) in auto)
  moreover have "dc_capacity c = (if n \<le> 0 then 1000 else nat n)"
    by (simp add: assms(2) newDedupeCache_def Let_def defaultDedupeSize_def)
  moreover have "fst (dedupeSeen i (snd (dedupeSeen i (snd (answers dedupeSeen ids c)))))"
    by (rule ring.just_seen) (use a r assms(3) in auto)
  ultimately show ?thesis by (auto simp: ringRel_def)
qed

lemma dedupe_refines_window_witness:
  "fst (answers dedupeSeen [''a'', ''b'', ''a'', ''c'', ''a''] (newDedupeCache 2)) = [False, False, True, False, False]"
proof -
  have "dc_capacity (newDedupeCache 2) = 2" by (simp add: newDedupeCache_def Let_def)
  then show ?thesis
    using dedupe_refines_window [of "[''a'', ''b'', ''a'', ''c'', ''a'']" "newDedupeCache 2" 2 "''x''"]
    by (simp add: remember_def)
qed

section \<open>Push payloads\<close>

record push_event =
  pe_delivery_id :: gostring
  pe_repo_full_name :: gostring
  pe_branch :: gostring
  pe_commit_sha :: gostring
  pe_changed_files :: "gostring list"

record push_commit =
  cm_added :: "gostring list"
  cm_removed :: "gostring list"
  cm_modified :: "gostring list"

record push_payload =
  pp_ref :: gostring
  pp_after :: gostring
  pp_full_name :: gostring
  pp_commits :: "push_commit list"

definition parsePushPayload :: "(gostring \<Rightarrow> gostring + push_payload) \<Rightarrow> gostring \<Rightarrow> gostring + push_payload" where
  "parsePushPayload unmarshal body =
     (case unmarshal body of Inl e \<Rightarrow> Inl (''parse push payload: '' @ e) | Inr p \<Rightarrow> Inr p)"

definition payloadBranch :: "push_payload \<Rightarrow> gostring" where
  "payloadBranch p = trimPrefix (pp_ref p) ''refs/heads/''"

text \<open>The closure \<open>add\<close>: \<open>seen\<close> and \<open>files\<close> hold the same paths, so one list serves for both.\<close>

definition addPaths :: "gostring list \<Rightarrow> gostring list \<Rightarrow> gostring list" where
  "addPaths files paths = foldl (\<lambda>fs p. if p \<in> set fs then fs else fs @ [p]) files paths"

definition payloadChangedFiles :: "push_payload \<Rightarrow> gostring list" where
  "payloadChangedFiles p =
     foldl (\<lambda>fs c. addPaths (addPaths (addPaths fs (cm_added c)) (cm_modified c)) (cm_removed c)) [] (pp_commits p)"

definition commitPaths :: "push_commit \<Rightarrow> gostring list" where
  "commitPaths c = cm_added c @ cm_modified c @ cm_removed c"

lemma addPaths_append: "addPaths fs (xs @ ys) = addPaths (addPaths fs xs) ys"
  by (simp add: addPaths_def)

lemma addPaths_firsts: "addPaths (firsts xs) ys = firsts (xs @ ys)"
proof (induction ys rule: rev_induct)
  case (snoc y ys)
  have "addPaths (firsts xs) (ys @ [y]) = addPaths (firsts (xs @ ys)) [y]"
    using snoc by (simp add: addPaths_append)
  also have "\<dots> = firsts ((xs @ ys) @ [y])" unfolding firsts_snoc by (simp add: addPaths_def)
  finally show ?case by simp
qed (simp add: addPaths_def)

lemma payloadChangedFiles_firsts:
  "payloadChangedFiles p = firsts (concat (map commitPaths (pp_commits p)))"
proof -
  have "foldl (\<lambda>fs c. addPaths (addPaths (addPaths fs (cm_added c)) (cm_modified c)) (cm_removed c)) (firsts xs) cs
      = firsts (xs @ concat (map commitPaths cs))" for xs cs
    by (induction cs arbitrary: xs) (simp_all add: addPaths_firsts commitPaths_def)
  from this [of "[]"] show ?thesis by (simp add: payloadChangedFiles_def)
qed

section \<open>The handler\<close>

record http_request =
  rq_method :: gostring
  rq_body :: "gostring + gostring" \<comment> \<open>what reading the body gives: an error, or the bytes\<close>
  rq_header :: "gostring \<Rightarrow> gostring" \<comment> \<open>\<open>Header.Get\<close>\<close>

text \<open>\<open>io.LimitReader\<close>: the bytes past the first 10 MiB are not read.\<close>

definition maxBody :: nat where "maxBody = 10 * 2 ^ 20"

definition hexVal :: "char \<Rightarrow> nat option" where
  "hexVal c =
     (let n = (of_char c :: nat) in
      if 48 \<le> n \<and> n \<le> 57 then Some (n - 48)
      else if 97 \<le> n \<and> n \<le> 102 then Some (n - 87)
      else if 65 \<le> n \<and> n \<le> 70 then Some (n - 55)
      else None)"

fun hexDecode :: "gostring \<Rightarrow> nat list option" where
  "hexDecode [] = Some []"
| "hexDecode [c] = None"
| "hexDecode (c # d # s) =
     (case (hexVal c, hexVal d, hexDecode s) of
        (Some a, Some b, Some bs) \<Rightarrow> Some ((16 * a + b) # bs)
      | _ \<Rightarrow> None)"

definition validSignature ::
  "(gostring \<Rightarrow> gostring \<Rightarrow> nat list) \<Rightarrow> gostring \<Rightarrow> gostring \<Rightarrow> gostring \<Rightarrow> bool" where
  "validSignature hmac secret sigHeader body =
     (hasPrefix sigHeader ''sha256=''
      \<and> hexDecode (drop (length ''sha256='') sigHeader) = Some (hmac secret body))"

text \<open>The secret read at construction; the file's text is given, or the error of reading it.\<close>

definition readSecret :: "gostring \<Rightarrow> (gostring \<Rightarrow> gostring + gostring) \<Rightarrow> gostring + gostring" where
  "readSecret secretFile readFile =
     (if secretFile = [] then Inr []
      else (case readFile secretFile of
              Inl e \<Rightarrow> Inl (''read webhook secret file: '' @ e)
            | Inr raw \<Rightarrow> Inr (trimSpace raw)))"

text \<open>The status written, the push dispatched to \<open>onPush\<close> if any, and the cache after.\<close>

definition serveWebhook ::
  "(gostring \<Rightarrow> gostring \<Rightarrow> nat list) \<Rightarrow> (gostring \<Rightarrow> gostring + push_payload) \<Rightarrow> gostring \<Rightarrow> http_request
   \<Rightarrow> dedupe_cache \<Rightarrow> (nat \<times> push_event option) \<times> dedupe_cache" where
  "serveWebhook hmac unmarshal secret r cache =
     (if rq_method r \<noteq> ''POST'' then ((405, None), cache)
      else case rq_body r of
        Inl e \<Rightarrow> ((400, None), cache)
      | Inr bytes \<Rightarrow>
          (let body = take maxBody bytes; sig = rq_header r ''X-Hub-Signature-256'' in
           if secret \<noteq> [] \<and> (sig = [] \<or> \<not> validSignature hmac secret sig body) then ((401, None), cache)
           else if rq_header r ''X-GitHub-Event'' \<noteq> ''push'' then ((204, None), cache)
           else
             (let deliveryID = rq_header r ''X-GitHub-Delivery'';
                  (dup, cache') = (if deliveryID \<noteq> [] then dedupeSeen deliveryID cache else (False, cache))
              in if dup then ((204, None), cache')
                 else (case parsePushPayload unmarshal body of
                         Inl e \<Rightarrow> ((400, None), cache')
                       | Inr p \<Rightarrow>
                           ((202, Some \<lparr>pe_delivery_id = deliveryID, pe_repo_full_name = pp_full_name p,
                                        pe_branch = payloadBranch p, pe_commit_sha = pp_after p,
                                        pe_changed_files = payloadChangedFiles p\<rparr>), cache')))))"

lemma hexVal_hexChar: "d < 16 \<Longrightarrow> hexVal (hexChar d) = Some d"
  by (auto simp: hexVal_def hexChar_def Let_def)

lemma byte_digits: "a < 256 \<Longrightarrow> 16 * (a div 16 mod 16) + a mod 16 = (a :: nat)"
  by (simp add: less_mult_imp_div_less)

lemma hexDecode_encode: "list_all (\<lambda>b. b < 256) bs \<Longrightarrow> hexDecode (hexEncode bs) = Some bs"
  by (induction bs) (simp_all add: hexEncode_def hexVal_hexChar byte_digits)

lemma validSignature_own:
  "list_all (\<lambda>b. b < 256) (hmac secret body) \<Longrightarrow>
   validSignature hmac secret (''sha256='' @ hexEncode (hmac secret body)) body"
  by (simp add: validSignature_def hexDecode_encode)

text \<open>
  What a delivery must satisfy, stated over the request: it is a \<open>POST\<close> with a readable body, of which
  the first 10 MiB count; with a secret set it carries the hexadecimal HMAC of that body under it.
\<close>

definition postBody :: "http_request \<Rightarrow> gostring option" where
  "postBody r =
     (if rq_method r = ''POST'' then (case rq_body r of Inl e \<Rightarrow> None | Inr bytes \<Rightarrow> Some (take maxBody bytes)) else None)"

definition authentic :: "(gostring \<Rightarrow> gostring \<Rightarrow> nat list) \<Rightarrow> gostring \<Rightarrow> http_request \<Rightarrow> gostring \<Rightarrow> bool" where
  "authentic hmac secret r body \<longleftrightarrow>
     secret = [] \<or> (\<exists>h. rq_header r ''X-Hub-Signature-256'' = ''sha256='' @ h \<and> hexDecode h = Some (hmac secret body))"

definition repeated :: "http_request \<Rightarrow> dedupe_cache \<Rightarrow> bool" where
  "repeated r cache \<longleftrightarrow>
     rq_header r ''X-GitHub-Delivery'' \<noteq> [] \<and> rq_header r ''X-GitHub-Delivery'' \<in> set (dc_seen cache)"

lemma dedupeSeen_fst: "fst (dedupeSeen i cache) \<longleftrightarrow> i \<in> set (dc_seen cache)"
  by (simp add: dedupeSeen_def Let_def)

lemma dedupeSeen_known: "i \<in> set (dc_seen cache) \<Longrightarrow> dedupeSeen i cache = (True, cache)"
  by (simp add: dedupeSeen_def)

lemma validSignature_authentic:
  "secret \<noteq> [] \<and> (sig = [] \<or> \<not> validSignature hmac secret sig body)
   \<longleftrightarrow> \<not> (secret = [] \<or> (\<exists>h. sig = ''sha256='' @ h \<and> hexDecode h = Some (hmac secret body)))"
  by (auto simp: validSignature_def hasPrefix_iff)

definition pushOf :: "http_request \<Rightarrow> push_payload \<Rightarrow> push_event" where
  "pushOf r p =
     \<lparr>pe_delivery_id = rq_header r ''X-GitHub-Delivery'', pe_repo_full_name = pp_full_name p,
      pe_branch = payloadBranch p, pe_commit_sha = pp_after p,
      pe_changed_files = firsts (concat (map commitPaths (pp_commits p)))\<rparr>"

lemma serveWebhook_no_body:
  "postBody r = None \<Longrightarrow> serveWebhook hmac unmarshal secret r cache = ((if rq_method r = ''POST'' then 400 else 405, None), cache)"
  by (auto simp: serveWebhook_def postBody_def split: if_splits sum.splits)

lemma serveWebhook_body:
  assumes "postBody r = Some body"
  shows "serveWebhook hmac unmarshal secret r cache =
     (if \<not> authentic hmac secret r body then ((401, None), cache)
      else if rq_header r ''X-GitHub-Event'' \<noteq> ''push'' \<or> repeated r cache then ((204, None), cache)
      else (let cache' = (if rq_header r ''X-GitHub-Delivery'' \<noteq> []
                          then snd (dedupeSeen (rq_header r ''X-GitHub-Delivery'') cache) else cache)
            in case unmarshal body of Inl e \<Rightarrow> ((400, None), cache') | Inr p \<Rightarrow> ((202, Some (pushOf r p)), cache')))"
proof -
  have b: "rq_method r = ''POST''" "\<exists>bytes. rq_body r = Inr bytes \<and> body = take maxBody bytes"
    using assms by (auto simp: postBody_def split: if_splits sum.splits)
  have auth: "secret \<noteq> [] \<and> (rq_header r ''X-Hub-Signature-256'' = []
        \<or> \<not> validSignature hmac secret (rq_header r ''X-Hub-Signature-256'') body) \<longleftrightarrow> \<not> authentic hmac secret r body"
    unfolding authentic_def by (rule validSignature_authentic)
  let ?i = "rq_header r ''X-GitHub-Delivery''"
  have d: "dedupeSeen ?i cache = (?i \<in> set (dc_seen cache), if ?i \<in> set (dc_seen cache) then cache else snd (dedupeSeen ?i cache))"
    using dedupeSeen_known [of ?i cache] dedupeSeen_fst [of ?i cache] by (cases "dedupeSeen ?i cache") auto
  from b(2) obtain bytes where y: "rq_body r = Inr bytes" "body = take maxBody bytes" by blast
  have m: "(rq_method r \<noteq> ''POST'') = False" using b(1) by simp
  note u = serveWebhook_def [of hmac unmarshal secret r cache, unfolded Let_def y(1) sum.case, folded y(2), unfolded auth m if_False]
  show ?thesis
  proof (cases "?i = []")
    case True
    then show ?thesis unfolding u by (auto simp: repeated_def parsePushPayload_def payloadChangedFiles_firsts pushOf_def split: sum.split)
  next
    case False
    then show ?thesis unfolding u Let_def
      by (cases "?i \<in> set (dc_seen cache)"; subst d)
         (auto simp: repeated_def parsePushPayload_def payloadChangedFiles_firsts pushOf_def split: sum.split)
  qed
qed

text \<open>
  C14. Only an authentic push is dispatched, once, with the payload's own content, and every other request
  gets its own status: 405 for another method; 400 for an unreadable body or an authentic new push that
  does not parse; 401 exactly for a wrong or missing signature; 204 for an authentic delivery of another
  event or one that was delivered before; and 202 for the pushes that are dispatched. The dispatched
  event lists every path added, modified or removed by the commits exactly once, in order of first
  mention. The delivery id is remembered exactly for an authentic push that has one, parsed or not.
\<close>

theorem serveWebhook_exact:
  assumes "serveWebhook hmac unmarshal secret r cache = ((status, out), cache')"
  shows "(status = 405 \<longleftrightarrow> rq_method r \<noteq> ''POST'')
    \<and> (status = 401 \<longleftrightarrow> (\<exists>body. postBody r = Some body \<and> \<not> authentic hmac secret r body))
    \<and> (status = 204 \<longleftrightarrow> (\<exists>body. postBody r = Some body \<and> authentic hmac secret r body
          \<and> (rq_header r ''X-GitHub-Event'' \<noteq> ''push'' \<or> repeated r cache)))
    \<and> (status = 400 \<longleftrightarrow> rq_method r = ''POST'' \<and> (case postBody r of
            None \<Rightarrow> True
          | Some body \<Rightarrow> authentic hmac secret r body \<and> rq_header r ''X-GitHub-Event'' = ''push''
              \<and> \<not> repeated r cache \<and> (\<exists>e. unmarshal body = Inl e)))
    \<and> (status = 202 \<longleftrightarrow> out \<noteq> None)
    \<and> (out = Some ev \<longleftrightarrow>
      (\<exists>body p. postBody r = Some body \<and> authentic hmac secret r body
        \<and> rq_header r ''X-GitHub-Event'' = ''push'' \<and> \<not> repeated r cache \<and> unmarshal body = Inr p
        \<and> ev = pushOf r p))
    \<and> cache' = (if (\<exists>body. postBody r = Some body \<and> authentic hmac secret r body)
                  \<and> rq_header r ''X-GitHub-Event'' = ''push'' \<and> rq_header r ''X-GitHub-Delivery'' \<noteq> []
                then snd (dedupeSeen (rq_header r ''X-GitHub-Delivery'') cache) else cache)"
proof (cases "postBody r")
  case None
  then have "rq_method r = ''POST'' \<Longrightarrow> \<exists>e. rq_body r = Inl e" by (auto simp: postBody_def split: sum.splits)
  with None show ?thesis using assms by (auto simp: serveWebhook_no_body split: if_splits)
next
  case (Some body)
  then have m: "rq_method r = ''POST''" by (auto simp: postBody_def split: if_splits)
  note h = assms [unfolded serveWebhook_body [OF Some] Let_def]
  consider "\<not> authentic hmac secret r body"
    | "authentic hmac secret r body" "rq_header r ''X-GitHub-Event'' \<noteq> ''push''"
    | "authentic hmac secret r body" "rq_header r ''X-GitHub-Event'' = ''push''" "repeated r cache"
    | e where "authentic hmac secret r body" "rq_header r ''X-GitHub-Event'' = ''push''" "\<not> repeated r cache" "unmarshal body = Inl e"
    | p where "authentic hmac secret r body" "rq_header r ''X-GitHub-Event'' = ''push''" "\<not> repeated r cache" "unmarshal body = Inr p"
    by (cases "unmarshal body") blast+
  then show ?thesis
  proof cases
    case 3
    then have "dedupeSeen (rq_header r ''X-GitHub-Delivery'') cache = (True, cache)"
      by (simp add: repeated_def dedupeSeen_known)
    with 3 show ?thesis using h m Some by simp
  qed (use h m Some in auto)
qed

definition demoPayload :: push_payload where
  "demoPayload = \<lparr>pp_ref = ''refs/heads/main'', pp_after = ''abc'', pp_full_name = ''o/app'',
     pp_commits = [\<lparr>cm_added = [''a''], cm_removed = [], cm_modified = [''b'']\<rparr>,
                   \<lparr>cm_added = [], cm_removed = [''a''], cm_modified = [''c'']\<rparr>]\<rparr>"

definition demoRequest :: http_request where
  "demoRequest = \<lparr>rq_method = ''POST'', rq_body = Inr ''x'',
     rq_header = (\<lambda>n. if n = ''X-Hub-Signature-256'' then ''sha256='' @ hexEncode [1, 171]
                      else if n = ''X-GitHub-Event'' then ''push'' else if n = ''X-GitHub-Delivery'' then ''d1'' else [])\<rparr>"

lemma serveWebhook_exact_witness:
  "\<exists>ev cache'. serveWebhook (\<lambda>s b. [1, 171]) (\<lambda>b. Inr demoPayload) ''key'' demoRequest (newDedupeCache 5)
      = ((202, Some ev), cache') \<and> pe_changed_files ev = [''a'', ''b'', ''c''] \<and> pe_branch ev = ''main''"
proof -
  let ?d = "serveWebhook (\<lambda>s b. [1, 171]) (\<lambda>b. Inr demoPayload) ''key'' demoRequest (newDedupeCache 5)"
  obtain status out cache' where d: "?d = ((status, out), cache')" by (metis prod.exhaust)
  note x = serveWebhook_exact [OF d, of "pushOf demoRequest demoPayload"]
  have "authentic (\<lambda>s b. [1, 171]) ''key'' demoRequest (take maxBody ''x'')"
    using hexDecode_encode [of "[1, 171]"] by (auto simp: authentic_def demoRequest_def)
  moreover have "postBody demoRequest = Some (take maxBody ''x'')" by (simp add: postBody_def demoRequest_def)
  moreover have "rq_header demoRequest ''X-GitHub-Event'' = ''push''" by (simp add: demoRequest_def)
  moreover have "\<not> repeated demoRequest (newDedupeCache 5)" by (simp add: repeated_def newDedupeCache_def Let_def)
  ultimately have "out = Some (pushOf demoRequest demoPayload)"
    by (intro x [THEN conjunct2, THEN conjunct2, THEN conjunct2, THEN conjunct2, THEN conjunct2, THEN conjunct1, THEN iffD2]) blast
  moreover from this have "status = 202"
    by (intro x [THEN conjunct2, THEN conjunct2, THEN conjunct2, THEN conjunct2, THEN conjunct1, THEN iffD2]) simp
  moreover have "pe_branch (pushOf demoRequest demoPayload) = ''main''"
    using trimPrefix_append [of "''refs/heads/''" "''main''"] by (simp add: payloadBranch_def demoPayload_def pushOf_def)
  moreover have "pe_changed_files (pushOf demoRequest demoPayload) = [''a'', ''b'', ''c'']" by code_simp
  ultimately show ?thesis using d by simp
qed

end
