(* ===== verification/Engine_Events.thy ===== *)
theory Engine_Events
  imports Engine_Reconcile_Laws Webhook
begin

text \<open>
  From events to deployments (\<open>internal/engine/resume.go\<close>, \<open>handler.go\<close>): what is pending after a
  restart or a poll, the jobs that a push event submits and what each does when it runs, and the
  translation of a webhook push to an event. A job returns what it did; the configuration that
  \<open>getConfig\<close> gives at that moment is an argument.
\<close>

section \<open>Pending targets\<close>

text \<open>The interface \<open>MirrorRepo\<close>.\<close>

record 'w mirror_repo =
  mr_has_commit :: "gostring \<Rightarrow> 'w \<Rightarrow> bool \<times> 'w"
  mr_is_ancestor :: "gostring \<Rightarrow> gostring \<Rightarrow> 'w \<Rightarrow> bool \<times> 'w"
  mr_diff_files :: "gostring \<Rightarrow> gostring \<Rightarrow> 'w \<Rightarrow> (gostring + gostring list) \<times> 'w"
  mr_ensure_commit :: "gostring \<Rightarrow> 'w \<Rightarrow> goerror \<times> 'w"

definition mirrorRepoOf :: "'w os \<Rightarrow> repo \<Rightarrow> 'w mirror_repo" where
  "mirrorRepoOf os r =
     \<lparr>mr_has_commit = hasCommit os r, mr_is_ancestor = isAncestor os r, mr_diff_files = diffFiles os r,
      mr_ensure_commit = ensureCommit os r\<rparr>"

definition targetUntouchedSinceLastDeploy ::
  "gostring \<Rightarrow> disk \<Rightarrow> 'w mirror_repo option \<Rightarrow> deploy_target \<Rightarrow> gostring \<Rightarrow> 'w \<Rightarrow> bool \<times> 'w" where
  "targetUntouchedSinceLastDeploy dp d repoMirror t target_sha w =
     (case repoMirror of
        None \<Rightarrow> (False, w)
      | Some m \<Rightarrow>
          (case getLatestDeployment dp (proj_name (t_project t)) (host_name (t_host t)) d of
             Inr (Some latest) \<Rightarrow>
               (let deployedSha = dep_commit_sha latest in
                if dep_status latest \<noteq> StatusSuccess then (False, w)
                else if deployedSha = [] \<or> deployedSha = target_sha then (False, w)
                else (case mr_has_commit m deployedSha w of
                        (False, w1) \<Rightarrow> (False, w1)
                      | (True, w1) \<Rightarrow>
                          (case mr_has_commit m target_sha w1 of
                             (False, w2) \<Rightarrow> (False, w2)
                           | (True, w2) \<Rightarrow>
                               (case mr_diff_files m deployedSha target_sha w2 of
                                  (Inl e, w3) \<Rightarrow> (False, w3)
                                | (Inr files, w3) \<Rightarrow>
                                    if files = [] then (True, w3)
                                    else (\<not> projectMatchesChangedFiles (t_project t) (Some files), w3)))))
           | _ \<Rightarrow> (False, w)))"

fun pendingTargetsForHead ::
  "gostring \<Rightarrow> disk \<Rightarrow> deploy_target list \<Rightarrow> gostring \<Rightarrow> 'w mirror_repo option \<Rightarrow> 'w \<Rightarrow> deploy_target list \<times> 'w" where
  "pendingTargetsForHead dp d [] target_sha repoMirror w = ([], w)"
| "pendingTargetsForHead dp d (t # ts) target_sha repoMirror w =
     (if shouldSkipDeploy dp d (proj_name (t_project t)) (host_name (t_host t)) target_sha
      then pendingTargetsForHead dp d ts target_sha repoMirror w
      else (case targetUntouchedSinceLastDeploy dp d repoMirror t target_sha w of
              (True, w1) \<Rightarrow> pendingTargetsForHead dp d ts target_sha repoMirror w1
            | (False, w1) \<Rightarrow>
                (case pendingTargetsForHead dp d ts target_sha repoMirror w1 of (rest, w2) \<Rightarrow> (t # rest, w2))))"

type_synonym 'w resolver = "gostring \<Rightarrow> gostring \<Rightarrow> 'w \<Rightarrow> ('w mirror_repo option \<times> gostring \<times> bool) \<times> 'w"

text \<open>The events for a list of repositories, each with its targets, in the order of the iteration.\<close>

fun resumeRepos ::
  "gostring \<Rightarrow> disk \<Rightarrow> 'w resolver \<Rightarrow> (gostring \<times> deploy_target list) list \<Rightarrow> 'w \<Rightarrow> repo_event list \<times> 'w" where
  "resumeRepos dp d resolve [] w = ([], w)"
| "resumeRepos dp d resolve ((repoName, ts) # groups) w =
     (let r = t_repo (hd ts) in
      case resolve (repo_url r) (repo_branch r) w of
        ((m, head, ok), w1) \<Rightarrow>
          (case (if \<not> ok \<or> head = [] then lastDeployedSha dp d repoName (repo_branch r) else Some head) of
             None \<Rightarrow> resumeRepos dp d resolve groups w1
           | Some sha \<Rightarrow>
               (let w2 = (case m of
                            None \<Rightarrow> w1
                          | Some mr \<Rightarrow> (case mr_has_commit mr sha w1 of
                                          (True, w') \<Rightarrow> w'
                                        | (False, w') \<Rightarrow> snd (mr_ensure_commit mr sha w')))
                in case pendingTargetsForHead dp d ts sha m w2 of
                     (pending, w3) \<Rightarrow>
                       (case resumeRepos dp d resolve groups w3 of
                          (evs, w4) \<Rightarrow>
                            ((if pending = [] then evs
                              else forcedEvent TriggerResume repoName (repo_branch r) sha pending False # evs), w4)))))"

definition resumeIncompleteDeploys ::
  "config option \<Rightarrow> store \<Rightarrow> 'w resolver \<Rightarrow> 'w \<Rightarrow> repo_event list \<times> 'w" where
  "resumeIncompleteDeploys deployConfig st resolve w =
     (case (st, deployConfig) of
        (Some (dp, d), Some c) \<Rightarrow>
          (let ts = allTargets c in
           resumeRepos dp d resolve (map (\<lambda>n. (n, groupBy repoOfTarget ts n)) (firsts (map repoOfTarget ts))) w)
      | _ \<Rightarrow> ([], w))"

section \<open>Jobs of a push event\<close>

record push_job =
  pj_id :: gostring
  pj_project :: gostring
  pj_host :: gostring
  pj_target :: deploy_target
  pj_event :: repo_event

definition skipForEvent :: "gostring \<Rightarrow> disk \<Rightarrow> repo_event \<Rightarrow> deploy_target \<Rightarrow> bool" where
  "skipForEvent dp d ev t \<longleftrightarrow>
     \<not> ev_redeploy ev
     \<and> shouldSkipDeploy dp d (proj_name (t_project t)) (host_name (t_host t)) (ev_commit_sha ev)"

definition jobFor :: "repo_event \<Rightarrow> deploy_target \<Rightarrow> push_job" where
  "jobFor ev t =
     \<lparr>pj_id = proj_name (t_project t) @ ''/'' @ host_name (t_host t) @ ''@'' @ shortSha (ev_commit_sha ev),
      pj_project = proj_name (t_project t), pj_host = host_name (t_host t), pj_target = t, pj_event = ev\<rparr>"

text \<open>The jobs that \<open>MakePushHandler\<close>'s callback submits for an event, in order.\<close>

definition pushJobs :: "config \<Rightarrow> gostring \<Rightarrow> disk \<Rightarrow> repo_event \<Rightarrow> push_job list" where
  "pushJobs cfg dp d ev = map (jobFor ev) (filter (\<lambda>t. \<not> skipForEvent dp d ev t) (plan cfg ev))"

text \<open>\<open>DeployFunc\<close>, under the configuration of the moment it runs.\<close>

definition runJob ::
  "'w eng_io \<Rightarrow> env_config \<Rightarrow> 'w reporter \<Rightarrow> deploy_clock \<Rightarrow> gostring list \<Rightarrow> config option \<Rightarrow> push_job
   \<Rightarrow> 'w engine_state \<Rightarrow> (goerror \<times> remote_call list) call \<times> 'w engine_state" where
  "runJob io env rep ck senv cfg j s =
     (if \<not> targetDesired cfg (pj_project j) (pj_host j) then (Ret (None, []), s)
      else if skipForEvent (env_data_path env) (en_disk s) (pj_event j) (pj_target j) then (Ret (None, []), s)
      else deployTarget io env rep ck (pj_target j) (pj_event j) senv s)"

section \<open>Webhook pushes\<close>

definition urlSeparator :: "char \<Rightarrow> bool" where
  "urlSeparator c \<longleftrightarrow> c = CHR ''/'' \<or> c = CHR '':''"

definition repoFullName :: "gostring \<Rightarrow> gostring" where
  "repoFullName repoURL =
     (let u = trimSuffix repoURL ''.git'' in
      case strCut ''github.com/'' u of
        Some (before, after) \<Rightarrow> after
      | None \<Rightarrow>
          (case strCut ''github.com:'' u of
             Some (before, after) \<Rightarrow> after
           | None \<Rightarrow>
               (let parts = fieldsFunc urlSeparator u in
                if length parts \<ge> 2
                then parts ! (length parts - 2) @ ''/'' @ parts ! (length parts - 1)
                else u)))"

definition buildRepoFullNameIndex :: "repo_config list \<Rightarrow> gostring \<rightharpoonup> repo_config" where
  "buildRepoFullNameIndex repos =
     indexBy (\<lambda>r. repoFullName (repo_url r)) (filter (\<lambda>r. repoFullName (repo_url r) \<noteq> []) repos)"

text \<open>The closure's cache of the index of the last configuration it saw.\<close>

record push_cache =
  pc_last_config :: "config option"
  pc_index :: "gostring \<rightharpoonup> repo_config"

definition newPushCache :: push_cache where
  "newPushCache = \<lparr>pc_last_config = None, pc_index = Map.empty\<rparr>"

definition refreshPushCache :: "config \<Rightarrow> push_cache \<Rightarrow> push_cache" where
  "refreshPushCache current pc =
     (if pc_last_config pc \<noteq> Some current
      then \<lparr>pc_last_config = Some current, pc_index = buildRepoFullNameIndex (cfg_repos current)\<rparr>
      else pc)"

text \<open>Recording the push; the result is the list of changed files the event gets.\<close>

definition recordPush ::
  "gostring \<Rightarrow> gotime \<Rightarrow> repo_config \<Rightarrow> push_event \<Rightarrow> disk \<Rightarrow> gostring list option \<times> disk" where
  "recordPush dp now r push d =
     (case getRepoState dp (repo_name r) (pe_branch push) d of
        Inl e \<Rightarrow> (Some (pe_changed_files push), d)
      | Inr found \<Rightarrow>
          (let firstSeen = (case found of None \<Rightarrow> True | Some rs \<Rightarrow> rs_last_deployed_sha rs = []);
               rs = (case found of
                       None \<Rightarrow> zeroRepoState\<lparr>rs_repo := repo_name r, rs_branch := pe_branch push\<rparr>
                     | Some rs \<Rightarrow> rs);
               (err, d') = saveRepoState dp now
                 (Some (rs\<lparr>rs_last_seen_sha := pe_commit_sha push, rs_last_deployed_sha := pe_commit_sha push,
                          rs_last_delivery_id := pe_delivery_id push, rs_trigger_source := TriggerWebhook\<rparr>)) d
           in (if firstSeen then None else Some (pe_changed_files push), d')))"

text \<open>
  The callback of \<open>MakeWebhookPushHandler\<close>: the event given to \<open>onDeploy\<close>, if any. \<open>reload\<close> is
  \<open>reloadConfigRepo\<close>, which may be \<open>nil\<close> and may change the world.
\<close>

definition handleWebhookPush ::
  "config \<Rightarrow> gotime \<Rightarrow> (gostring \<Rightarrow> 'w \<Rightarrow> goerror \<times> 'w) option \<Rightarrow> push_event \<Rightarrow> push_cache \<times> store \<times> 'w
   \<Rightarrow> repo_event option \<times> push_cache \<times> store \<times> 'w" where
  "handleWebhookPush cfg now reload push s =
     (case s of
        (pc, st, w) \<Rightarrow>
          (let pc' = refreshPushCache cfg pc in
           case pc_index pc' (pe_repo_full_name push) of
             None \<Rightarrow> (None, pc', st, w)
           | Some r \<Rightarrow>
               if pe_branch push \<noteq> repo_branch r then (None, pc', st, w)
               else if repo_trigger_mode r \<noteq> TriggerModeWebhook \<and> repo_trigger_mode r \<noteq> TriggerModeHybrid
               then (None, pc', st, w)
               else (case (case reload of None \<Rightarrow> (None, w) | Some f \<Rightarrow> f (repo_name r) w) of
                       (Some e, w') \<Rightarrow> (None, pc', st, w')
                     | (None, w') \<Rightarrow>
                         (let (files, st') =
                                (case st of
                                   None \<Rightarrow> (Some (pe_changed_files push), None)
                                 | Some (dp, d) \<Rightarrow>
                                     (case recordPush dp now r push d of (fs, d') \<Rightarrow> (fs, Some (dp, d'))))
                          in (Some \<lparr>ev_source = TriggerWebhook, ev_delivery_id = pe_delivery_id push,
                                    ev_repo_name = repo_name r, ev_branch = pe_branch push,
                                    ev_commit_sha = pe_commit_sha push, ev_changed_files = files,
                                    ev_forced_targets = [], ev_redeploy = False\<rparr>, pc', st', w')))))"

end
