(* ===== verification/Engine_Events_Laws.thy ===== *)
theory Engine_Events_Laws
  imports Engine_Events
begin

text \<open>
  Correctness of the intake: which targets are pending, that an interrupted deployment is resumed,
  that a push deploys each planned target once and nothing twice, and what a webhook push becomes.
\<close>

section \<open>Pending targets\<close>

text \<open>
  A mirror whose answers depend on the commits only: what git promises while nobody fetches.
\<close>

definition steadyMirror ::
  "'w mirror_repo \<Rightarrow> (gostring \<Rightarrow> bool) \<Rightarrow> (gostring \<Rightarrow> gostring \<Rightarrow> gostring + gostring list) \<Rightarrow> bool" where
  "steadyMirror m commits diff \<longleftrightarrow>
     (\<forall>sha w. mr_has_commit m sha w = (commits sha, w)) \<and> (\<forall>a b w. mr_diff_files m a b w = (diff a b, w))"

lemma steadyMirrorD:
  assumes "steadyMirror m commits diff"
  shows "mr_has_commit m sha w = (commits sha, w)" "mr_diff_files m a b w = (diff a b, w)"
  using assms by (simp_all add: steadyMirror_def)

text \<open>The proof that a target needs no deployment: a successful base whose diff misses its watch paths.\<close>

definition provablyUntouched ::
  "(gostring \<Rightarrow> bool) \<Rightarrow> (gostring \<Rightarrow> gostring \<Rightarrow> gostring + gostring list) \<Rightarrow> gostring \<Rightarrow> disk \<Rightarrow> gostring \<Rightarrow> deploy_target \<Rightarrow> bool" where
  "provablyUntouched commits diff dp d sha t \<longleftrightarrow>
     (\<exists>latest files. getLatestDeployment dp (proj_name (t_project t)) (host_name (t_host t)) d = Inr (Some latest)
        \<and> dep_status latest = StatusSuccess \<and> dep_commit_sha latest \<noteq> [] \<and> dep_commit_sha latest \<noteq> sha
        \<and> commits (dep_commit_sha latest) \<and> commits sha \<and> diff (dep_commit_sha latest) sha = Inr files
        \<and> (files \<noteq> [] \<longrightarrow> \<not> projectMatchesChangedFiles (t_project t) (Some files)))"

lemma untouched_steady:
  assumes "steadyMirror m commits diff"
  shows "targetUntouchedSinceLastDeploy dp d (Some m) t sha w = (provablyUntouched commits diff dp d sha t, w)"
proof -
  obtain r where r: "getLatestDeployment dp (proj_name (t_project t)) (host_name (t_host t)) d = r" by blast
  show ?thesis
    unfolding targetUntouchedSinceLastDeploy_def provablyUntouched_def r
    by (cases r) (auto simp: steadyMirrorD [OF assms] Let_def split: option.splits bool.splits sum.splits)
qed

lemma pending_steady:
  assumes "steadyMirror m commits diff"
  shows "pendingTargetsForHead dp d ts sha (Some m) w =
    (filter (\<lambda>t. \<not> shouldSkipDeploy dp d (proj_name (t_project t)) (host_name (t_host t)) sha
       \<and> \<not> provablyUntouched commits diff dp d sha t) ts, w)"
  by (induction ts) (auto simp: untouched_steady [OF assms] split: bool.splits)

lemma untouched_not_success:
  assumes "\<forall>latest. getLatestDeployment dp (proj_name (t_project t)) (host_name (t_host t)) d = Inr (Some latest)
     \<longrightarrow> dep_status latest \<noteq> StatusSuccess"
  shows "targetUntouchedSinceLastDeploy dp d m t sha w = (False, w)"
  using assms by (auto simp: targetUntouchedSinceLastDeploy_def Let_def split: option.splits sum.splits)

lemma pending_mem:
  assumes "t \<in> set ts"
    and "\<not> shouldSkipDeploy dp d (proj_name (t_project t)) (host_name (t_host t)) sha"
    and "\<forall>w. \<not> fst (targetUntouchedSinceLastDeploy dp d m t sha w)"
  shows "t \<in> set (fst (pendingTargetsForHead dp d ts sha m w))"
  using assms(1)
proof (induction ts arbitrary: w)
  case (Cons u us)
  show ?case
  proof (cases "u = t")
    case True
    have "fst (targetUntouchedSinceLastDeploy dp d m t sha w) = False" using assms(3) by simp
    then show ?thesis using True assms(2) by (auto split: prod.splits bool.splits)
  next
    case False
    then have "t \<in> set us" using Cons.prems by simp
    note ih = Cons.IH [OF this]
    show ?thesis
      using ih by (auto simp: split_beta split: prod.splits bool.splits) (metis fst_conv)+
  qed
qed simp

text \<open>
  No work is redone and none is lost: with a mirror that answers for the commits it has, the targets
  pending for a commit are exactly those, in order, that neither run nor succeeded at this commit and
  whose last success is not proved to have the same watched files: a missing base, a missing commit
  or a failed diff keeps the target.
\<close>

theorem pendingTargets_exact:
  assumes "steadyMirror m commits diff"
  shows "pendingTargetsForHead dp d ts sha (Some m) w =
    (filter (\<lambda>t. \<not> shouldSkipDeploy dp d (proj_name (t_project t)) (host_name (t_host t)) sha
       \<and> \<not> provablyUntouched commits diff dp d sha t) ts, w)
    \<and> fst (pendingTargetsForHead dp d ts sha (None :: 'w mirror_repo option) v) =
       filter (\<lambda>t. \<not> shouldSkipDeploy dp d (proj_name (t_project t)) (host_name (t_host t)) sha) ts"
proof
  show "fst (pendingTargetsForHead dp d ts sha (None :: 'w mirror_repo option) v) =
       filter (\<lambda>t. \<not> shouldSkipDeploy dp d (proj_name (t_project t)) (host_name (t_host t)) sha) ts"
    by (induction ts) (simp_all add: targetUntouchedSinceLastDeploy_def split_beta)
qed (rule pending_steady [OF assms])

definition demoMirror :: "unit mirror_repo" where
  "demoMirror = \<lparr>mr_has_commit = (\<lambda>s w. (True, w)), mr_is_ancestor = (\<lambda>a b w. (False, w)),
     mr_diff_files = (\<lambda>a b w. (Inr [''docs/x''], w)), mr_ensure_commit = (\<lambda>s w. (None, w))\<rparr>"

lemma demoMirror_steady: "steadyMirror demoMirror (\<lambda>s. True) (\<lambda>a b. Inr [''docs/x''])"
  by (simp add: steadyMirror_def demoMirror_def)

lemma emptyDisk_latest: "getLatestDeployment ''/data'' p h emptyDisk = Inr None"
  using getLatest_healthy [OF demo_facts(1), of p h] demo_facts by simp

lemma pendingTargets_exact_witness:
  "pendingTargetsForHead ''/data'' emptyDisk [demoTarget] ''abc'' (Some demoMirror) () = ([demoTarget], ())"
  using pendingTargets_exact [OF demoMirror_steady, of "''/data''" emptyDisk "[demoTarget]" "''abc''" "()" "()"]
  by (simp del: pendingTargetsForHead.simps add: shouldSkipDeploy_def provablyUntouched_def emptyDisk_latest [simplified])

text \<open>
  A deployment that the daemon's death interrupted is taken up again: on a healthy disk whose latest
  run of a target was still running, the repair at start-up succeeds, and afterwards the target is
  pending for every commit, whatever the mirror answers.
\<close>

theorem interrupted_is_resumed:
  assumes "healthy dp d" and "\<forall>k dep. latestOf dp d k = Some dep \<longrightarrow> slash \<notin> set (dep_id dep)"
    and "latestOf dp d (targetKey t) = Some run" and "dep_status run = StatusRunning" and "t \<in> set ts"
  shows "\<exists>n d'. markStaleRunningDeploymentsFailed dp now d = (Ret (n, None), d')
     \<and> t \<in> set (fst (pendingTargetsForHead dp d' ts sha m w))"
proof -
  obtain n d' where d': "markStaleRunningDeploymentsFailed dp now d = (Ret (n, None), d')" "healthy dp d'"
    "latestOf dp d' = (\<lambda>k. map_option (repaired now) (latestOf dp d k))"
    using markStale_spec [OF assms(1,2)] by blast
  have g: "getLatestDeployment dp (proj_name (t_project t)) (host_name (t_host t)) d' = Inr (Some (failStale now run))"
    using getLatest_healthy [OF d'(2)] d'(3) assms(3,4) by (simp add: targetKey_def repaired_def)
  have "\<not> shouldSkipDeploy dp d' (proj_name (t_project t)) (host_name (t_host t)) sha"
    by (simp add: shouldSkipDeploy_def g)
  moreover have "targetUntouchedSinceLastDeploy dp d' m t sha v = (False, v)" for v
    by (rule untouched_not_success) (simp add: g)
  ultimately show ?thesis using d'(1) pending_mem [OF assms(5)] by (metis fst_conv)
qed

lemma interrupted_is_resumed_witness:
  "\<exists>n d'. markStaleRunningDeploymentsFailed ''/data'' 9 (saveDisk ''/data'' (demoDeployment ''1'' 5) emptyDisk)
       = (Ret (n, None), d')
     \<and> demoTarget \<in> set (fst (pendingTargetsForHead ''/data'' d' [demoTarget] ''abc'' (Some demoMirror) ()))"
proof -
  let ?d = "saveDisk ''/data'' (demoDeployment ''1'' 5) emptyDisk"
  have h: "healthy ''/data'' ?d" by (rule fs.ok_save [OF demo_facts(1,2)])
  have l: "latestOf ''/data'' ?d = [''h1/web'' \<mapsto> demoDeployment ''1'' 5]"
    by (simp add: fs.latest_save [OF demo_facts(1,2)] demo_facts mergeLatest_def)
  have "\<forall>k dep. latestOf ''/data'' ?d k = Some dep \<longrightarrow> slash \<notin> set (dep_id dep)"
    unfolding l by (auto simp: demo_facts)
  moreover have "latestOf ''/data'' ?d (targetKey demoTarget) = Some (demoDeployment ''1'' 5)"
    by (simp add: l targetKey_def demoTarget_def demoProject_def demoHost_def indexKeyForProjectHost_def)
  moreover have "dep_status (demoDeployment ''1'' 5) = StatusRunning" by (simp add: demoDeployment_def zeroDeployment_def)
  ultimately show ?thesis
    by (rule interrupted_is_resumed [OF h]) (rule list.set_intros(1))
qed

section \<open>Jobs of a push event\<close>

lemma jobFor_fields [simp]:
  "pj_project (jobFor ev t) = proj_name (t_project t)" "pj_host (jobFor ev t) = host_name (t_host t)"
  "pj_target (jobFor ev t) = t" "pj_event (jobFor ev t) = ev"
  by (simp_all add: jobFor_def)

lemma jobFor_inj: "jobFor ev t = jobFor ev u \<longleftrightarrow> t = u"
  by (metis jobFor_fields(3))

lemma runJob_skip:
  "skipForEvent (env_data_path env) (en_disk s) (pj_event j) (pj_target j) \<Longrightarrow>
   runJob io env rep ck senv cfg j s = (Ret (None, []), s)"
  by (simp add: runJob_def)

text \<open>A sequence of jobs, each at its own time and under the configuration of that time.\<close>

type_synonym job_run = "deploy_clock \<times> config option \<times> repo_event \<times> deploy_target"

fun runJobs ::
  "'w eng_io \<Rightarrow> env_config \<Rightarrow> 'w reporter \<Rightarrow> gostring list \<Rightarrow> job_run list \<Rightarrow> 'w engine_state
   \<Rightarrow> (goerror \<times> remote_call list) call list \<times> 'w engine_state" where
  "runJobs io env rep senv [] s = ([], s)"
| "runJobs io env rep senv ((ck, cfg, ev, t) # runs) s =
     (case runJob io env rep ck senv cfg (jobFor ev t) s of
        (r, s1) \<Rightarrow> (case runJobs io env rep senv runs s1 of (rs, s2) \<Rightarrow> (r # rs, s2)))"

definition goodRun :: "job_run \<Rightarrow> bool" where
  "goodRun run \<longleftrightarrow>
     (case run of (ck, cfg, ev, t) \<Rightarrow> validRunID (ck_id ck) \<and> proj_name (t_project t) \<noteq> [] \<and> host_name (t_host t) \<noteq> [])"

definition startedBy :: "gostring \<Rightarrow> gotime \<Rightarrow> disk \<Rightarrow> bool" where
  "startedBy dp T d \<longleftrightarrow> (\<forall>k dep. latestOf dp d k = Some dep \<longrightarrow> dep_started_at dep \<le> T)"

lemma runJob_step:
  assumes "healthy (env_data_path env) (en_disk s)" and "goodRun (ck, cfg, ev, u)"
    and "startedBy (env_data_path env) T (en_disk s)" and "T \<le> ck_started ck"
  shows "\<exists>r s'. runJob io env rep ck senv cfg (jobFor ev u) s = (Ret r, s')
     \<and> healthy (env_data_path env) (en_disk s') \<and> startedBy (env_data_path env) (ck_started ck) (en_disk s')
     \<and> (\<forall>k. k \<noteq> targetKey u \<longrightarrow> latestOf (env_data_path env) (en_disk s') k = latestOf (env_data_path env) (en_disk s) k)
     \<and> (skipForEvent (env_data_path env) (en_disk s) ev u \<longrightarrow> s' = s)"
proof (cases "targetDesired cfg (proj_name (t_project u)) (host_name (t_host u))
    \<and> \<not> skipForEvent (env_data_path env) (en_disk s) ev u")
  case False
  then have "runJob io env rep ck senv cfg (jobFor ev u) s = (Ret (None, []), s)" by (auto simp: runJob_def)
  then show ?thesis using assms by (fastforce simp: startedBy_def)
next
  case True
  have new: "\<forall>c. latestOf (env_data_path env) (en_disk s) (targetKey u) = Some c \<longrightarrow> dep_started_at c \<le> ck_started ck"
    using assms(3,4) by (fastforce simp: startedBy_def)
  have id: "validRunID (ck_id ck)" "proj_name (t_project u) \<noteq> []" "host_name (t_host u) \<noteq> []"
    using assms(2) by (simp_all add: goodRun_def)
  obtain err calls s' fin where d: "deployTarget io env rep ck u ev senv s = (Ret (err, calls), s')"
    "healthy (env_data_path env) (en_disk s')"
    "latestOf (env_data_path env) (en_disk s') = (latestOf (env_data_path env) (en_disk s))(targetKey u \<mapsto> fin)"
    "dep_started_at fin = ck_started ck"
    using deployTarget_outcome [OF assms(1) id new, of io rep ev senv] by blast
  have "startedBy (env_data_path env) (ck_started ck) (en_disk s')"
    using assms(3,4) d(3,4) by (fastforce simp: startedBy_def split: if_splits)
  then show ?thesis using d True by (auto simp: runJob_def)
qed

lemma skip_of_latest:
  assumes "healthy dp d"
  shows "shouldSkipDeploy dp d (proj_name (t_project u)) (host_name (t_host u)) sha \<longleftrightarrow>
    (\<exists>dep. latestOf dp d (targetKey u) = Some dep \<and> dep_commit_sha dep = sha
       \<and> (dep_status dep = StatusRunning \<or> dep_status dep = StatusSuccess))"
  unfolding shouldSkipDeploy_def getLatest_healthy [OF assms] by (auto simp: targetKey_def split: option.split)

text \<open>Jobs of other targets, and unforced ones of the same commit, leave a deployed commit deployed.\<close>

lemma runJobs_keep:
  assumes "healthy (env_data_path env) (en_disk s)" and "startedBy (env_data_path env) T (en_disk s)"
    and "list_all goodRun runs" and "sorted (T # map (\<lambda>run. ck_started (fst run)) runs)"
    and "shouldSkipDeploy (env_data_path env) (en_disk s) (proj_name (t_project t)) (host_name (t_host t)) sha"
    and "\<forall>(ck, cfg, ev, u)\<in>set runs. targetKey u = targetKey t \<longrightarrow> ev_commit_sha ev = sha \<and> \<not> ev_redeploy ev"
  shows "\<exists>s'. snd (runJobs io env rep senv runs s) = s' \<and> healthy (env_data_path env) (en_disk s')
     \<and> shouldSkipDeploy (env_data_path env) (en_disk s') (proj_name (t_project t)) (host_name (t_host t)) sha
     \<and> list_all (\<lambda>r. r \<noteq> Panic) (fst (runJobs io env rep senv runs s))"
  using assms
proof (induction runs arbitrary: s T)
  case (Cons run runs)
  obtain ck cfg ev u where run: "run = (ck, cfg, ev, u)" by (metis prod.exhaust)
  have T: "T \<le> ck_started ck" "sorted (ck_started ck # map (\<lambda>run. ck_started (fst run)) runs)"
    using Cons.prems(4) by (auto simp: run)
  have good: "goodRun (ck, cfg, ev, u)" "list_all goodRun runs" using Cons.prems(3) by (simp_all add: run)
  obtain r s1 where st: "runJob io env rep ck senv cfg (jobFor ev u) s = (Ret r, s1)"
    "healthy (env_data_path env) (en_disk s1)" "startedBy (env_data_path env) (ck_started ck) (en_disk s1)"
    "\<forall>k. k \<noteq> targetKey u \<longrightarrow> latestOf (env_data_path env) (en_disk s1) k = latestOf (env_data_path env) (en_disk s) k"
    "skipForEvent (env_data_path env) (en_disk s) ev u \<longrightarrow> s1 = s"
    using runJob_step [OF Cons.prems(1) good(1) Cons.prems(2) T(1), of io rep senv] by blast
  note here = Cons.prems(5) [unfolded skip_of_latest [OF Cons.prems(1)]]
  have "shouldSkipDeploy (env_data_path env) (en_disk s1) (proj_name (t_project t)) (host_name (t_host t)) sha"
  proof (cases "targetKey u = targetKey t")
    case True
    then have "ev_commit_sha ev = sha" "\<not> ev_redeploy ev" using Cons.prems(6) by (auto simp: run)
    then have "skipForEvent (env_data_path env) (en_disk s) ev u"
      using here True by (simp add: skipForEvent_def skip_of_latest [OF Cons.prems(1)])
    then show ?thesis using st(5) Cons.prems(5) by simp
  next
    case False
    then show ?thesis using here st(4) by (simp add: skip_of_latest [OF st(2)])
  qed
  from Cons.IH [OF st(2,3) good(2) T(2) this] Cons.prems(6)
  show ?case by (auto simp: run st(1) split_beta)
qed simp



section \<open>Webhook pushes\<close>

text \<open>The cache of the index is never stale: it is the index of the configuration it was asked about.\<close>

definition pushCacheFresh :: "push_cache \<Rightarrow> bool" where
  "pushCacheFresh pc \<longleftrightarrow> (\<forall>c. pc_last_config pc = Some c \<longrightarrow> pc_index pc = buildRepoFullNameIndex (cfg_repos c))"

lemma pushCacheFresh_new: "pushCacheFresh newPushCache"
  by (simp add: pushCacheFresh_def newPushCache_def)

lemma refreshPushCache_fresh:
  assumes "pushCacheFresh pc"
  shows "pushCacheFresh (refreshPushCache c pc)" "pc_index (refreshPushCache c pc) = buildRepoFullNameIndex (cfg_repos c)"
  using assms by (simp_all add: pushCacheFresh_def refreshPushCache_def)

definition wantsPush :: "config \<Rightarrow> push_event \<Rightarrow> repo_config \<Rightarrow> bool" where
  "wantsPush cfg push r \<longleftrightarrow>
     buildRepoFullNameIndex (cfg_repos cfg) (pe_repo_full_name push) = Some r \<and> pe_branch push = repo_branch r
     \<and> repo_trigger_mode r \<in> {TriggerModeWebhook, TriggerModeHybrid}"

lemma recordPush_spec:
  assumes "dp \<noteq> []" "\<forall>p. \<not> dk_write_fails d p \<and> \<not> dk_mkdir_fails d p" "safeName (repo_name r)"
    and "\<forall>rs. getRepoState dp (repo_name r) (pe_branch push) d = Inr (Some rs) \<longrightarrow>
           rs_repo rs = repo_name r \<and> rs_branch rs = pe_branch push"
    and "getRepoState dp (repo_name r) (pe_branch push) d = Inr found"
  shows "\<exists>d' rs. recordPush dp now r push d =
        (if lastDeployedSha dp d (repo_name r) (pe_branch push) = None then None else Some (pe_changed_files push), d')
     \<and> getRepoState dp (repo_name r) (pe_branch push) d' = Inr (Some rs)
     \<and> rs_last_deployed_sha rs = pe_commit_sha push \<and> latestOf dp d' = latestOf dp d"
proof -
  let ?rs0 = "case found of None \<Rightarrow> zeroRepoState\<lparr>rs_repo := repo_name r, rs_branch := pe_branch push\<rparr> | Some rs \<Rightarrow> rs"
  let ?rs = "?rs0\<lparr>rs_last_seen_sha := pe_commit_sha push, rs_last_deployed_sha := pe_commit_sha push,
                  rs_last_delivery_id := pe_delivery_id push, rs_trigger_source := TriggerWebhook\<rparr>"
  have k: "rs_repo ?rs = repo_name r" "rs_branch ?rs = pe_branch push"
    using assms(4,5) by (cases found; simp)+
  obtain d' where d': "saveRepoState dp now (Some ?rs) d = (None, d')"
    "getRepoState dp (repo_name r) (pe_branch push) d' = Inr (Some (?rs\<lparr>rs_updated_at := now\<rparr>))"
    "latestOf dp d' = latestOf dp d"
    using saveRepoState_spec [OF assms(1,2), where rs = ?rs and now = now, unfolded k, OF assms(3)]
    by (elim exE conjE) (rule that)
  have f: "(case found of None \<Rightarrow> True | Some rs \<Rightarrow> rs_last_deployed_sha rs = [])
      \<longleftrightarrow> lastDeployedSha dp d (repo_name r) (pe_branch push) = None"
    using assms(5) by (auto simp: lastDeployedSha_def split: option.splits)
  have "recordPush dp now r push d =
      (if lastDeployedSha dp d (repo_name r) (pe_branch push) = None then None else Some (pe_changed_files push), d')"
    unfolding recordPush_def assms(5) sum.case f Let_def d'(1) by simp
  then show ?thesis using d'(2,3) by (intro exI [of _ d'] exI [of _ "?rs\<lparr>rs_updated_at := now\<rparr>"]) simp
qed

text \<open>
  C27. A push becomes an event exactly when the configuration asks for it: the callback, whatever it
  cached before, dispatches a push iff its full name is that of a repository whose branch was pushed
  and whose mode is webhook or hybrid, and the reload of the configuration repository, if there is one,
  succeeds. The first push of a branch, with no commit recorded as deployed, deploys every project of
  the repository; a later one only those whose files it names. The commit is then recorded as the
  branch's last deployed one, and no deployment record changes.
\<close>

theorem webhookPush_exact:
  assumes "pushCacheFresh pc" and "dp \<noteq> []" and "\<forall>p. \<not> dk_write_fails d p \<and> \<not> dk_mkdir_fails d p"
    and "\<forall>r\<in>set (cfg_repos cfg). safeName (repo_name r)
          \<and> (\<exists>found. getRepoState dp (repo_name r) (pe_branch push) d = Inr found
               \<and> (\<forall>rs. found = Some rs \<longrightarrow> rs_repo rs = repo_name r \<and> rs_branch rs = pe_branch push))"
    and "handleWebhookPush cfg now reload push (pc, Some (dp, d), w) = (out, pc', st', w')"
  shows "pushCacheFresh pc'
    \<and> (out \<noteq> None \<longleftrightarrow> (\<exists>r. wantsPush cfg push r
          \<and> (case reload of None \<Rightarrow> True | Some f \<Rightarrow> fst (f (repo_name r) w) = None)))
    \<and> (\<forall>ev. out = Some ev \<longrightarrow> (\<exists>r d' rs. wantsPush cfg push r \<and> st' = Some (dp, d') \<and> ev_repo_name ev = repo_name r
          \<and> ev_branch ev = repo_branch r \<and> ev_commit_sha ev = pe_commit_sha push \<and> ev_forced_targets ev = []
          \<and> \<not> ev_redeploy ev \<and> ev_source ev = TriggerWebhook
          \<and> ev_changed_files ev = (if lastDeployedSha dp d (repo_name r) (pe_branch push) = None
                                   then None else Some (pe_changed_files push))
          \<and> getRepoState dp (repo_name r) (pe_branch push) d' = Inr (Some rs)
          \<and> rs_last_deployed_sha rs = pe_commit_sha push \<and> latestOf dp d' = latestOf dp d))
    \<and> (out = None \<longrightarrow> st' = Some (dp, d))"
proof -
  note fresh = refreshPushCache_fresh [OF assms(1), of cfg]
  let ?ix = "buildRepoFullNameIndex (cfg_repos cfg) (pe_repo_full_name push)"
  note h = assms(5) [unfolded handleWebhookPush_def prod.case Let_def fresh(2)]
  show ?thesis
  proof (cases "\<exists>r. wantsPush cfg push r")
    case False
    then have "out = None \<and> pc' = refreshPushCache cfg pc \<and> st' = Some (dp, d)"
      using h by (auto simp: wantsPush_def split: option.splits if_splits)
    then show ?thesis using False fresh(1) by auto
  next
    case True
    then obtain r where r: "wantsPush cfg push r" by blast
    have u: "wantsPush cfg push q \<longleftrightarrow> q = r" for q using r by (auto simp: wantsPush_def)
    have mem: "r \<in> set (cfg_repos cfg)"
      using r by (auto simp: wantsPush_def buildRepoFullNameIndex_def dest!: indexBy_SomeD)
    have ix: "?ix = Some r" "pe_branch push = repo_branch r"
      "\<not> (repo_trigger_mode r \<noteq> TriggerModeWebhook \<and> repo_trigger_mode r \<noteq> TriggerModeHybrid)"
      using r by (auto simp: wantsPush_def)
    note h2 = h [unfolded ix(1) option.case]
    obtain found where f: "safeName (repo_name r)" "getRepoState dp (repo_name r) (pe_branch push) d = Inr found"
      "\<forall>rs. found = Some rs \<longrightarrow> rs_repo rs = repo_name r \<and> rs_branch rs = pe_branch push"
      using assms(4) mem by blast
    have f3: "\<forall>rs. getRepoState dp (repo_name r) (pe_branch push) d = Inr (Some rs) \<longrightarrow>
        rs_repo rs = repo_name r \<and> rs_branch rs = pe_branch push" using f(2,3) by simp
    obtain d' rs where rp: "recordPush dp now r push d =
        (if lastDeployedSha dp d (repo_name r) (pe_branch push) = None then None else Some (pe_changed_files push), d')"
      "getRepoState dp (repo_name r) (pe_branch push) d' = Inr (Some rs)"
      "rs_last_deployed_sha rs = pe_commit_sha push" "latestOf dp d' = latestOf dp d"
      using recordPush_spec [OF assms(2,3) f(1) f3 f(2), of now] by blast
    obtain e v where e: "(case reload of None \<Rightarrow> (None, w) | Some f \<Rightarrow> f (repo_name r) w) = (e, v)" by (rule prod.exhaust)
    have e0: "e = None \<longleftrightarrow> (case reload of None \<Rightarrow> True | Some f \<Rightarrow> fst (f (repo_name r) w) = None)"
      using e by (auto split: option.splits)
    show ?thesis
    proof (cases e)
      case (Some x)
      then have "out = None \<and> pc' = refreshPushCache cfg pc \<and> st' = Some (dp, d)"
        using h2 e ix(2,3) by simp
      then show ?thesis using e0 Some u fresh(1) by auto
    next
      case None
      then have "out = Some \<lparr>ev_source = TriggerWebhook, ev_delivery_id = pe_delivery_id push,
            ev_repo_name = repo_name r, ev_branch = pe_branch push, ev_commit_sha = pe_commit_sha push,
            ev_changed_files = (if lastDeployedSha dp d (repo_name r) (pe_branch push) = None
                                then None else Some (pe_changed_files push)),
            ev_forced_targets = [], ev_redeploy = False\<rparr> \<and> pc' = refreshPushCache cfg pc \<and> st' = Some (dp, d')"
        using h2 e ix(2,3) rp(1) by auto
      then show ?thesis using e0 None u fresh(1) rp ix(2) by auto
    qed
  qed
qed

definition hookConfig :: config where
  "hookConfig = demoConfig\<lparr>cfg_repos := [demoRepo\<lparr>repo_url := ''https://github.com/o/app.git'',
      repo_trigger_mode := TriggerModeHybrid\<rparr>]\<rparr>"

definition demoPush :: push_event where
  "demoPush = \<lparr>pe_delivery_id = ''d'', pe_repo_full_name = ''o/app'', pe_branch = ''main'', pe_commit_sha = ''abc'',
     pe_changed_files = [''web/x'']\<rparr>"

lemma hookConfig_wants: "\<exists>r. wantsPush hookConfig demoPush r"
proof -
  have "repoFullName ''https://github.com/o/app.git'' = ''o/app''" by code_simp
  then have "wantsPush hookConfig demoPush (demoRepo\<lparr>repo_url := ''https://github.com/o/app.git'',
      repo_trigger_mode := TriggerModeHybrid\<rparr>)"
    by (simp add: wantsPush_def buildRepoFullNameIndex_def hookConfig_def demoPush_def demoRepo_def indexBy_def)
  then show ?thesis by blast
qed

lemma webhookPush_exact_witness:
  "\<exists>ev. fst (handleWebhookPush hookConfig 3 None demoPush (newPushCache, Some (''/data'', emptyDisk), ())) = Some ev
     \<and> ev_changed_files ev = None"
proof -
  obtain out pc' st' w' where h: "handleWebhookPush hookConfig 3 None demoPush
      (newPushCache, Some (''/data'', emptyDisk), ()) = (out, pc', st', w')" by (metis prod.exhaust)
  have n: "getRepoState ''/data'' r b emptyDisk = Inr None" for r b
    by (simp add: getRepoState_def emptyDisk_def dkRead_def asRepoState_def)
  have a: "\<forall>p. \<not> dk_write_fails emptyDisk p \<and> \<not> dk_mkdir_fails emptyDisk p" by (simp add: emptyDisk_def)
  have b: "\<forall>r\<in>set (cfg_repos hookConfig). safeName (repo_name r)
      \<and> (\<exists>found. getRepoState ''/data'' (repo_name r) (pe_branch demoPush) emptyDisk = Inr found
           \<and> (\<forall>rs. found = Some rs \<longrightarrow> rs_repo rs = repo_name r \<and> rs_branch rs = pe_branch demoPush))"
    using n by (simp add: hookConfig_def demoRepo_def safeName_def)
  note x = webhookPush_exact [OF pushCacheFresh_new list.distinct(2) a b h]
  have "out \<noteq> None"
    by (rule x [THEN conjunct2, THEN conjunct1, THEN iffD2]) (use hookConfig_wants in simp)
  then obtain ev where ev: "out = Some ev" by blast
  have none: "lastDeployedSha ''/data'' emptyDisk r b = None" for r b using n by (simp add: lastDeployedSha_def)
  have "ev_changed_files ev = None"
    using x [THEN conjunct2, THEN conjunct2, THEN conjunct1, THEN spec, THEN mp, OF ev]
    by (elim exE conjE) (simp only: none simp_thms if_True)
  then show ?thesis using h ev by simp
qed

end
