(* ===== verification/Poller.thy ===== *)
theory Poller
  imports Engine_Events_Laws
begin

text \<open>
  Polling (\<open>internal/repowatcher\<close> and \<open>internal/poller\<close>): the grouping of subscriptions, one poll of a
  group, and what a poller does with the commit it is told of. Handlers are functions on a world; the
  configuration is read from the world, since a reload may change it.
\<close>

section \<open>Poll groups\<close>

definition DefaultPollInterval :: gotime where "DefaultPollInterval = 60 * second"

record 'h subscription =
  sub_url :: gostring
  sub_branch :: gostring
  sub_interval :: gotime
  sub_handler :: 'h

record 'h poll_group =
  pg_url :: gostring
  pg_branch :: gostring
  pg_interval :: gotime
  pg_handlers :: "'h list"

definition subKey :: "'h subscription \<Rightarrow> gostring \<times> gostring" where
  "subKey s = (sub_url s, sub_branch s)"

definition effectiveInterval :: "'h subscription \<Rightarrow> gotime" where
  "effectiveInterval s = (if sub_interval s \<le> 0 then DefaultPollInterval else sub_interval s)"

definition newGroup :: "'h subscription \<Rightarrow> 'h poll_group" where
  "newGroup s = \<lparr>pg_url = sub_url s, pg_branch = sub_branch s, pg_interval = effectiveInterval s, pg_handlers = []\<rparr>"

definition joinGroup :: "'h subscription \<Rightarrow> 'h poll_group \<Rightarrow> 'h poll_group" where
  "joinGroup s g =
     g\<lparr>pg_interval := (if sub_interval s > 0 \<and> sub_interval s < pg_interval g then sub_interval s else pg_interval g),
       pg_handlers := pg_handlers g @ [sub_handler s]\<rparr>"

type_synonym 'h group_index = "(gostring \<times> gostring \<rightharpoonup> 'h poll_group) \<times> (gostring \<times> gostring) list"

definition addSubscription :: "'h group_index \<Rightarrow> 'h subscription \<Rightarrow> 'h group_index" where
  "addSubscription io s =
     (case io of
        (index, order) \<Rightarrow>
          (case index (subKey s) of
             None \<Rightarrow> (index(subKey s \<mapsto> joinGroup s (newGroup s)), order @ [subKey s])
           | Some g \<Rightarrow> (index(subKey s \<mapsto> joinGroup s g), order)))"

definition buildGroups :: "'h subscription list \<Rightarrow> 'h poll_group list" where
  "buildGroups subs =
     (case foldl addSubscription (Map.empty, []) subs of
        (index, order) \<Rightarrow> map (\<lambda>k. the (index k)) order)"

text \<open>One poll: every handler of the group, in order, if the branch has a commit.\<close>

definition pollGroupOnce ::
  "(gostring \<Rightarrow> gostring \<Rightarrow> 'w \<Rightarrow> (gostring + gostring) \<times> 'w) \<Rightarrow> (gostring \<Rightarrow> 'w \<Rightarrow> 'w) poll_group \<Rightarrow> 'w \<Rightarrow> 'w" where
  "pollGroupOnce remote g w =
     (case remote (pg_url g) (pg_branch g) w of
        (Inl e, w') \<Rightarrow> w'
      | (Inr sha, w') \<Rightarrow> if sha = [] then w' else foldl (\<lambda>v h. h sha v) w' (pg_handlers g))"

section \<open>The poller\<close>

text \<open>The repositories that are polled, with their intervals; the handler is the repository.\<close>

definition pollSubscriptions :: "config \<Rightarrow> repo_config subscription list" where
  "pollSubscriptions cfg =
     map (\<lambda>r. \<lparr>sub_url = repo_url r, sub_branch = repo_branch r,
               sub_interval = (if repo_poll_interval r \<le> 0 then DefaultPollInterval else repo_poll_interval r),
               sub_handler = r\<rparr>)
       (filter (\<lambda>r. repo_trigger_mode r = TriggerModePoll \<or> repo_trigger_mode r = TriggerModeHybrid) (cfg_repos cfg))"

type_synonym 'w finder = "gostring \<Rightarrow> 'w \<Rightarrow> gostring + 'w mirror_repo option"

fun isStalePoll :: "'w finder list \<Rightarrow> gostring \<Rightarrow> gostring \<Rightarrow> gostring \<Rightarrow> 'w \<Rightarrow> bool \<times> 'w" where
  "isStalePoll [] repoURL sha deployedSha w = (False, w)"
| "isStalePoll (lookup # rest) repoURL sha deployedSha w =
     (case lookup repoURL w of
        Inr (Some m) \<Rightarrow>
          (case mr_has_commit m sha w of
             (False, w1) \<Rightarrow> isStalePoll rest repoURL sha deployedSha w1
           | (True, w1) \<Rightarrow>
               (case mr_has_commit m deployedSha w1 of
                  (False, w2) \<Rightarrow> isStalePoll rest repoURL sha deployedSha w2
                | (True, w2) \<Rightarrow> mr_is_ancestor m sha deployedSha w2))
      | _ \<Rightarrow> isStalePoll rest repoURL sha deployedSha w)"

record 'w poller =
  po_data_path :: gostring
  po_get_config :: "'w \<Rightarrow> config"
  po_reload :: "(gostring \<Rightarrow> 'w \<Rightarrow> goerror \<times> 'w) option"
  po_find_repo :: "'w finder"
  po_find_config_mirror :: "'w finder option"

definition finders :: "'w poller \<Rightarrow> 'w finder list" where
  "finders po = po_find_repo po # (case po_find_config_mirror po of None \<Rightarrow> [] | Some f \<Rightarrow> [f])"

text \<open>The mirror used to compare commits; an error when it lacks the commit and cannot fetch it.\<close>

definition pollMirror :: "'w poller \<Rightarrow> gostring \<Rightarrow> gostring \<Rightarrow> 'w \<Rightarrow> (gostring + 'w mirror_repo option) \<times> 'w" where
  "pollMirror po repoURL sha w =
     (case po_find_repo po repoURL w of
        Inr (Some m) \<Rightarrow>
          (case mr_has_commit m sha w of
             (True, w1) \<Rightarrow> (Inr (Some m), w1)
           | (False, w1) \<Rightarrow>
               (case mr_ensure_commit m sha w1 of
                  (Some e, w2) \<Rightarrow> (Inl e, w2)
                | (None, w2) \<Rightarrow> (Inr (Some m), w2)))
      | _ \<Rightarrow> (Inr None, w))"

definition savePoll :: "gostring \<Rightarrow> gotime \<Rightarrow> repo_state \<Rightarrow> disk \<Rightarrow> disk" where
  "savePoll dp now rs d = snd (saveRepoState dp now (Some rs) d)"

text \<open>\<open>HandleSHA\<close>: the event dispatched, if any.\<close>

definition handleSHA ::
  "'w poller \<Rightarrow> gotime \<Rightarrow> repo_config \<Rightarrow> gostring \<Rightarrow> 'w engine_state \<Rightarrow> repo_event option \<times> 'w engine_state" where
  "handleSHA po now r sha s =
     (let dp = po_data_path po; d = en_disk s in
      case getRepoState dp (repo_name r) (repo_branch r) d of
        Inl e \<Rightarrow> (None, s)
      | Inr found \<Rightarrow>
          (let rs0 = (case found of
                        None \<Rightarrow> zeroRepoState\<lparr>rs_repo := repo_name r, rs_branch := repo_branch r\<rparr>
                      | Some rs \<Rightarrow> rs);
               rs = rs0\<lparr>rs_last_seen_sha := sha, rs_last_polled_at := Some now\<rparr>;
               saved = savePoll dp now rs d
           in if sha = rs_last_deployed_sha rs then (None, s\<lparr>en_disk := saved\<rparr>)
              else (case (if rs_last_deployed_sha rs \<noteq> []
                          then isStalePoll (finders po) (repo_url r) sha (rs_last_deployed_sha rs) (en_world s)
                          else (False, en_world s)) of
                      (True, w1) \<Rightarrow> (None, \<lparr>en_world = w1, en_disk = saved\<rparr>)
                    | (False, w1) \<Rightarrow>
                        (case (case po_reload po of None \<Rightarrow> (None, w1) | Some f \<Rightarrow> f (repo_name r) w1) of
                           (Some e, w2) \<Rightarrow> (None, \<lparr>en_world = w2, en_disk = saved\<rparr>)
                         | (None, w2) \<Rightarrow>
                             (case pollMirror po (repo_url r) sha w2 of
                                (Inl e, w3) \<Rightarrow> (None, \<lparr>en_world = w3, en_disk = saved\<rparr>)
                              | (Inr m, w3) \<Rightarrow>
                                  (case pendingTargetsForHead dp d
                                          (targetsForRepo (po_get_config po w3) (repo_name r)) sha m w3 of
                                     (pending, w4) \<Rightarrow>
                                       (if pending = [] then None
                                        else Some (forcedEvent TriggerPoll (repo_name r) (repo_branch r) sha pending False),
                                        \<lparr>en_world = w4,
                                         en_disk = savePoll dp now
                                           (rs\<lparr>rs_last_deployed_sha := sha, rs_trigger_source := TriggerPoll\<rparr>) d\<rparr>)))))))"

section \<open>Groups are exact\<close>

lemma foldl_groups:
  fixes subs :: "'h subscription list"
  assumes "foldl addSubscription (Map.empty, []) subs = (index, order)"
  shows "order = firsts (map subKey subs)
    \<and> (\<forall>k. index k = (if k \<in> set order
         then Some \<lparr>pg_url = fst k, pg_branch = snd k, pg_interval = pg_interval (the (index k)),
                    pg_handlers = map sub_handler (filter (\<lambda>s. subKey s = k) subs)\<rparr> else None))
    \<and> ((\<forall>s\<in>set subs. 0 < sub_interval s) \<longrightarrow>
        (\<forall>k\<in>set order. pg_interval (the (index k)) = Min (sub_interval ` {s \<in> set subs. subKey s = k})))"
  using assms
proof (induction subs arbitrary: index order rule: rev_induct)
  case Nil
  then show ?case by auto
next
  case (snoc s subs)
  obtain ix ord where io: "foldl addSubscription (Map.empty, []) subs = (ix, ord)" by (rule prod.exhaust)
  note ih = snoc.IH [OF io]
  have st: "addSubscription (ix, ord) s = (index, order)" using snoc.prems io by simp
  have ord: "ord = firsts (map subKey subs)" using ih by blast
  have mem: "subKey s \<in> set ord \<longleftrightarrow> (\<exists>u\<in>set subs. subKey u = subKey s)"
    unfolding ord by (simp add: image_iff) metis
  have sets: "{u \<in> set (subs @ [s]). subKey u = k} = {u \<in> set subs. subKey u = k} \<union> (if subKey s = k then {s} else {})" for k
    by auto
  show ?case
  proof (cases "ix (subKey s)")
    case None
    then have new: "subKey s \<notin> set ord" using ih by (metis option.distinct(1))
    have ix: "index = ix(subKey s \<mapsto> joinGroup s (newGroup s))" "order = ord @ [subKey s]"
      using st None by (simp_all add: addSubscription_def)
    have e: "{u \<in> set subs. subKey u = subKey s} = {}" "filter (\<lambda>u. subKey u = subKey s) subs = []"
      using new mem by (auto simp: filter_empty_conv)
    have ix': "index k = (if k \<in> set order
         then Some \<lparr>pg_url = fst k, pg_branch = snd k, pg_interval = pg_interval (the (index k)),
                    pg_handlers = map sub_handler (filter (\<lambda>u. subKey u = k) (subs @ [s]))\<rparr> else None)" for k
    proof (cases "k = subKey s")
      case True
      then show ?thesis using e(2) by (simp add: ix joinGroup_def newGroup_def subKey_def)
    next
      case False
      then have eqs: "index k = ix k" "(k \<in> set order) = (k \<in> set ord)"
        "filter (\<lambda>u. subKey u = k) (subs @ [s]) = filter (\<lambda>u. subKey u = k) subs"
        by (auto simp: ix)
      show ?thesis unfolding eqs by (rule ih [THEN conjunct2, THEN conjunct1, THEN spec])
    qed
    have iv: "pg_interval (the (index k)) = Min (sub_interval ` {u \<in> set (subs @ [s]). subKey u = k})"
      if pos: "\<forall>u\<in>set (subs @ [s]). 0 < sub_interval u" and k: "k \<in> set order" for k
    proof (cases "k = subKey s")
      case True
      then show ?thesis using pos unfolding sets True e(1)
        by (simp add: ix joinGroup_def newGroup_def effectiveInterval_def)
    next
      case False
      then show ?thesis using ih [THEN conjunct2, THEN conjunct2] pos k unfolding sets by (simp add: ix)
    qed
    have "order = firsts (map subKey (subs @ [s]))" using new by (simp add: ix(2) ord firsts_snoc)
    then show ?thesis using ix' iv by blast
  next
    case (Some g)
    then have old: "subKey s \<in> set ord" using ih by (metis option.distinct(1))
    have ix: "index = ix(subKey s \<mapsto> joinGroup s g)" "order = ord"
      using st Some by (simp_all add: addSubscription_def)
    let ?S = "{u \<in> set subs. subKey u = subKey s}"
    have ne: "?S \<noteq> {}" using old mem by auto
    have g: "g = \<lparr>pg_url = fst (subKey s), pg_branch = snd (subKey s), pg_interval = pg_interval g,
        pg_handlers = map sub_handler (filter (\<lambda>u. subKey u = subKey s) subs)\<rparr>"
      using ih [THEN conjunct2, THEN conjunct1, THEN spec, of "subKey s"]
      unfolding Some if_P [OF old] option.sel option.inject .
    have m: "Min (sub_interval ` (?S \<union> {s})) = min (sub_interval s) (Min (sub_interval ` ?S))"
      using ne by (simp add: image_Un Min_insert)
    have ord': "order = firsts (map subKey (subs @ [s]))" using old by (simp add: ix ord firsts_snoc)
    have ix': "index k = (if k \<in> set order
         then Some \<lparr>pg_url = fst k, pg_branch = snd k, pg_interval = pg_interval (the (index k)),
                    pg_handlers = map sub_handler (filter (\<lambda>u. subKey u = k) (subs @ [s]))\<rparr> else None)" for k
    proof (cases "k = subKey s")
      case True
      have gf: "pg_url g = sub_url s" "pg_branch g = sub_branch s"
        "pg_handlers g = map sub_handler (filter (\<lambda>u. subKey u = subKey s) subs)"
        using arg_cong [OF g, of pg_url] arg_cong [OF g, of pg_branch] arg_cong [OF g, of pg_handlers]
        by (simp_all only: poll_group.select_convs subKey_def fst_conv snd_conv)
      show ?thesis unfolding True using old gf by (cases g) (simp add: ix joinGroup_def subKey_def)
    next
      case False
      then have eqs: "index k = ix k" "(k \<in> set order) = (k \<in> set ord)"
        "filter (\<lambda>u. subKey u = k) (subs @ [s]) = filter (\<lambda>u. subKey u = k) subs"
        by (auto simp: ix)
      show ?thesis unfolding eqs by (rule ih [THEN conjunct2, THEN conjunct1, THEN spec])
    qed
    have iv: "pg_interval (the (index k)) = Min (sub_interval ` {u \<in> set (subs @ [s]). subKey u = k})"
      if pos: "\<forall>u\<in>set (subs @ [s]). 0 < sub_interval u" and k: "k \<in> set order" for k
    proof (cases "k = subKey s")
      case True
      have "pg_interval g = Min (sub_interval ` ?S)"
        using ih [THEN conjunct2, THEN conjunct2] old pos by (auto simp: Some dest!: bspec [of _ _ "subKey s"])
      then show ?thesis using m pos unfolding sets True by (simp add: ix joinGroup_def min_def)
    next
      case False
      then show ?thesis using ih [THEN conjunct2, THEN conjunct2] pos k unfolding sets by (simp add: ix)
    qed
    show ?thesis using ord' ix' iv by blast
  qed
qed

text \<open>What the groups of a list of subscriptions are.\<close>

lemma buildGroups_spec:
  assumes "\<forall>s\<in>set subs. 0 < sub_interval s"
  shows "map (\<lambda>g. (pg_url g, pg_branch g)) (buildGroups subs) = firsts (map subKey subs)
    \<and> (\<forall>g\<in>set (buildGroups subs).
         pg_handlers g = map sub_handler (filter (\<lambda>s. subKey s = (pg_url g, pg_branch g)) subs)
         \<and> pg_interval g = Min (sub_interval ` {s \<in> set subs. subKey s = (pg_url g, pg_branch g)}))"
proof -
  obtain ix ord where io: "foldl addSubscription (Map.empty, []) subs = (ix, ord)" by (rule prod.exhaust)
  note f = foldl_groups [OF io]
  have b: "buildGroups subs = map (\<lambda>k. the (ix k)) ord" by (simp add: buildGroups_def io)
  have g: "pg_url (the (ix k)) = fst k \<and> pg_branch (the (ix k)) = snd k
      \<and> pg_handlers (the (ix k)) = map sub_handler (filter (\<lambda>s. subKey s = k) subs)" if "k \<in> set ord" for k
  proof -
    have "ix k = Some \<lparr>pg_url = fst k, pg_branch = snd k, pg_interval = pg_interval (the (ix k)),
        pg_handlers = map sub_handler (filter (\<lambda>s. subKey s = k) subs)\<rparr>"
      using f [THEN conjunct2, THEN conjunct1, THEN spec, of k] that by (simp only: if_True)
    then show ?thesis by (metis option.sel poll_group.select_convs)
  qed
  have "map (\<lambda>g. (pg_url g, pg_branch g)) (buildGroups subs) = ord"
    unfolding b map_map by (rule map_idI) (use g in auto)
  moreover have "pg_interval (the (ix k)) = Min (sub_interval ` {s \<in> set subs. subKey s = k})" if "k \<in> set ord" for k
    using f assms that by blast
  ultimately show ?thesis using f g unfolding b by auto
qed

text \<open>
  Subscriptions are grouped exactly: there is one group per URL and branch, in the order in which
  they are first mentioned, its handlers are those subscribed to it, in registration order, and with
  positive intervals it is polled at the least of the intervals they asked for.
\<close>

theorem buildGroups_exact:
  assumes "\<forall>s\<in>set subs. 0 < sub_interval s"
  shows "map (\<lambda>g. (pg_url g, pg_branch g)) (buildGroups subs) = firsts (map subKey subs)
    \<and> (\<forall>g\<in>set (buildGroups subs).
         pg_handlers g = map sub_handler (filter (\<lambda>s. subKey s = (pg_url g, pg_branch g)) subs)
         \<and> pg_interval g = Min (sub_interval ` {s \<in> set subs. subKey s = (pg_url g, pg_branch g)}))"
  using assms by (rule buildGroups_spec)

lemma buildGroups_exact_witness:
  "map pg_interval (buildGroups
     [\<lparr>sub_url = ''u'', sub_branch = ''b'', sub_interval = 30, sub_handler = (1::nat)\<rparr>,
      \<lparr>sub_url = ''u'', sub_branch = ''b'', sub_interval = 10, sub_handler = 2\<rparr>]) = [10]"
proof -
  let ?s = "[\<lparr>sub_url = ''u'', sub_branch = ''b'', sub_interval = 30, sub_handler = (1::nat)\<rparr>,
      \<lparr>sub_url = ''u'', sub_branch = ''b'', sub_interval = 10, sub_handler = 2\<rparr>]"
  note x = buildGroups_exact [of ?s]
  have k: "firsts (map subKey ?s) = [(''u'', ''b'')]" by (simp add: subKey_def)
  have p: "\<forall>s\<in>set ?s. 0 < sub_interval s" by simp
  obtain g where g: "buildGroups ?s = [g]" "(pg_url g, pg_branch g) = (''u'', ''b'')"
    using x [OF p] unfolding k by (cases "buildGroups ?s"; cases "tl (buildGroups ?s)") auto
  have "{s \<in> set ?s. subKey s = (pg_url g, pg_branch g)} = set ?s" using g(2) by (auto simp: subKey_def)
  then have "pg_interval g = 10" using x [OF p] unfolding g(1) by simp
  then show ?thesis using g(1) by simp
qed

section \<open>What a poll does\<close>

lemma savePoll_spec:
  assumes "dp \<noteq> []" "\<forall>p. \<not> dk_write_fails d p \<and> \<not> dk_mkdir_fails d p" "safeName (rs_repo rs)"
  shows "getRepoState dp (rs_repo rs) (rs_branch rs) (savePoll dp now rs d) = Inr (Some (rs\<lparr>rs_updated_at := now\<rparr>))
    \<and> latestOf dp (savePoll dp now rs d) = latestOf dp d"
  using saveRepoState_spec [OF assms, of now] unfolding savePoll_def by (elim exE conjE) simp

definition polledState :: "'w poller \<Rightarrow> repo_config \<Rightarrow> disk \<Rightarrow> repo_state" where
  "polledState po r d =
     (case getRepoState (po_data_path po) (repo_name r) (repo_branch r) d of
        Inr (Some rs) \<Rightarrow> rs
      | _ \<Rightarrow> zeroRepoState\<lparr>rs_repo := repo_name r, rs_branch := repo_branch r\<rparr>)"

text \<open>
  What a poll decides, stated over what git answers at the moment of each question. Git's queries do not
  change the world; only the reload and a fetch do.
\<close>

definition pureMirror :: "'w mirror_repo \<Rightarrow> bool" where
  "pureMirror m \<longleftrightarrow>
     (\<forall>w. (\<forall>c. snd (mr_has_commit m c w) = w) \<and> (\<forall>a b. snd (mr_is_ancestor m a b w) = w)
        \<and> (\<forall>a b. snd (mr_diff_files m a b w) = w))"

definition mirrorAt :: "'w finder \<Rightarrow> gostring \<Rightarrow> 'w \<Rightarrow> 'w mirror_repo option" where
  "mirrorAt f url w = (case f url w of Inr (Some m) \<Rightarrow> Some m | _ \<Rightarrow> None)"

text \<open>Stale: the first mirror that knows both commits says that the one polled precedes the deployed one.\<close>

definition staleAt :: "'w finder list \<Rightarrow> gostring \<Rightarrow> gostring \<Rightarrow> gostring \<Rightarrow> 'w \<Rightarrow> bool" where
  "staleAt fs url sha deployed w =
     (case List.find (\<lambda>m. fst (mr_has_commit m sha w) \<and> fst (mr_has_commit m deployed w))
             (List.map_filter (\<lambda>f. mirrorAt f url w) fs) of
        None \<Rightarrow> False
      | Some m \<Rightarrow> fst (mr_is_ancestor m sha deployed w))"

definition reloadAt :: "'w poller \<Rightarrow> repo_config \<Rightarrow> 'w \<Rightarrow> goerror \<times> 'w" where
  "reloadAt po r w = (case po_reload po of None \<Rightarrow> (None, w) | Some f \<Rightarrow> f (repo_name r) w)"

definition fetchAt :: "'w mirror_repo option \<Rightarrow> gostring \<Rightarrow> 'w \<Rightarrow> goerror \<times> 'w" where
  "fetchAt mirror sha w =
     (case mirror of
        None \<Rightarrow> (None, w)
      | Some m \<Rightarrow> if fst (mr_has_commit m sha w) then (None, w) else mr_ensure_commit m sha w)"

text \<open>The targets to deploy: neither at this commit already nor proved untouched since their last success.\<close>

definition needDeploy ::
  "gostring \<Rightarrow> disk \<Rightarrow> 'w mirror_repo option \<Rightarrow> gostring \<Rightarrow> 'w \<Rightarrow> deploy_target list \<Rightarrow> deploy_target list" where
  "needDeploy dp d mirror sha w ts =
     filter (\<lambda>t. \<not> shouldSkipDeploy dp d (proj_name (t_project t)) (host_name (t_host t)) sha
        \<and> (case mirror of
             None \<Rightarrow> True
           | Some m \<Rightarrow> \<not> provablyUntouched (\<lambda>c. fst (mr_has_commit m c w)) (\<lambda>a b. fst (mr_diff_files m a b w)) dp d sha t)) ts"

lemma pureMirrorD:
  assumes "pureMirror m"
  shows "mr_has_commit m c w = (fst (mr_has_commit m c w), w)" "mr_is_ancestor m a b w = (fst (mr_is_ancestor m a b w), w)"
    "mr_diff_files m a b w = (fst (mr_diff_files m a b w), w)"
  using assms unfolding pureMirror_def by (metis prod.collapse)+

lemma untouched_pure:
  assumes "pureMirror m"
  shows "targetUntouchedSinceLastDeploy dp d (Some m) t sha w =
    (provablyUntouched (\<lambda>c. fst (mr_has_commit m c w)) (\<lambda>a b. fst (mr_diff_files m a b w)) dp d sha t, w)"
proof -
  obtain r where r: "getLatestDeployment dp (proj_name (t_project t)) (host_name (t_host t)) d = r" by blast
  show ?thesis
  proof (cases "\<exists>latest. r = Inr (Some latest)")
    case False
    then show ?thesis
      by (cases r; cases "projr r") (auto simp: targetUntouchedSinceLastDeploy_def provablyUntouched_def r)
  next
    case True
    then obtain latest where l: "r = Inr (Some latest)" by blast
    show ?thesis
      unfolding targetUntouchedSinceLastDeploy_def provablyUntouched_def r l option.case sum.case Let_def
      by (subst pureMirrorD [OF assms], cases "fst (mr_has_commit m (dep_commit_sha latest) w)";
          cases "fst (mr_has_commit m sha w)"; cases "fst (mr_diff_files m (dep_commit_sha latest) sha w)")
         (use pureMirrorD(1) [OF assms, of sha w] pureMirrorD(3) [OF assms, of "dep_commit_sha latest" sha w] in \<open>auto split: prod.splits\<close>)
  qed
qed

lemma pending_need:
  assumes "\<forall>m. mirror = Some m \<longrightarrow> pureMirror m"
  shows "pendingTargetsForHead dp d ts sha mirror w = (needDeploy dp d mirror sha w ts, w)"
proof (cases mirror)
  case None
  then show ?thesis
    by (induction ts) (simp_all add: needDeploy_def targetUntouchedSinceLastDeploy_def)
next
  case (Some m)
  then have "pureMirror m" using assms by blast
  then show ?thesis unfolding Some
    by (induction ts) (simp_all add: needDeploy_def untouched_pure split: bool.split)
qed

lemma isStalePoll_staleAt:
  assumes "\<forall>f\<in>set fs. \<forall>m. mirrorAt f url w = Some m \<longrightarrow> pureMirror m"
  shows "isStalePoll fs url sha deployed w = (staleAt fs url sha deployed w, w)"
  using assms
proof (induction fs)
  case Nil
  then show ?case by (simp add: staleAt_def List.map_filter_def)
next
  case (Cons f fs)
  have ih: "isStalePoll fs url sha deployed w = (staleAt fs url sha deployed w, w)" using Cons by simp
  show ?case
  proof (cases "mirrorAt f url w")
    case None
    then have "isStalePoll (f # fs) url sha deployed w = isStalePoll fs url sha deployed w"
      by (auto simp: mirrorAt_def split: sum.splits option.splits)
    then show ?thesis using ih None by (simp add: staleAt_def List.map_filter_def)
  next
    case (Some m)
    then have f: "f url w = Inr (Some m)" by (auto simp: mirrorAt_def split: sum.splits option.splits)
    have p: "pureMirror m" using Cons.prems Some by simp
    note q = pureMirrorD [OF p]
    show ?thesis
      using ih Some f q(1) [of sha w] q(1) [of deployed w] q(2) [of sha deployed w]
      by (cases "fst (mr_has_commit m sha w)"; cases "fst (mr_has_commit m deployed w)")
         (auto simp: staleAt_def List.map_filter_def)
  qed
qed

lemma pollMirror_fetch:
  assumes "\<forall>m. mirrorAt (po_find_repo po) url w = Some m \<longrightarrow> pureMirror m"
  shows "pollMirror po url sha w =
    (case fetchAt (mirrorAt (po_find_repo po) url w) sha w of
       (Some e, w') \<Rightarrow> (Inl e, w') | (None, w') \<Rightarrow> (Inr (mirrorAt (po_find_repo po) url w), w'))"
proof (cases "mirrorAt (po_find_repo po) url w")
  case None
  then show ?thesis by (auto simp: pollMirror_def fetchAt_def mirrorAt_def split: sum.splits option.splits)
next
  case (Some m)
  then have f: "po_find_repo po url w = Inr (Some m)" by (auto simp: mirrorAt_def split: sum.splits option.splits)
  have "pureMirror m" using assms Some by blast
  from pureMirrorD(1) [OF this, of sha w] show ?thesis
    by (cases "fst (mr_has_commit m sha w)") (auto simp: pollMirror_def fetchAt_def Some f split: prod.splits option.splits)
qed

text \<open>
  C16. A poll deploys exactly what a new commit needs. It accepts the commit iff that differs from the last
  deployed one, is not an ancestor of it in the first mirror that knows both, the reload of the
  configuration succeeds, and the mirror has the commit or fetches it. Then, and only then, the commit is
  recorded as deployed; and an event is dispatched iff some target of the repository, under the
  configuration in use after the reload and the fetch, is neither at this commit nor proved untouched
  since its last success, and the event makes the planner deploy exactly those. Otherwise the last
  deployed commit stays, so the next poll tries again. Either way the commit is recorded as seen, and no
  deployment record changes.
\<close>

theorem handleSHA_exact:
  assumes "po_data_path po \<noteq> []" and "\<forall>p. \<not> dk_write_fails (en_disk s) p \<and> \<not> dk_mkdir_fails (en_disk s) p"
    and "safeName (repo_name r)"
    and "getRepoState (po_data_path po) (repo_name r) (repo_branch r) (en_disk s) = Inr found"
    and "\<forall>rs. found = Some rs \<longrightarrow> rs_repo rs = repo_name r \<and> rs_branch rs = repo_branch r"
    and "\<forall>f\<in>set (finders po). \<forall>w m. mirrorAt f (repo_url r) w = Some m \<longrightarrow> pureMirror m"
    and "handleSHA po now r sha s = (out, s')"
    and "prev = rs_last_deployed_sha (polledState po r (en_disk s))"
    and "reloadAt po r (en_world s) = (err, w2)"
    and "mirror = mirrorAt (po_find_repo po) (repo_url r) w2" and "fetchAt mirror sha w2 = (ferr, w3)"
    and "pending = needDeploy (po_data_path po) (en_disk s) mirror sha w3
                     (targetsForRepo (po_get_config po w3) (repo_name r))"
    and "accepted \<longleftrightarrow> sha \<noteq> prev \<and> \<not> (prev \<noteq> [] \<and> staleAt (finders po) (repo_url r) sha prev (en_world s))
                     \<and> err = None \<and> ferr = None"
  shows "out = (if accepted \<and> pending \<noteq> []
                then Some (forcedEvent TriggerPoll (repo_name r) (repo_branch r) sha pending False) else None)
    \<and> (\<forall>ev cfg. out = Some ev \<longrightarrow> ev_commit_sha ev = sha \<and> ev_repo_name ev = repo_name r \<and> plan cfg ev = pending)
    \<and> (\<exists>rs. getRepoState (po_data_path po) (repo_name r) (repo_branch r) (en_disk s') = Inr (Some rs)
         \<and> rs_last_seen_sha rs = sha \<and> rs_last_deployed_sha rs = (if accepted then sha else prev))
    \<and> latestOf (po_data_path po) (en_disk s') = latestOf (po_data_path po) (en_disk s)"
proof -
  let ?dp = "po_data_path po" and ?d = "en_disk s"
  let ?found = "polledState po r ?d"
  let ?rs = "?found\<lparr>rs_last_seen_sha := sha, rs_last_polled_at := Some now\<rparr>"
  let ?done = "?rs\<lparr>rs_last_deployed_sha := sha, rs_trigger_source := TriggerPoll\<rparr>"
  let ?event = "forcedEvent TriggerPoll (repo_name r) (repo_branch r) sha pending False"
  have rs0: "(case found of None \<Rightarrow> zeroRepoState\<lparr>rs_repo := repo_name r, rs_branch := repo_branch r\<rparr> | Some rs \<Rightarrow> rs) = ?found"
    unfolding polledState_def assms(4) by (cases found) simp_all
  have k: "rs_repo ?found = repo_name r" "rs_branch ?found = repo_branch r"
    using assms(4,5) by (cases found; simp add: polledState_def)+
  have ds: "rs_last_deployed_sha ?rs = prev" by (simp add: assms(8))
  have pu: "\<forall>f\<in>set (finders po). \<forall>m. mirrorAt f (repo_url r) (en_world s) = Some m \<longrightarrow> pureMirror m"
    "\<forall>m. mirrorAt (po_find_repo po) (repo_url r) w2 = Some m \<longrightarrow> pureMirror m"
    using assms(6) by (auto simp: finders_def)
  note stale = isStalePoll_staleAt [OF pu(1), of sha prev]
  have mi: "pollMirror po (repo_url r) sha w2 = (case ferr of Some e \<Rightarrow> (Inl e, w3) | None \<Rightarrow> (Inr mirror, w3))"
    unfolding pollMirror_fetch [OF pu(2)] assms(10) [symmetric] assms(11) by (simp split: option.split)
  have pe: "pendingTargetsForHead ?dp ?d (targetsForRepo (po_get_config po w3) (repo_name r)) sha mirror w3 = (pending, w3)"
    using pending_need [of mirror] pu(2) by (simp add: assms(10,12))
  note h = assms(7) [unfolded handleSHA_def Let_def assms(4) sum.case rs0 ds stale, folded reloadAt_def]
  have disk: "en_disk s' = savePoll ?dp now (if accepted then ?done else ?rs) ?d
      \<and> out = (if accepted \<and> pending \<noteq> [] then Some ?event else None)"
  proof (cases "sha = prev \<or> prev \<noteq> [] \<and> staleAt (finders po) (repo_url r) sha prev (en_world s)")
    case True
    then have "\<not> accepted" using assms(13) by blast
    then show ?thesis using h True by (cases "sha = prev") (auto split: if_splits)
  next
    case False
    have v: "(if prev \<noteq> [] then (staleAt (finders po) (repo_url r) sha prev (en_world s), en_world s)
        else (False, en_world s)) = (False, en_world s)" using False by auto
    have n: "sha \<noteq> prev" using False by blast
    note h1 = h [unfolded if_not_P [OF n] v prod.case bool.case assms(9)]
    show ?thesis
    proof (cases "err = None \<and> ferr = None")
      case True
      then have "accepted" using assms(13) False by blast
      then show ?thesis using h1 True by (auto simp: mi pe)
    next
      case e: False
      then have "\<not> accepted" using assms(13) by blast
      then show ?thesis using h1 e by (cases err; cases ferr) (auto simp: mi)
    qed
  qed
  have plan: "plan cfg ?event = pending" if "pending \<noteq> []" for cfg using that by (simp add: plan_forcedEvent)
  have "\<exists>rs. getRepoState ?dp (repo_name r) (repo_branch r) (en_disk s') = Inr (Some rs) \<and> rs_last_seen_sha rs = sha
      \<and> rs_last_deployed_sha rs = (if accepted then sha else prev)"
    and "latestOf ?dp (en_disk s') = latestOf ?dp ?d"
    using savePoll_spec [OF assms(1,2), of ?done now] savePoll_spec [OF assms(1,2), of ?rs now] assms(3) disk k ds
    by (cases accepted; simp)+
  then show ?thesis using disk plan by (auto simp: forcedEvent_def)
qed

definition demoPoller :: "unit poller" where
  "demoPoller = \<lparr>po_data_path = ''/data'', po_get_config = (\<lambda>w. demoConfig), po_reload = None,
     po_find_repo = (\<lambda>u w. Inr (Some demoMirror)), po_find_config_mirror = None\<rparr>"

lemma handleSHA_exact_witness:
  "fst (handleSHA demoPoller 9 demoRepo ''abc'' \<lparr>en_world = (), en_disk = emptyDisk\<rparr>) =
     Some (forcedEvent TriggerPoll ''app'' ''main'' ''abc'' [demoTarget] False)"
proof -
  let ?s = "\<lparr>en_world = (), en_disk = emptyDisk\<rparr>"
  obtain out s' where h: "handleSHA demoPoller 9 demoRepo ''abc'' ?s = (out, s')" by (metis prod.exhaust)
  have n: "getRepoState (po_data_path demoPoller) (repo_name demoRepo) (repo_branch demoRepo) (en_disk ?s) = Inr None"
    by (simp add: getRepoState_def emptyDisk_def dkRead_def asRepoState_def demoPoller_def)
  have a: "po_data_path demoPoller \<noteq> []" "\<forall>p. \<not> dk_write_fails (en_disk ?s) p \<and> \<not> dk_mkdir_fails (en_disk ?s) p"
    "safeName (repo_name demoRepo)"
    by (simp_all add: emptyDisk_def demoRepo_def safeName_def demoPoller_def)
  have k: "\<forall>rs. None = Some rs \<longrightarrow> rs_repo rs = repo_name demoRepo \<and> rs_branch rs = repo_branch demoRepo" by simp
  have pu: "\<forall>f\<in>set (finders demoPoller). \<forall>w m. mirrorAt f (repo_url demoRepo) w = Some m \<longrightarrow> pureMirror m"
    by (simp add: finders_def demoPoller_def mirrorAt_def pureMirror_def demoMirror_def)
  have m: "reloadAt demoPoller demoRepo (en_world ?s) = (None, ())"
    "Some demoMirror = mirrorAt (po_find_repo demoPoller) (repo_url demoRepo) ()" "fetchAt (Some demoMirror) ''abc'' () = (None, ())"
    by (simp_all add: reloadAt_def demoPoller_def mirrorAt_def fetchAt_def demoMirror_def)
  have prev: "[] = rs_last_deployed_sha (polledState demoPoller demoRepo (en_disk ?s))"
    using n by (simp add: polledState_def zeroRepoState_def)
  have "targetsForRepo (po_get_config demoPoller ()) (repo_name demoRepo) = [demoTarget]"
    by (simp add: demoPoller_def) code_simp
  then have p: "[demoTarget] = needDeploy (po_data_path demoPoller) (en_disk ?s) (Some demoMirror) ''abc'' ()
      (targetsForRepo (po_get_config demoPoller ()) (repo_name demoRepo))"
    by (simp add: needDeploy_def demoPoller_def shouldSkipDeploy_def provablyUntouched_def emptyDisk_latest [simplified])
  have c: "repo_name demoRepo = ''app''" "repo_branch demoRepo = ''main''" by (simp_all add: demoRepo_def)
  have acc: "True \<longleftrightarrow> ''abc'' \<noteq> [] \<and> \<not> ([] \<noteq> ([]::gostring) \<and> staleAt (finders demoPoller) (repo_url demoRepo) ''abc'' [] (en_world ?s))
      \<and> (None :: goerror) = None \<and> (None :: goerror) = None" by simp
  from handleSHA_exact [OF a n k pu h prev m p acc] show ?thesis using h by (simp add: c)
qed

end
