(* ===== verification/Reload.thy ===== *)
theory Reload
  imports Bootstrap
begin

text \<open>
  Configuration reloads (\<open>internal/daemon/reloader.go\<close>) and the reconcile loop
  (\<open>internal/daemon/reconcile_loop.go\<close>): the reloader as functions over the configuration pointer, and
  the loop with its concurrent reloads as a step relation over the pointer, the trigger channel and
  the pass in progress.
\<close>

section \<open>The reloader\<close>

text \<open>
  \<open>applyConfigChange\<close>, which runs under a mutex: the error, the configuration pointer after, and the
  arguments of \<open>onReload\<close> if it is called.
\<close>

definition applyConfigChange :: "config_result \<Rightarrow> config \<Rightarrow> goerror \<times> config \<times> (config \<times> config) option" where
  "applyConfigChange res old =
     (let new = cr_config res in
      if old = new then (None, old, None)
      else if blockingIssues new \<noteq> [] then (Some ''config validation failed'', old, None)
      else (None, new, Some (old, new)))"

text \<open>The watcher's reload, which ignores a result from the cache.\<close>

definition fetchAndApply ::
  "'w loader \<Rightarrow> env_config \<Rightarrow> gostring file_state \<Rightarrow> 'w cache_state \<times> config
   \<Rightarrow> (config \<times> config) option \<times> 'w cache_state \<times> config" where
  "fetchAndApply ld env localFile s =
     (case loadConfig ld env localFile (fst s) of
        (Inl e, st) \<Rightarrow> (None, st, snd s)
      | (Inr res, st) \<Rightarrow>
          if cr_from_cache res then (None, st, snd s)
          else (case applyConfigChange res (snd s) of (err, c, reloaded) \<Rightarrow> (reloaded, st, c)))"

datatype reload_error = FetchFailed load_error | OnlyCache | Invalid gostring

definition reloadConfig ::
  "'w loader \<Rightarrow> env_config \<Rightarrow> gostring file_state \<Rightarrow> 'w cache_state \<times> config
   \<Rightarrow> (reload_error option \<times> (config \<times> config) option) \<times> 'w cache_state \<times> config" where
  "reloadConfig ld env localFile s =
     (case loadConfig ld env localFile (fst s) of
        (Inl e, st) \<Rightarrow> ((Some (FetchFailed e), None), st, snd s)
      | (Inr res, st) \<Rightarrow>
          if cr_from_cache res then ((Some OnlyCache, None), st, snd s)
          else (case applyConfigChange res (snd s) of
                  (err, c, reloaded) \<Rightarrow> ((map_option Invalid err, reloaded), st, c)))"

text \<open>Events of the file system under the local configuration's directory: a name and its operations.\<close>

record fs_event =
  fe_name :: gostring
  fe_write :: bool
  fe_create :: bool
  fe_rename :: bool

definition localEventReloads :: "gostring \<Rightarrow> fs_event \<Rightarrow> bool" where
  "localEventReloads configFile e \<longleftrightarrow>
     pathBase (fe_name e) = pathBase configFile \<and> (fe_write e \<or> fe_create e \<or> fe_rename e)"

lemma applyConfigChange_cases:
  assumes "applyConfigChange res old = (err, c, r)"
  shows "(c = old \<and> r = None \<or> c = cr_config res \<and> c \<noteq> old \<and> blockingIssues c = [] \<and> r = Some (old, c))
    \<and> (err = None \<longrightarrow> c = cr_config res) \<and> (err \<noteq> None \<longrightarrow> c = old)"
  using assms by (auto simp: applyConfigChange_def Let_def split: if_splits)

text \<open>
  C20. The configuration in use is never broken by a reload and never rolled back: after a reload the
  pointer holds the old configuration or the one just loaded from its source, which then has no
  blocking issue, differs from the old one and is announced to \<open>onReload\<close>; a cached configuration
  is never applied; without an error the pointer agrees with the source; and the reload of the
  watcher does the same without reporting errors.
\<close>

theorem reload_keeps_valid:
  assumes "reloadConfig ld env localFile (st, old) = ((err, r), st', c)"
  shows "(c = old \<and> r = None
       \<or> (\<exists>res. loadConfig ld env localFile st = (Inr res, st') \<and> \<not> cr_from_cache res \<and> c = cr_config res
            \<and> c \<noteq> old \<and> blockingIssues c = [] \<and> r = Some (old, c)))
    \<and> (err = None \<longrightarrow> (\<exists>res. loadConfig ld env localFile st = (Inr res, st') \<and> \<not> cr_from_cache res \<and> c = cr_config res))
    \<and> (blockingIssues old = [] \<longrightarrow> blockingIssues c = [])
    \<and> fetchAndApply ld env localFile (st, old) = (r, st', c)"
proof -
  obtain l st1 where l: "loadConfig ld env localFile st = (l, st1)" by (rule prod.exhaust)
  show ?thesis
  proof (cases l)
    case (Inl e)
    with assms l show ?thesis by (auto simp: reloadConfig_def fetchAndApply_def)
  next
    case (Inr res)
    obtain e c' r' where a: "applyConfigChange res old = (e, c', r')" by (metis prod.exhaust)
    show ?thesis
      using assms l Inr a applyConfigChange_cases [OF a]
      by (cases "cr_from_cache res") (auto simp: reloadConfig_def fetchAndApply_def)
  qed
qed

lemma reload_keeps_valid_witness:
  "\<exists>err r st' c. reloadConfig demoLoader demoEnv FileMissing (demoCache, demoConfig) = ((err, r), st', c)
     \<and> blockingIssues c = []"
proof -
  obtain err r st' c where h: "reloadConfig demoLoader demoEnv FileMissing (demoCache, demoConfig) = ((err, r), st', c)"
    by (metis prod.exhaust)
  have "blockingIssues demoConfig = []" by code_simp
  then show ?thesis using reload_keeps_valid [OF h] h by blast
qed

section \<open>The reconcile loop\<close>

text \<open>One pass over the configuration it read: the reconciliation made, if any, and the new baseline.\<close>

definition pass :: "config option \<Rightarrow> config option \<Rightarrow> (config \<times> config) option \<times> config option" where
  "pass current applied =
     (case current of
        None \<Rightarrow> (None, applied)
      | Some c \<Rightarrow>
          if blockingIssues c \<noteq> [] then (None, applied)
          else (case applied of
                  None \<Rightarrow> (None, Some c)
                | Some a \<Rightarrow> if a = c then (None, applied) else (Some (a, c), Some c)))"

text \<open>
  The loop with the reloads that run beside it. \<open>lp_stored\<close> holds while a reload has stored its
  configuration and has not sent its trigger yet; \<open>lp_pass\<close> is the configuration that the pass in
  progress has read.
\<close>

record loop_state =
  lp_config :: config
  lp_stored :: bool
  lp_trigger :: bool
  lp_pass :: "config option"
  lp_applied :: "config option"
  lp_persisted :: "config option" \<comment> \<open>the last configuration given to \<open>persist\<close>\<close>
  lp_reconciled :: "(config \<times> config) list"

text \<open>After \<open>Start\<close> and the daemon's first \<open>Trigger\<close>, with the baseline of the last run.\<close>

definition startLoop :: "config \<Rightarrow> config option \<Rightarrow> loop_state" where
  "startLoop c previous =
     \<lparr>lp_config = c, lp_stored = False, lp_trigger = True, lp_pass = None, lp_applied = previous,
      lp_persisted = previous, lp_reconciled = []\<rparr>"

definition finishPass :: "config \<Rightarrow> loop_state \<Rightarrow> loop_state" where
  "finishPass c s =
     (case pass (Some c) (lp_applied s) of
        (rec, applied) \<Rightarrow>
          s\<lparr>lp_pass := None, lp_applied := applied, lp_persisted := applied,
            lp_reconciled := lp_reconciled s @ (case rec of None \<Rightarrow> [] | Some p \<Rightarrow> [p])\<rparr>)"

inductive loop_step :: "loop_state \<Rightarrow> loop_state \<Rightarrow> bool" where
  store: "\<lbrakk>\<not> lp_stored s; c \<noteq> lp_config s; blockingIssues c = []\<rbrakk>
    \<Longrightarrow> loop_step s (s\<lparr>lp_config := c, lp_stored := True\<rparr>)"
| trigger: "lp_stored s \<Longrightarrow> loop_step s (s\<lparr>lp_stored := False, lp_trigger := True\<rparr>)"
| begin_pass: "\<lbrakk>lp_trigger s; lp_pass s = None\<rbrakk>
    \<Longrightarrow> loop_step s (s\<lparr>lp_trigger := False, lp_pass := Some (lp_config s)\<rparr>)"
| end_pass: "lp_pass s = Some c \<Longrightarrow> loop_step s (finishPass c s)"

inductive_cases loop_stepE: "loop_step s s'"

inductive loop_steps :: "loop_state \<Rightarrow> loop_state \<Rightarrow> bool" where
  none: "loop_steps s s"
| more: "\<lbrakk>loop_steps s s'; loop_step s' s''\<rbrakk> \<Longrightarrow> loop_steps s s''"

text \<open>The reconciliations form a chain from the first baseline to the last.\<close>

fun chain :: "config option \<Rightarrow> (config \<times> config) list \<Rightarrow> config option \<Rightarrow> bool" where
  "chain a [] b \<longleftrightarrow> (a = b \<or> a = None \<and> (\<exists>c. b = Some c \<and> blockingIssues c = []))"
| "chain a ((x, y) # ps) b \<longleftrightarrow>
     (a = Some x \<or> a = None \<and> blockingIssues x = []) \<and> x \<noteq> y \<and> blockingIssues y = [] \<and> chain (Some y) ps b"

lemma chain_snoc:
  "\<lbrakk>chain a ps (Some x); x \<noteq> y; blockingIssues y = []\<rbrakk> \<Longrightarrow> chain a (ps @ [(x, y)]) (Some y)"
  by (induction a ps "Some x" rule: chain.induct) auto

lemma chain_adopt: "\<lbrakk>chain a ps None; blockingIssues c = []\<rbrakk> \<Longrightarrow> chain a ps (Some c)"
  by (induction a ps "None :: config option" rule: chain.induct) auto

definition settled :: "config \<Rightarrow> config option \<Rightarrow> bool" where
  "settled c applied \<longleftrightarrow> (if blockingIssues c = [] then applied = Some c else True)"

definition loopInv :: "config option \<Rightarrow> loop_state \<Rightarrow> bool" where
  "loopInv previous s \<longleftrightarrow>
     chain previous (lp_reconciled s) (lp_applied s) \<and> lp_persisted s = lp_applied s
     \<and> (\<not> lp_stored s \<and> \<not> lp_trigger s \<longrightarrow>
          (case lp_pass s of None \<Rightarrow> settled (lp_config s) (lp_applied s) | Some c \<Rightarrow> c = lp_config s))"

lemma pass_settles: "settled c (snd (pass (Some c) a))"
  by (auto simp: pass_def settled_def split: option.split)

lemma loopInv_start: "loopInv previous (startLoop c previous)"
  by (simp add: loopInv_def startLoop_def)

lemma loopInv_finish:
  assumes inv: "loopInv previous s" and p: "lp_pass s = Some c"
  shows "loopInv previous (finishPass c s)"
proof -
  obtain r a where r: "pass (Some c) (lp_applied s) = (r, a)" by (rule prod.exhaust)
  have "chain previous (lp_reconciled s @ (case r of None \<Rightarrow> [] | Some q \<Rightarrow> [q])) a"
    using r inv by (auto simp: pass_def loopInv_def chain_snoc chain_adopt split: if_splits option.splits)
  moreover have "settled c a" using pass_settles [of c "lp_applied s"] r by simp
  ultimately show ?thesis
    using inv p by (auto simp: loopInv_def finishPass_def r)
qed

lemma loopInv_step: "loop_step s s' \<Longrightarrow> loopInv previous s \<Longrightarrow> loopInv previous s'"
proof (induction rule: loop_step.induct)
  case (end_pass s c)
  then show ?case by (intro loopInv_finish)
qed (auto simp: loopInv_def)

lemma loopInv_steps: "loop_steps s s' \<Longrightarrow> loopInv previous s \<Longrightarrow> loopInv previous s'"
  by (induction rule: loop_steps.induct) (auto intro: loopInv_step)

text \<open>What is left to do before the loop is at rest, when no further reload comes.\<close>

definition loopWork :: "loop_state \<Rightarrow> nat" where
  "loopWork s = (if lp_stored s then 3 else 0) + (if lp_trigger s then 2 else 0) + (if lp_pass s \<noteq> None then 1 else 0)"

lemma loop_progress:
  assumes "0 < loopWork s"
  obtains s' where "loop_step s s'" "loopWork s' < loopWork s" "lp_config s' = lp_config s"
proof -
  consider c where "lp_pass s = Some c" | "lp_pass s = None" "lp_trigger s" | "lp_stored s"
    using assms by (auto simp: loopWork_def split: if_splits)
  then show thesis
  proof cases
    case (1 c)
    show thesis
      using that [OF loop_step.end_pass [OF 1]] 1 by (auto simp: loopWork_def finishPass_def split: prod.split)
  next
    case 2
    show thesis using that [OF loop_step.begin_pass [OF 2(2,1)]] 2 by (auto simp: loopWork_def)
  next
    case 3
    show thesis using that [OF loop_step.trigger [OF 3]] 3 by (auto simp: loopWork_def)
  qed
qed

lemma loop_steps_left: "\<lbrakk>loop_step s t; loop_steps t u\<rbrakk> \<Longrightarrow> loop_steps s u"
  by (rotate_tac 1, induction rule: loop_steps.induct) (auto intro: loop_steps.intros)

lemma loop_rests:
  "\<exists>t. loop_steps s t \<and> loopWork t = 0 \<and> lp_config t = lp_config s"
proof (induction "loopWork s" arbitrary: s rule: less_induct)
  case less
  show ?case
  proof (cases "loopWork s = 0")
    case True
    then show ?thesis using loop_steps.none by blast
  next
    case False
    then obtain s' where s': "loop_step s s'" "loopWork s' < loopWork s" "lp_config s' = lp_config s"
      using loop_progress by blast
    obtain t where t: "loop_steps s' t" "loopWork t = 0" "lp_config t = lp_config s'"
      using less [OF s'(2)] by blast
    show ?thesis using loop_steps_left [OF s'(1) t(1)] t(2,3) s'(3) by auto
  qed
qed

text \<open>
  C17. No configuration change is lost, whatever the interleaving of reloads, triggers and passes: the
  reconciliations that were made form an unbroken chain of valid configurations from the baseline of
  the last run to the applied one, which is also the one persisted; when nothing is in progress the
  configuration in use, if it has no blocking issue, is the applied one; and from every reachable
  state the loop comes to such a rest without further reloads.
\<close>

theorem reconcileLoop_no_lost_update:
  assumes "loop_steps (startLoop c previous) s"
  shows "chain previous (lp_reconciled s) (lp_applied s) \<and> lp_persisted s = lp_applied s
    \<and> (\<not> lp_stored s \<and> \<not> lp_trigger s \<and> lp_pass s = None \<and> blockingIssues (lp_config s) = [] \<longrightarrow>
         lp_applied s = Some (lp_config s))
    \<and> (\<exists>t. loop_steps s t \<and> \<not> lp_stored t \<and> \<not> lp_trigger t \<and> lp_pass t = None \<and> lp_config t = lp_config s
         \<and> (blockingIssues (lp_config s) = [] \<longrightarrow> lp_applied t = Some (lp_config s)))"
proof -
  have inv: "loopInv previous s" by (rule loopInv_steps [OF assms loopInv_start])
  obtain t where t: "loop_steps s t" "loopWork t = 0" "lp_config t = lp_config s" using loop_rests by blast
  have "loopInv previous t" by (rule loopInv_steps [OF t(1) inv])
  moreover have "\<not> lp_stored t" "\<not> lp_trigger t" "lp_pass t = None"
    using t(2) by (auto simp: loopWork_def split: if_splits)
  ultimately show ?thesis using inv t by (auto simp: loopInv_def settled_def)
qed

definition otherConfig :: config where "otherConfig = demoConfig\<lparr>cfg_projects := []\<rparr>"

lemma reconcileLoop_no_lost_update_witness:
  "\<exists>s t. loop_steps (startLoop demoConfig None) s \<and> lp_config s = otherConfig \<and> loop_steps s t
     \<and> lp_applied t = Some otherConfig"
proof -
  let ?s = "startLoop demoConfig None"
  let ?t = "?s\<lparr>lp_config := otherConfig, lp_stored := True\<rparr>"
  have "otherConfig \<noteq> demoConfig" by code_simp
  moreover have v: "blockingIssues otherConfig = []" by code_simp
  ultimately have "loop_step ?s ?t" by (intro loop_step.store) (simp_all add: startLoop_def)
  then have st: "loop_steps ?s ?t" by (rule loop_steps.more [OF loop_steps.none])
  have c: "lp_config ?t = otherConfig" by simp
  obtain t where "loop_steps ?t t" "lp_applied t = Some (lp_config ?t)"
    using reconcileLoop_no_lost_update [OF st] v unfolding c by blast
  then show ?thesis using st c by metis
qed

end
