(* ===== verification/Ssh.thy ===== *)
theory Ssh
  imports Engine_Deploy
begin

text \<open>
  Connections (\<open>internal/ssh\<close>): the host key policy and the known-hosts file, the dial sequence and the
  probe. The SSH and known-hosts libraries are parameters: parsing the file to a check, the line for a
  key, normalizing a host name, the key exchange and the authentication.
\<close>

section \<open>The known-hosts file\<close>

text \<open>What the library answers for a host's key: accepted, refused for want of other keys, or an error.\<close>

datatype verdict = KeyAccepted | KeyUnknown | KeyChanged | KeyOther gostring

type_synonym 'k host_check = "gostring \<Rightarrow> gostring \<Rightarrow> 'k \<Rightarrow> verdict"

record 'k known_hosts_lib =
  kh_parse :: "gostring \<Rightarrow> gostring + 'k host_check"
  kh_line :: "gostring \<Rightarrow> 'k \<Rightarrow> gostring"
  kh_normalize :: "gostring \<Rightarrow> gostring"

text \<open>
  The file: its content, if it exists; the failures of the operations on it, with the number of bytes
  that a failed write leaves; and a content another process may create between the check and the exclusive creation.
\<close>

record known_hosts_file =
  kf_content :: "gostring option"
  kf_mkdir_err :: goerror
  kf_create_err :: goerror
  kf_created_meanwhile :: "gostring option"
  kf_open_err :: goerror
  kf_write_err :: goerror
  kf_written :: nat

definition ensureKnownHostsFile :: "gostring \<Rightarrow> known_hosts_file \<Rightarrow> goerror \<times> known_hosts_file" where
  "ensureKnownHostsFile path f =
     (if kf_content f \<noteq> None then (None, f)
      else if pathDir path \<noteq> ''.'' \<and> kf_mkdir_err f \<noteq> None
      then (map_option (\<lambda>e. ''create known_hosts parent dir: '' @ e) (kf_mkdir_err f), f)
      else (case kf_created_meanwhile f of
              Some c \<Rightarrow> (None, f\<lparr>kf_content := Some c\<rparr>)
            | None \<Rightarrow>
                (case kf_create_err f of
                   Some e \<Rightarrow> (Some (''create known_hosts file: '' @ e), f)
                 | None \<Rightarrow> (None, f\<lparr>kf_content := Some []\<rparr>))))"

definition loadKnownHosts :: "'k known_hosts_lib \<Rightarrow> known_hosts_file \<Rightarrow> gostring + 'k host_check" where
  "loadKnownHosts lib f =
     (case kf_content f of
        None \<Rightarrow> Inl ''load known_hosts''
      | Some c \<Rightarrow> (case kh_parse lib c of Inl e \<Rightarrow> Inl (''load known_hosts: '' @ e) | Inr check \<Rightarrow> Inr check))"

definition appendKnownHost ::
  "'k known_hosts_lib \<Rightarrow> gostring \<Rightarrow> 'k \<Rightarrow> known_hosts_file \<Rightarrow> goerror \<times> known_hosts_file" where
  "appendKnownHost lib hostname key f =
     (case kf_open_err f of
        Some e \<Rightarrow> (Some (''open known_hosts for writing: '' @ e), f)
      | None \<Rightarrow>
          (let before = (case kf_content f of None \<Rightarrow> [] | Some c \<Rightarrow> c);
               line = kh_line lib (kh_normalize lib hostname) key @ newline in
           case kf_write_err f of
             Some e \<Rightarrow> (Some e, f\<lparr>kf_content := Some (before @ take (kf_written f) line)\<rparr>)
           | None \<Rightarrow> (None, f\<lparr>kf_content := Some (before @ line)\<rparr>)))"

section \<open>The host key policy\<close>

text \<open>The callback a dial is built with; the check holds the file as it was when it was loaded.\<close>

datatype 'k host_key_callback = AcceptAny | Verify "'k host_check" | AcceptNew "'k host_check"

definition buildHostKeyCallback ::
  "'k known_hosts_lib \<Rightarrow> gostring \<Rightarrow> gostring \<Rightarrow> known_hosts_file
   \<Rightarrow> (gostring + 'k host_key_callback) \<times> known_hosts_file" where
  "buildHostKeyCallback lib knownHostsFile policy f =
     (if knownHostsFile = [] then
        (if policy = ''strict'' then Inl ''strict host key policy requires a known_hosts file'' else Inr AcceptAny, f)
      else (case ensureKnownHostsFile knownHostsFile f of
              (Some e, f1) \<Rightarrow> (Inl e, f1)
            | (None, f1) \<Rightarrow>
                (case loadKnownHosts lib f1 of
                   Inl e \<Rightarrow> (Inl e, f1)
                 | Inr check \<Rightarrow> (Inr (if policy = ''strict'' then Verify check else AcceptNew check), f1))))"

definition verdictError :: "verdict \<Rightarrow> goerror" where
  "verdictError v =
     (case v of
        KeyAccepted \<Rightarrow> None
      | KeyUnknown \<Rightarrow> Some ''knownhosts: key is unknown''
      | KeyChanged \<Rightarrow> Some ''knownhosts: key mismatch''
      | KeyOther e \<Rightarrow> Some e)"

definition acceptNewCallback ::
  "'k known_hosts_lib \<Rightarrow> 'k host_check \<Rightarrow> gostring \<Rightarrow> gostring \<Rightarrow> 'k \<Rightarrow> known_hosts_file
   \<Rightarrow> goerror \<times> known_hosts_file" where
  "acceptNewCallback lib check hostname remote key f =
     (case check hostname remote key of
        KeyAccepted \<Rightarrow> (None, f)
      | KeyChanged \<Rightarrow> (Some (''host key mismatch for '' @ hostname @ '', refusing connection''), f)
      | KeyUnknown \<Rightarrow> appendKnownHost lib hostname key f
      | KeyOther e \<Rightarrow> (Some e, f))"

definition runCallback ::
  "'k known_hosts_lib \<Rightarrow> 'k host_key_callback \<Rightarrow> gostring \<Rightarrow> gostring \<Rightarrow> 'k \<Rightarrow> known_hosts_file
   \<Rightarrow> goerror \<times> known_hosts_file" where
  "runCallback lib cb hostname remote key f =
     (case cb of
        AcceptAny \<Rightarrow> (None, f)
      | Verify check \<Rightarrow> (verdictError (check hostname remote key), f)
      | AcceptNew check \<Rightarrow> acceptNewCallback lib check hostname remote key f)"

section \<open>Dialing\<close>

text \<open>
  The outside: the private key file, the TCP connection with its remote address, the key the server
  presents and the authentication, which follows the host key check.
\<close>

record ('w, 'k) ssh_net =
  sn_read_key :: "gostring \<Rightarrow> 'w \<Rightarrow> gostring + gostring"
  sn_parse_key :: "gostring \<Rightarrow> goerror"
  sn_tcp :: "gostring \<Rightarrow> 'w \<Rightarrow> (gostring + gostring) \<times> 'w"
  sn_server_key :: "gostring \<Rightarrow> 'w \<Rightarrow> (gostring + 'k) \<times> 'w"
  sn_auth :: "gostring \<Rightarrow> gostring \<Rightarrow> 'w \<Rightarrow> goerror \<times> 'w"
  sn_close :: "'w \<Rightarrow> 'w"

definition dialAddress :: "dial_config \<Rightarrow> gostring" where
  "dialAddress dc = dc_address dc @ '':'' @ itoa (dc_port dc)"

definition handshake ::
  "('w, 'k) ssh_net \<Rightarrow> 'k known_hosts_lib \<Rightarrow> 'k host_key_callback \<Rightarrow> dial_config \<Rightarrow> gostring
   \<Rightarrow> 'w \<times> known_hosts_file \<Rightarrow> (gostring + 'k) \<times> 'w \<times> known_hosts_file" where
  "handshake net lib cb dc remote s =
     (case sn_server_key net (dialAddress dc) (fst s) of
        (Inl e, w) \<Rightarrow> (Inl e, w, snd s)
      | (Inr key, w) \<Rightarrow>
          (case runCallback lib cb (dialAddress dc) remote key (snd s) of
             (Some e, f) \<Rightarrow> (Inl e, w, f)
           | (None, f) \<Rightarrow>
               (case sn_auth net (dialAddress dc) (dc_user dc) w of
                  (Some e, w1) \<Rightarrow> (Inl e, w1, f)
                | (None, w1) \<Rightarrow> (Inr key, w1, f))))"

text \<open>A successful dial gives the key of the server that it is connected to.\<close>

definition dialHost ::
  "('w, 'k) ssh_net \<Rightarrow> 'k known_hosts_lib \<Rightarrow> dial_config \<Rightarrow> 'w \<times> known_hosts_file
   \<Rightarrow> (gostring + 'k) \<times> 'w \<times> known_hosts_file" where
  "dialHost net lib dc s =
     (case sn_read_key net (dc_private_key_file dc) (fst s) of
        Inl e \<Rightarrow> (Inl (''read private key: '' @ e), s)
      | Inr pem \<Rightarrow>
          (case sn_parse_key net pem of
             Some e \<Rightarrow> (Inl (''parse private key: '' @ e), s)
           | None \<Rightarrow>
               (case buildHostKeyCallback lib (dc_known_hosts_file dc) (dc_host_key_policy dc) (snd s) of
                  (Inl e, f) \<Rightarrow> (Inl e, fst s, f)
                | (Inr cb, f) \<Rightarrow>
                    (case sn_tcp net (dialAddress dc) (fst s) of
                       (Inl e, w) \<Rightarrow> (Inl (''tcp dial '' @ dialAddress dc @ '': '' @ e), w, f)
                     | (Inr remote, w) \<Rightarrow>
                         (case handshake net lib cb dc remote (w, f) of
                            (Inl e, w1, f1) \<Rightarrow>
                              (Inl (''ssh handshake with '' @ dialAddress dc @ '': '' @ e), sn_close net w1, f1)
                          | (Inr key, w1, f1) \<Rightarrow> (Inr key, w1, f1))))))"

section \<open>The probe\<close>

definition probeToken :: gostring where "probeToken = ''__deeplo_probe__''"

definition probe :: "'w connection \<Rightarrow> 'w \<Rightarrow> goerror \<times> 'w" where
  "probe conn w =
     (case conn_run conn (''echo '' @ probeToken) w of
        (out, w') \<Rightarrow>
          (case out_err out of
             Some e \<Rightarrow> (Some (''probe command failed: '' @ e @ '' (stderr: '' @ trimSpace (out_stderr out) @ '')''), w')
           | None \<Rightarrow>
               (if \<not> strContains (out_stdout out) probeToken
                then (Some (''unexpected probe response: stdout='' @ out_stdout out @ '' stderr='' @ out_stderr out), w')
                else (None, w'))))"

section \<open>Trust\<close>

text \<open>
  What is relied on of the library: a parsed file knows a set of keys per normalized host; a key is
  accepted when it is known, unknown when none is known and changed otherwise; and a line written for
  a host, after complete lines, adds its key to that host's and leaves the other hosts' keys alone.
\<close>

definition plainHost :: "gostring \<Rightarrow> bool" where
  "plainHost h \<longleftrightarrow> h \<noteq> [] \<and> CHR 0x0A \<notin> set h \<and> CHR '' '' \<notin> set h"

definition completeLines :: "gostring \<Rightarrow> bool" where
  "completeLines c \<longleftrightarrow> c = [] \<or> last c = CHR 0x0A"

definition knownHostsLaws :: "'k known_hosts_lib \<Rightarrow> (gostring \<Rightarrow> gostring \<Rightarrow> 'k set) \<Rightarrow> bool" where
  "knownHostsLaws lib keysOf \<longleftrightarrow>
     (\<forall>h. keysOf [] h = {})
     \<and> (\<forall>c check h r k. kh_parse lib c = Inr check \<longrightarrow>
          (check h r k = KeyAccepted \<longleftrightarrow> k \<in> keysOf c (kh_normalize lib h))
          \<and> (check h r k = KeyUnknown \<longrightarrow> keysOf c (kh_normalize lib h) = {}))
     \<and> (\<forall>c h k h'. completeLines c \<and> plainHost h \<longrightarrow>
          keysOf (c @ kh_line lib h k @ newline) h' = (if h' = h then insert k (keysOf c h) else keysOf c h'))"

definition knownKeys :: "(gostring \<Rightarrow> gostring \<Rightarrow> 'k set) \<Rightarrow> known_hosts_file \<Rightarrow> gostring \<Rightarrow> 'k set" where
  "knownKeys keysOf f h = (case kf_content f of None \<Rightarrow> {} | Some c \<Rightarrow> keysOf c h)"

lemma callback_ready:
  assumes "buildHostKeyCallback lib path policy f = (Inr cb, f')" "path \<noteq> []" "kf_created_meanwhile f = None"
  shows "\<exists>c check. kf_content f' = Some c \<and> kh_parse lib c = Inr check
    \<and> cb = (if policy = ''strict'' then Verify check else AcceptNew check)
    \<and> c = (case kf_content f of None \<Rightarrow> [] | Some c \<Rightarrow> c)"
  using assms
  by (auto simp: buildHostKeyCallback_def ensureKnownHostsFile_def loadKnownHosts_def split: option.splits sum.splits if_splits)

lemma callback_trust:
  assumes laws: "knownHostsLaws lib keysOf" and plain: "plainHost (kh_normalize lib h)" "completeLines c"
    and c: "kf_content f = Some c" "kh_parse lib c = Inr check"
    and cb: "cb = (if policy = ''strict'' then Verify check else AcceptNew check)"
    and run: "runCallback lib cb h remote key f = (None, f')"
  shows "key \<in> knownKeys keysOf f (kh_normalize lib h) \<and> f' = f
    \<or> policy \<noteq> ''strict'' \<and> knownKeys keysOf f (kh_normalize lib h) = {}
       \<and> (\<forall>g. knownKeys keysOf f' g = (if g = kh_normalize lib h then {key} else knownKeys keysOf f g))"
proof (cases "check h remote key = KeyAccepted")
  case True
  then have "f' = f"
    using run unfolding cb by (simp add: runCallback_def acceptNewCallback_def verdictError_def split: if_splits)
  moreover have "key \<in> keysOf c (kh_normalize lib h)" using laws c(2) True unfolding knownHostsLaws_def by blast
  ultimately show ?thesis using c(1) by (simp add: knownKeys_def)
next
  case False
  then have new: "policy \<noteq> ''strict''" "check h remote key = KeyUnknown"
    and f': "appendKnownHost lib h key f = (None, f')"
    using run unfolding cb
    by (auto simp: runCallback_def verdictError_def acceptNewCallback_def split: verdict.splits if_splits)
  have empty: "keysOf c (kh_normalize lib h) = {}" using laws c(2) new(2) unfolding knownHostsLaws_def by blast
  have "kf_content f' = Some (c @ kh_line lib (kh_normalize lib h) key @ newline)"
    using f' c(1) by (auto simp: appendKnownHost_def Let_def split: option.splits)
  then have "knownKeys keysOf f' g = (if g = kh_normalize lib h then {key} else knownKeys keysOf f g)" for g
    using laws empty c(1) plain unfolding knownHostsLaws_def by (simp add: knownKeys_def)
  then show ?thesis using new(1) empty c(1) by (simp add: knownKeys_def)
qed

text \<open>
  C21. Host keys are trusted on first use only: a connection made with a known-hosts file is to a server
  whose key was already known for the host, and the file is then unchanged, or, unless the policy is
  strict, to a host of which no key was known, and then its key is the only one known for it
  afterwards and those of the other hosts stay. Hence a server that presents another key than the one
  remembered is never talked to. The lines of the file must be complete: a key appended to an
  unterminated line is lost. Without a known-hosts file the strict policy refuses every dial.
\<close>

theorem dial_trusts_first_key:
  assumes "knownHostsLaws lib keysOf" and "kf_created_meanwhile f = None"
    and "plainHost (kh_normalize lib (dialAddress dc))" and "\<forall>c. kf_content f = Some c \<longrightarrow> completeLines c"
    and "dialHost net lib dc (w, f) = (Inr key, w', f')"
  shows "(dc_known_hosts_file dc = [] \<longrightarrow> dc_host_key_policy dc \<noteq> ''strict'')
    \<and> (dc_known_hosts_file dc \<noteq> [] \<longrightarrow>
        (let h = kh_normalize lib (dialAddress dc) in
         key \<in> knownKeys keysOf f h \<and> knownKeys keysOf f' = knownKeys keysOf f
         \<or> dc_host_key_policy dc \<noteq> ''strict'' \<and> knownKeys keysOf f h = {}
            \<and> (\<forall>g. knownKeys keysOf f' g = (if g = h then {key} else knownKeys keysOf f g))))"
proof -
  obtain cb f1 remote w1 w2 where b: "buildHostKeyCallback lib (dc_known_hosts_file dc) (dc_host_key_policy dc) f = (Inr cb, f1)"
    and hs: "handshake net lib cb dc remote (w1, f1) = (Inr key, w2, f')"
    using assms(5) unfolding dialHost_def by (auto split: prod.splits sum.splits option.splits)
  have run: "runCallback lib cb (dialAddress dc) remote key f1 = (None, f')"
    using hs unfolding handshake_def by (auto split: prod.splits sum.splits option.splits)
  show ?thesis
  proof (cases "dc_known_hosts_file dc = []")
    case True
    then show ?thesis using b by (auto simp: buildHostKeyCallback_def split: if_splits)
  next
    case False
    obtain c check where c: "kf_content f1 = Some c" "kh_parse lib c = Inr check"
      "cb = (if dc_host_key_policy dc = ''strict'' then Verify check else AcceptNew check)"
      "c = (case kf_content f of None \<Rightarrow> [] | Some c \<Rightarrow> c)"
      using callback_ready [OF b False assms(2)] by (elim exE conjE)
    have same: "knownKeys keysOf f1 = knownKeys keysOf f"
      using c(1,4) assms(1) by (intro ext) (simp add: knownKeys_def knownHostsLaws_def split: option.split)
    have "completeLines c" using c(4) assms(4) by (auto simp: completeLines_def split: option.splits)
    note t = callback_trust [OF assms(1,3) this c(1,2,3) run]
    then have "key \<in> knownKeys keysOf f (kh_normalize lib (dialAddress dc)) \<and> knownKeys keysOf f' = knownKeys keysOf f
      \<or> dc_host_key_policy dc \<noteq> ''strict'' \<and> knownKeys keysOf f (kh_normalize lib (dialAddress dc)) = {}
         \<and> (\<forall>g. knownKeys keysOf f' g =
              (if g = kh_normalize lib (dialAddress dc) then {key} else knownKeys keysOf f g))"
      unfolding same using same by metis
    with False show ?thesis by (simp add: Let_def)
  qed
qed

text \<open>A library for the demonstration: a line per key, which is a number, in decimal.\<close>

definition demoLine :: "gostring \<Rightarrow> nat \<Rightarrow> gostring" where
  "demoLine h k = h @ '' '' @ itoaNat k"

definition demoKeys :: "gostring \<Rightarrow> gostring \<Rightarrow> nat set" where
  "demoKeys c h = {k. plainHost h \<and> demoLine h k \<in> set (splitOn (CHR 0x0A) c)}"

definition demoKnownHosts :: "nat known_hosts_lib" where
  "demoKnownHosts = \<lparr>
     kh_parse = (\<lambda>c. Inr (\<lambda>h r k.
       if plainHost h \<and> demoLine h k \<in> set (splitOn (CHR 0x0A) c) then KeyAccepted
       else if list_all (\<lambda>l. \<not> hasPrefix l (h @ '' '')) (splitOn (CHR 0x0A) c) then KeyUnknown else KeyChanged)),
     kh_line = demoLine, kh_normalize = (\<lambda>h. h)\<rparr>"

lemma demoLine_inj: "\<lbrakk>plainHost h; plainHost h'\<rbrakk> \<Longrightarrow> demoLine h k = demoLine h' k' \<longleftrightarrow> h = h' \<and> k = k'"
proof -
  assume "plainHost h" "plainHost h'"
  then have "strCut '' '' (demoLine h k) = Some (h, itoaNat k)" "strCut '' '' (demoLine h' k') = Some (h', itoaNat k')"
    by (simp_all add: strCut_char demoLine_def plainHost_def)
  then show ?thesis by (metis Pair_inject itoaNat_inj option.inject)
qed

lemma demoLine_one: "plainHost h \<Longrightarrow> splitOn (CHR 0x0A) (demoLine h k @ newline) = [demoLine h k, []]"
proof -
  assume "plainHost h"
  moreover have "CHR 0x0A \<notin> set (itoaNat k)"
    using itoaNat_digits [of k] by (auto simp: list_all_iff isDigit_def)
  ultimately have "CHR 0x0A \<notin> set (demoLine h k)" by (simp add: demoLine_def plainHost_def)
  then show ?thesis by (simp add: newline_def splitOn_append splitOn_no_sep)
qed

lemma demo_lines:
  assumes "completeLines c" "plainHost h"
  shows "set (splitOn (CHR 0x0A) (c @ demoLine h k @ newline)) = insert (demoLine h k) (insert [] (set (splitOn (CHR 0x0A) c)))"
proof (cases c rule: rev_cases)
  case Nil
  then show ?thesis using demoLine_one [OF assms(2)] by auto
next
  case (snoc cs x)
  then have "c = cs @ CHR 0x0A # []" using assms(1) by (simp add: completeLines_def)
  then show ?thesis using demoLine_one [OF assms(2), of k] by (auto simp: splitOn_append)
qed

lemma demoKnownHosts_laws: "knownHostsLaws demoKnownHosts demoKeys"
proof -
  have ne: "demoLine h k \<noteq> []" for h k by (simp add: demoLine_def)
  have a: "demoKeys [] h = {}" for h using ne by (simp add: demoKeys_def)
  have b: "demoKeys c h = {}" if "list_all (\<lambda>l. \<not> hasPrefix l (h @ '' '')) (splitOn (CHR 0x0A) c)" for c h
    using that by (auto simp: demoKeys_def list_all_iff demoLine_def hasPrefix_iff)
  have d: "demoKeys (c @ demoLine h k @ newline) h' = (if h' = h then insert k (demoKeys c h) else demoKeys c h')"
    if "completeLines c" "plainHost h" for c h k h'
    unfolding demoKeys_def demo_lines [OF that] using that(2) ne demoLine_inj [OF _ that(2)] by auto
  show ?thesis
    unfolding knownHostsLaws_def demoKnownHosts_def
    using a b d by (auto simp: demoKeys_def split: if_splits)
qed

definition demoNet :: "nat \<Rightarrow> (unit, nat) ssh_net" where
  "demoNet k = \<lparr>sn_read_key = (\<lambda>p w. Inr ''key''), sn_parse_key = (\<lambda>s. None), sn_tcp = (\<lambda>a w. (Inr a, w)),
     sn_server_key = (\<lambda>a w. (Inr k, w)), sn_auth = (\<lambda>a u w. (None, w)), sn_close = (\<lambda>w. w)\<rparr>"

definition demoDial :: dial_config where
  "demoDial = \<lparr>dc_address = ''h'', dc_port = 22, dc_user = ''deploy'', dc_private_key_file = ''/key'',
     dc_known_hosts_file = ''/kh'', dc_host_key_policy = ''accept-new''\<rparr>"

definition noKnownHosts :: known_hosts_file where
  "noKnownHosts = \<lparr>kf_content = None, kf_mkdir_err = None, kf_create_err = None, kf_created_meanwhile = None,
     kf_open_err = None, kf_write_err = None, kf_written = 0\<rparr>"

lemma dial_trusts_first_key_witness:
  "\<exists>f'. dialHost (demoNet 7) demoKnownHosts demoDial ((), noKnownHosts) = (Inr 7, (), f')
     \<and> knownKeys demoKeys f' ''h:22'' = {7}"
proof -
  obtain r w' f' where d: "dialHost (demoNet 7) demoKnownHosts demoDial ((), noKnownHosts) = (r, w', f')"
    by (metis prod.exhaust)
  have "fst (dialHost (demoNet 7) demoKnownHosts demoDial ((), noKnownHosts)) = Inr 7" by code_simp
  then have r: "r = Inr 7" using d by simp
  have h: "kh_normalize demoKnownHosts (dialAddress demoDial) = ''h:22''" by code_simp
  have p: "plainHost (kh_normalize demoKnownHosts (dialAddress demoDial))" unfolding h by code_simp
  have n: "kf_created_meanwhile noKnownHosts = None" "\<forall>c. kf_content noKnownHosts = Some c \<longrightarrow> completeLines c"
    "knownKeys demoKeys noKnownHosts g = {}" for g
    by (simp_all add: noKnownHosts_def knownKeys_def)
  have dc: "dc_known_hosts_file demoDial \<noteq> []" by (simp add: demoDial_def)
  note t = dial_trusts_first_key [OF demoKnownHosts_laws n(1) p n(2) d [unfolded r], THEN conjunct2, THEN mp, OF dc]
  have "knownKeys demoKeys f' ''h:22'' = {7}" using t unfolding h Let_def n(3) by simp
  then show ?thesis using d r by simp
qed

section \<open>Sessions and uploads\<close>

text \<open>
  A command runs in a session of its own; it ends with the command's result or, if the context is
  cancelled first, with the output so far and the context's error.
\<close>

record 'w ssh_session =
  se_new :: "'w \<Rightarrow> goerror \<times> 'w"
  se_start :: "gostring \<Rightarrow> 'w \<Rightarrow> goerror \<times> 'w"
  se_wait :: "'w \<Rightarrow> (bool \<times> gostring \<times> gostring \<times> goerror) \<times> 'w" \<comment> \<open>cancelled?, stdout, stderr, error\<close>
  se_stop :: "'w \<Rightarrow> 'w"
  se_close :: "'w \<Rightarrow> 'w"

definition sessionRun :: "'w ssh_session \<Rightarrow> gostring \<Rightarrow> gostring \<Rightarrow> 'w \<Rightarrow> run_output \<times> 'w" where
  "sessionRun se ctxErr cmd w =
     (case se_new se w of
        (Some e, w1) \<Rightarrow> (\<lparr>out_stdout = [], out_stderr = [], out_err = Some (''new SSH session: '' @ e)\<rparr>, w1)
      | (None, w1) \<Rightarrow>
          (case se_start se cmd w1 of
             (Some e, w2) \<Rightarrow>
               (\<lparr>out_stdout = [], out_stderr = [], out_err = Some (''start '' @ cmd @ '': '' @ e)\<rparr>, se_close se w2)
           | (None, w2) \<Rightarrow>
               (case se_wait se w2 of
                  ((cancelled, so, serr, err), w3) \<Rightarrow>
                    if cancelled
                    then (\<lparr>out_stdout = so, out_stderr = serr, out_err = Some ctxErr\<rparr>, se_close se (se_stop se w3))
                    else (\<lparr>out_stdout = so, out_stderr = serr, out_err = err\<rparr>, se_close se w3))))"

record 'w sftp =
  sf_new :: "'w \<Rightarrow> goerror \<times> 'w"
  sf_mkdir_all :: "gostring \<Rightarrow> 'w \<Rightarrow> goerror \<times> 'w"
  sf_open_local :: "gostring \<Rightarrow> 'w \<Rightarrow> (gostring + gostring)"
  sf_create :: "gostring \<Rightarrow> 'w \<Rightarrow> goerror \<times> 'w"
  sf_copy :: "gostring \<Rightarrow> gostring \<Rightarrow> 'w \<Rightarrow> goerror \<times> 'w"
  sf_close :: "'w \<Rightarrow> 'w"

definition uploadVia :: "'w sftp \<Rightarrow> gostring \<Rightarrow> gostring \<Rightarrow> 'w \<Rightarrow> goerror \<times> 'w" where
  "uploadVia sf localPath remotePath w =
     (case sf_new sf w of
        (Some e, w1) \<Rightarrow> (Some (''open SFTP session: '' @ e), w1)
      | (None, w1) \<Rightarrow>
          (case sf_mkdir_all sf (pathDir remotePath) w1 of
             (Some e, w2) \<Rightarrow> (Some (''mkdir '' @ pathDir remotePath @ '': '' @ e), sf_close sf w2)
           | (None, w2) \<Rightarrow>
               (case sf_open_local sf localPath w2 of
                  Inl e \<Rightarrow> (Some (''open local '' @ localPath @ '': '' @ e), sf_close sf w2)
                | Inr content \<Rightarrow>
                    (case sf_create sf remotePath w2 of
                       (Some e, w3) \<Rightarrow> (Some (''create remote '' @ remotePath @ '': '' @ e), sf_close sf w3)
                     | (None, w3) \<Rightarrow>
                         (case sf_copy sf remotePath content w3 of
                            (Some e, w4) \<Rightarrow> (Some (''copy to '' @ remotePath @ '': '' @ e), sf_close sf w4)
                          | (None, w4) \<Rightarrow> (None, sf_close sf w4))))))"

lemma uploadVia_copied:
  assumes "uploadVia sf l r w = (None, w')"
  shows "\<exists>content w1 w2 w3. sf_open_local sf l w1 = Inr content \<and> sf_copy sf r content w2 = (None, w3) \<and> w' = sf_close sf w3"
  using assms unfolding uploadVia_def by (auto split: prod.splits option.splits sum.splits)


end
