(* ===== verification/Github.thy ===== *)
theory Github
  imports Engine_Deploy_Laws Go_Glob
begin

text \<open>
  The GitHub reporter (\<open>internal/reporter/github\<close>) and its selection (\<open>internal/providers\<close>): the requests
  made for a deployment over a transport that answers each of them, with the log of all requests. The
  transport and JSON are parameters; a decoded id is an int64, as the response type has it.
\<close>

section \<open>Descriptions\<close>

text \<open>The runes of a text, each as the bytes it is written back with; an invalid byte becomes U+FFFD.\<close>

function runeChunks :: "gostring \<Rightarrow> gostring list" where
  "runeChunks [] = []"
| "runeChunks (c # cs) =
     (case decodeRune (c # cs) of
        (r, bad, rest) \<Rightarrow>
          (if bad then [CHR 0xEF, CHR 0xBF, CHR 0xBD] else take (length (c # cs) - length rest) (c # cs))
          # runeChunks rest)"
  by pat_completeness auto
termination
  by (relation "measure length") (simp, metis decodeRune_shorter in_measure list.distinct(1) snd_conv)

definition ellipsis :: gostring where "ellipsis = [CHR 0xE2, CHR 0x80, CHR 0xA6]"

definition truncateText :: "gostring \<Rightarrow> nat \<Rightarrow> gostring" where
  "truncateText text maxRunes =
     (if length (runeChunks text) \<le> maxRunes then text
      else concat (take (maxRunes - 1) (runeChunks text)) @ ellipsis)"

definition maxDescription :: nat where "maxDescription = 140"

section \<open>Requests\<close>

datatype gh_body =
    DeploymentBody (gb_ref: gostring) (gb_environment: gostring) (gb_description: gostring)
  | DeploymentStatusBody (gb_state: gostring) (gb_description: gostring) (gb_log_url: gostring)
  | CommitStatusBody (gb_state: gostring) (gb_context: gostring) (gb_description: gostring) (gb_target_url: gostring)

type_synonym gh_request = "gostring \<times> gh_body"

datatype api_answer = NoAnswer gostring | Answer nat gostring "int option" \<comment> \<open>status, body, decoded id\<close>

type_synonym 'w transport = "gostring \<Rightarrow> gh_body \<Rightarrow> 'w \<Rightarrow> api_answer \<times> 'w"

type_synonym 'w gh_world = "'w \<times> gh_request list"

definition isInt64 :: "int \<Rightarrow> bool" where "isInt64 i \<longleftrightarrow> - (2 ^ 63) \<le> i \<and> i < 2 ^ 63"

text \<open>
  What \<open>http.NewRequestWithContext\<close> accepts behind the scheme and the host, by \<open>url.Parse\<close>: before a
  \<open>#\<close> there is no control byte, and the path and the fragment have no malformed percent escape. When it
  refuses the address nothing is sent.
\<close>

definition isHexByte :: "char \<Rightarrow> bool" where
  "isHexByte c \<longleftrightarrow> isDigit c \<or> c \<in> set ''abcdefABCDEF''"

fun validEscapes :: "gostring \<Rightarrow> bool" where
  "validEscapes [] \<longleftrightarrow> True"
| "validEscapes (c # cs) \<longleftrightarrow>
     (if c = CHR 0x25 then length cs \<ge> 2 \<and> list_all isHexByte (take 2 cs) \<and> validEscapes (drop 2 cs)
      else validEscapes cs)"

definition isControlByte :: "char \<Rightarrow> bool" where
  "isControlByte c \<longleftrightarrow> of_char c < (32::nat) \<or> of_char c = (127::nat)"

definition urlParses :: "gostring \<Rightarrow> bool" where
  "urlParses path \<longleftrightarrow>
     (let address = takeWhile (\<lambda>c. c \<noteq> CHR 0x23) path; fragment = drop (Suc (length address)) path in
      \<not> list_ex isControlByte address \<and> validEscapes (takeWhile (\<lambda>c. c \<noteq> CHR 0x3F) address)
      \<and> validEscapes fragment)"

definition apiPost :: "'w transport \<Rightarrow> bool \<Rightarrow> gostring \<Rightarrow> gh_body \<Rightarrow> 'w gh_world \<Rightarrow> (gostring + int) \<times> 'w gh_world" where
  "apiPost tr wantsResult path body s =
     (if \<not> urlParses path then (Inl ''build request'', s) else
      case tr path body (fst s) of
        (answer, w) \<Rightarrow>
          (case answer of
             NoAnswer e \<Rightarrow> Inl (''http: '' @ e)
           | Answer status msg decoded \<Rightarrow>
               if status < 200 \<or> status \<ge> 300
               then Inl (''github API '' @ path @ '' '' @ [CHR 0xE2, CHR 0x86, CHR 0x92] @ '' '' @ itoaNat status
                         @ '': '' @ trimSpace (take 512 msg))
               else if wantsResult then
                 (case decoded of
                    None \<Rightarrow> Inl ''decode response''
                  | Some i \<Rightarrow> if isInt64 i then Inr i else Inl ''decode response'')
               else Inr 0,
           w, snd s @ [(path, body)]))"

record deploy_context =
  dx_owner :: gostring
  dx_repo :: gostring
  dx_sha :: gostring
  dx_environment :: gostring
  dx_commit_context :: gostring

definition repoPath :: "gostring \<Rightarrow> gostring \<Rightarrow> gostring" where
  "repoPath owner repo = ''/repos/'' @ owner @ ''/'' @ repo"

definition deploymentRequest :: "deploy_context \<Rightarrow> gh_request" where
  "deploymentRequest dx =
     (repoPath (dx_owner dx) (dx_repo dx) @ ''/deployments'',
      DeploymentBody (dx_sha dx) (dx_environment dx) ''Deployment via deeplo'')"

definition deploymentStatusRequest :: "deploy_context \<Rightarrow> int \<Rightarrow> gostring \<Rightarrow> gostring \<Rightarrow> gostring \<Rightarrow> gh_request" where
  "deploymentStatusRequest dx i st description logURL =
     (repoPath (dx_owner dx) (dx_repo dx) @ ''/deployments/'' @ itoa i @ ''/statuses'',
      DeploymentStatusBody st (truncateText description maxDescription) logURL)"

definition commitStatusRequest :: "deploy_context \<Rightarrow> gostring \<Rightarrow> gostring \<Rightarrow> gostring \<Rightarrow> gh_request" where
  "commitStatusRequest dx st description targetURL =
     (repoPath (dx_owner dx) (dx_repo dx) @ ''/statuses/'' @ dx_sha dx,
      CommitStatusBody st (dx_commit_context dx) (truncateText description maxDescription) targetURL)"

definition createDeployment :: "'w transport \<Rightarrow> deploy_context \<Rightarrow> 'w gh_world \<Rightarrow> (gostring + int) \<times> 'w gh_world" where
  "createDeployment tr dx s = (case deploymentRequest dx of (p, b) \<Rightarrow> apiPost tr True p b s)"

definition errorOf :: "gostring + int \<Rightarrow> goerror" where
  "errorOf r = (case r of Inl e \<Rightarrow> Some e | Inr i \<Rightarrow> None)"

definition createDeploymentStatus ::
  "'w transport \<Rightarrow> deploy_context \<Rightarrow> int \<Rightarrow> gostring \<Rightarrow> gostring \<Rightarrow> gostring \<Rightarrow> 'w gh_world \<Rightarrow> goerror \<times> 'w gh_world" where
  "createDeploymentStatus tr dx i st description logURL s =
     (case deploymentStatusRequest dx i st description logURL of
        (p, b) \<Rightarrow> (case apiPost tr False p b s of (r, s') \<Rightarrow> (errorOf r, s')))"

definition createCommitStatus ::
  "'w transport \<Rightarrow> deploy_context \<Rightarrow> gostring \<Rightarrow> gostring \<Rightarrow> gostring \<Rightarrow> 'w gh_world \<Rightarrow> goerror \<times> 'w gh_world" where
  "createCommitStatus tr dx st description targetURL s =
     (case commitStatusRequest dx st description targetURL of
        (p, b) \<Rightarrow> (case apiPost tr False p b s of (r, s') \<Rightarrow> (errorOf r, s')))"

section \<open>The reporter\<close>

record gh_reporter =
  gr_token :: gostring
  gr_environment_base :: gostring
  gr_environment_host :: bool

definition ownerRepoAfter :: "gostring \<Rightarrow> gostring \<Rightarrow> (gostring \<times> gostring) option" where
  "ownerRepoAfter marker url =
     (case strCut marker url of
        None \<Rightarrow> None
      | Some (before, after) \<Rightarrow>
          (case splitN slash 3 after of
             owner # repo # others \<Rightarrow> if owner \<noteq> [] \<and> repo \<noteq> [] then Some (owner, repo) else None
           | _ \<Rightarrow> None))"

definition parseOwnerRepo :: "gostring \<Rightarrow> (gostring \<times> gostring) option" where
  "parseOwnerRepo repoURL =
     (let url = trimSuffix (trimSpace repoURL) ''.git'' in
      case ownerRepoAfter ''github.com:'' url of
        Some x \<Rightarrow> Some x
      | None \<Rightarrow> ownerRepoAfter ''github.com/'' url)"

definition environmentOf :: "gh_reporter \<Rightarrow> deploy_info \<Rightarrow> gostring" where
  "environmentOf g info =
     (let e = (if gr_environment_host g then di_host_name info @ ''/'' @ di_project_name info else di_project_name info)
      in if gr_environment_base g \<noteq> [] then gr_environment_base g @ ''/'' @ e else e)"

definition deployContextOf :: "gh_reporter \<Rightarrow> deploy_info \<Rightarrow> deploy_context option" where
  "deployContextOf g info =
     map_option (\<lambda>(owner, repo). \<lparr>dx_owner = owner, dx_repo = repo, dx_sha = di_commit_sha info,
         dx_environment = environmentOf g info, dx_commit_context = ''deeplo/'' @ environmentOf g info\<rparr>)
       (parseOwnerRepo (di_repo_url info))"

definition ghEnabled :: "gh_reporter \<Rightarrow> bool" where "ghEnabled g \<longleftrightarrow> gr_token g \<noteq> []"

definition deployStarted ::
  "'w transport \<Rightarrow> gh_reporter \<Rightarrow> deploy_info \<Rightarrow> gostring \<Rightarrow> 'w gh_world \<Rightarrow> gostring \<times> 'w gh_world" where
  "deployStarted tr g info logURL s =
     (if \<not> ghEnabled g then ([], s)
      else (case deployContextOf g info of
              None \<Rightarrow> ([], s)
            | Some dx \<Rightarrow>
                (case createDeployment tr dx s of
                   (Inl e, s1) \<Rightarrow> ([], s1)
                 | (Inr i, s1) \<Rightarrow>
                     (case createDeploymentStatus tr dx i ''in_progress'' ''Deployment started'' logURL s1 of
                        (err1, s2) \<Rightarrow>
                          (case createCommitStatus tr dx ''pending'' ''Deployment started'' logURL s2 of
                             (err2, s3) \<Rightarrow> (itoa i, s3))))))"

definition firstError :: "goerror \<Rightarrow> goerror \<Rightarrow> goerror" where
  "firstError a b = (if a \<noteq> None then a else b)"

definition finishState :: "bool \<Rightarrow> gostring" where
  "finishState success = (if success then ''success'' else ''failure'')"

definition reportFinish ::
  "'w transport \<Rightarrow> gh_reporter \<Rightarrow> bool \<Rightarrow> deploy_info \<Rightarrow> gostring \<Rightarrow> gostring \<Rightarrow> gostring \<Rightarrow> 'w gh_world
   \<Rightarrow> goerror \<times> 'w gh_world" where
  "reportFinish tr g success info token summary logURL s =
     (case deployContextOf g info of
        None \<Rightarrow> (None, s)
      | Some dx \<Rightarrow>
          (let text = truncateText summary maxDescription;
               st = finishState success in
           case (if token \<noteq> [] then
                   (case atoi token of
                      None \<Rightarrow> (None, s)
                    | Some i \<Rightarrow> createDeploymentStatus tr dx i st text logURL s)
                 else (None, s)) of
             (err1, s1) \<Rightarrow>
               (case createCommitStatus tr dx st text logURL s1 of (err2, s2) \<Rightarrow> (firstError err1 err2, s2))))"

definition deploySucceeded where
  "deploySucceeded tr g info token summary logURL s =
     (if \<not> ghEnabled g then (None, s) else reportFinish tr g True info token summary logURL s)"

definition deployFailed where
  "deployFailed tr g info token summary logURL s =
     (if \<not> ghEnabled g then (None, s) else reportFinish tr g False info token summary logURL s)"

definition githubReporter :: "'w transport \<Rightarrow> gh_reporter \<Rightarrow> 'w gh_world reporter" where
  "githubReporter tr g =
     \<lparr>rep_enabled = ghEnabled g, rep_started = deployStarted tr g,
      rep_succeeded = deploySucceeded tr g, rep_failed = deployFailed tr g\<rparr>"

text \<open>\<open>New\<close>, with the content of the token file.\<close>

definition newGithub ::
  "gostring \<Rightarrow> gostring \<Rightarrow> bool \<Rightarrow> gostring + gostring \<Rightarrow> gostring + gh_reporter" where
  "newGithub tokenFile environment environmentHost content =
     (if tokenFile = [] then Inr \<lparr>gr_token = [], gr_environment_base = [], gr_environment_host = False\<rparr>
      else (case content of
              Inl e \<Rightarrow> Inl (''read github token: '' @ e)
            | Inr raw \<Rightarrow>
                (let token = trimSpace raw in
                 if token = [] then Inl ''github token file is empty''
                 else Inr \<lparr>gr_token = token, gr_environment_base = environment, gr_environment_host = environmentHost\<rparr>)))"

definition buildReporter :: "'w transport \<Rightarrow> env_config \<Rightarrow> gostring + gostring \<Rightarrow> gostring + 'w gh_world reporter" where
  "buildReporter tr env content =
     (if env_github_token_file env \<noteq> [] then
        (case newGithub (env_github_token_file env) (env_github_environment env) (env_github_environment_host env) content of
           Inl e \<Rightarrow> Inl (''github reporter: '' @ e)
         | Inr g \<Rightarrow> Inr (githubReporter tr g))
      else Inr noopReporter)"

text \<open>The projects that the daemon warns about: each of their hosts would report to one environment.\<close>

definition warnAmbiguousReporting :: "env_config \<Rightarrow> config option \<Rightarrow> gostring list" where
  "warnAmbiguousReporting env deployConfig =
     (case deployConfig of
        None \<Rightarrow> []
      | Some c \<Rightarrow>
          if env_github_token_file env = [] \<or> env_github_environment_host env then []
          else map proj_name (filter (\<lambda>p. length (proj_targets p) > 1) (cfg_projects c)))"

section \<open>Laws of the descriptions\<close>

definition goodChunk :: "gostring \<Rightarrow> bool" where
  "goodChunk ch \<longleftrightarrow> ch \<noteq> [] \<and> (\<exists>r. \<forall>t. decodeRune (ch @ t) = (r, False, t))"

lemma decode_prefix:
  assumes "decodeRune s = (r, False, rest)" "s \<noteq> []"
  shows "\<exists>ch. s = ch @ rest \<and> ch \<noteq> [] \<and> (\<forall>t. decodeRune (ch @ t) = (r, False, t))"
proof -
  obtain c cs where s: "s = c # cs" using assms(2) by (cases s) auto
  consider (one) "rest = cs" | (two) d ds where "cs = d # ds" "rest = ds"
    | (three) d e ds where "cs = d # e # ds" "rest = ds"
    | (four) d e f ds where "cs = d # e # f # ds" "rest = ds"
    using assms(1) unfolding s decodeRune_def by (auto simp: Let_def split: if_splits list.splits)
  then show ?thesis
  proof cases
    case one
    then show ?thesis using assms(1) unfolding s
      by (intro exI [of _ "[c]"]) (auto simp: decodeRune_def Let_def split: if_splits list.splits)
  next
    case two
    then show ?thesis using assms(1) unfolding s
      by (intro exI [of _ "[c, d]"]) (auto simp: decodeRune_def Let_def split: if_splits list.splits)
  next
    case three
    then show ?thesis using assms(1) unfolding s
      by (intro exI [of _ "[c, d, e]"]) (auto simp: decodeRune_def Let_def split: if_splits list.splits)
  next
    case four
    then show ?thesis using assms(1) unfolding s
      by (intro exI [of _ "[c, d, e, f]"]) (auto simp: decodeRune_def Let_def split: if_splits list.splits)
  qed
qed

lemma replacement_good: "goodChunk [CHR 0xEF, CHR 0xBF, CHR 0xBD]" and ellipsis_good: "goodChunk ellipsis"
  by (auto simp: goodChunk_def ellipsis_def decodeRune_def isCont_def byteVal_def)

lemma runeChunks_good: "list_all goodChunk (runeChunks s)"
proof (induction s rule: runeChunks.induct)
  case (2 c cs)
  obtain r bad rest where d: "decodeRune (c # cs) = (r, bad, rest)" by (metis prod.exhaust)
  have "goodChunk (take (length (c # cs) - length rest) (c # cs))" if "\<not> bad"
  proof -
    have d': "decodeRune (c # cs) = (r, False, rest)" using d that by simp
    obtain ch where ch: "c # cs = ch @ rest" "ch \<noteq> []" "\<forall>t. decodeRune (ch @ t) = (r, False, t)"
      using decode_prefix [OF d' list.distinct(2)] by (elim exE conjE)
    then have "take (length (c # cs) - length rest) (c # cs) = ch" by simp
    with ch show ?thesis by (auto simp: goodChunk_def)
  qed
  then show ?case using 2 d replacement_good by simp
qed simp

lemma runeChunks_append: "goodChunk ch \<Longrightarrow> runeChunks (ch @ s) = ch # runeChunks s"
proof -
  assume "goodChunk ch"
  then obtain c cs r where "ch = c # cs" "decodeRune ((c # cs) @ s) = (r, False, s)"
    unfolding goodChunk_def by (metis list.exhaust)
  then show ?thesis by simp
qed

lemma runeChunks_concat: "list_all goodChunk chs \<Longrightarrow> runeChunks (concat chs) = chs"
  by (induction chs) (simp_all add: runeChunks_append)

lemma runeChunks_truncated:
  assumes "0 < n" "\<not> length (runeChunks text) \<le> n"
  shows "runeChunks (truncateText text n) = take (n - 1) (runeChunks text) @ [ellipsis]"
proof -
  have "list_all goodChunk (take (n - 1) (runeChunks text) @ [ellipsis])"
    using runeChunks_good [of "text"] ellipsis_good by (auto simp: list_all_iff dest: in_set_takeD)
  note c = runeChunks_concat [OF this]
  show ?thesis using c assms by (simp add: truncateText_def)
qed

text \<open>
  A description fits: a truncated text has at most the allowed number of runes, truncating it again
  changes nothing, a text that fits is left alone, and one that does not begins with as many of its
  own runes as leave room for the ellipsis, an invalid byte written as U+FFFD.
\<close>

theorem truncateText_fits:
  assumes "0 < n"
  shows "length (runeChunks (truncateText text n)) \<le> n
    \<and> truncateText (truncateText text n) n = truncateText text n
    \<and> (length (runeChunks text) \<le> n \<longrightarrow> truncateText text n = text)
    \<and> (n < length (runeChunks text) \<longrightarrow> runeChunks (truncateText text n) = take (n - 1) (runeChunks text) @ [ellipsis])"
  using assms runeChunks_truncated [OF assms, of "text"]
  by (cases "length (runeChunks text) \<le> n") (simp_all add: truncateText_def [of _ n])

lemma truncateText_fits_witness:
  "runeChunks (truncateText ''abcd'' 3) = [''a'', ''b'', ellipsis]"
proof -
  have c: "runeChunks ''abcd'' = [''a'', ''b'', ''c'', ''d'']"
    using runeChunks_concat [of "[''a'', ''b'', ''c'', ''d'']"]
    by (simp add: goodChunk_def decodeRune_def byteVal_def)
  show ?thesis using truncateText_fits [of 3 "''abcd''"] unfolding c by simp
qed

section \<open>Laws of the reporter\<close>

lemma atoi_itoa: "isInt64 i \<Longrightarrow> atoi (itoa i) = Some i"
proof -
  assume i: "isInt64 i"
  have pos: "\<not> hasPrefix (itoaNat n) ''-'' \<and> \<not> hasPrefix (itoaNat n) ''+''" for n
    using itoaNat_digits [of n] by (cases "itoaNat n") (auto simp: isDigit_def)
  show ?thesis
  proof (cases "i < 0")
    case True
    then have "itoa i = CHR ''-'' # itoaNat (nat (- i))" by (simp add: itoa_def)
    then show ?thesis using True i itoaNat_digits [of "nat (- i)"]
      by (simp add: atoi_def Let_def digitsVal_itoaNat isInt64_def)
  next
    case False
    then have "itoa i = itoaNat (nat i)" by (simp add: itoa_def)
    then show ?thesis using False i itoaNat_digits [of "nat i"] pos [of "nat i"]
      by (simp add: atoi_def Let_def digitsVal_itoaNat isInt64_def)
  qed
qed

lemma itoa_not_Nil: "itoa i \<noteq> []"
  using itoaNat_digits by (auto simp: itoa_def)

text \<open>The requests that are sent, of those that are made.\<close>

definition sent :: "gh_request list \<Rightarrow> gh_request list" where
  "sent reqs = filter (\<lambda>r. urlParses (fst r)) reqs"

lemma sent_Cons2: "sent (r # r' # rs) = sent [r] @ sent (r' # rs)"
  by (simp add: sent_def)

text \<open>Names without a byte that an address treats specially, as GitHub's are.\<close>

definition plainURLByte :: "char \<Rightarrow> bool" where
  "plainURLByte c \<longleftrightarrow> \<not> isControlByte c \<and> c \<noteq> CHR 0x25 \<and> c \<noteq> CHR 0x23 \<and> c \<noteq> CHR 0x3F"

definition plainNames :: "deploy_context \<Rightarrow> bool" where
  "plainNames dx \<longleftrightarrow> list_all plainURLByte (dx_owner dx @ dx_repo dx @ dx_sha dx)"

lemma validEscapes_plain: "list_all plainURLByte p \<Longrightarrow> validEscapes p"
  by (induction p) (auto simp: plainURLByte_def)

lemma urlParses_plain:
  assumes "list_all plainURLByte p"
  shows "urlParses p"
proof -
  have t: "takeWhile (\<lambda>c. c \<noteq> CHR 0x23) p = p" "takeWhile (\<lambda>c. c \<noteq> CHR 0x3F) p = p"
    using assms by (auto simp: takeWhile_eq_all_conv list_all_iff plainURLByte_def)
  moreover have "\<not> list_ex isControlByte p" using assms by (auto simp: list_all_iff list_ex_iff plainURLByte_def)
  ultimately show ?thesis unfolding urlParses_def Let_def t using validEscapes_plain [OF assms] by simp
qed

lemma itoa_plainURL: "list_all plainURLByte (itoa i)"
proof -
  have "plainURLByte c" if "isDigit c" for c
    using that by (auto simp: isDigit_def plainURLByte_def isControlByte_def)
  then have "list_all plainURLByte (itoaNat n)" for n
    using itoaNat_digits [of n] by (auto simp: list_all_iff)
  moreover have "plainURLByte (CHR ''-'')" by code_simp
  ultimately show ?thesis by (simp add: itoa_def)
qed

lemma requests_parse:
  assumes "plainNames dx"
  shows "urlParses (fst (deploymentRequest dx))" "urlParses (fst (deploymentStatusRequest dx i st d u))"
    "urlParses (fst (commitStatusRequest dx st d u))"
proof -
  have "list_all plainURLByte ''/repos/''" "list_all plainURLByte ''/''" "list_all plainURLByte ''/deployments''"
    "list_all plainURLByte ''/deployments/''" "list_all plainURLByte ''/statuses''" "list_all plainURLByte ''/statuses/''"
    by code_simp+
  then show "urlParses (fst (deploymentRequest dx))" "urlParses (fst (deploymentStatusRequest dx i st d u))"
    "urlParses (fst (commitStatusRequest dx st d u))"
    using assms itoa_plainURL [of i]
    by (auto intro!: urlParses_plain simp: deploymentRequest_def deploymentStatusRequest_def commitStatusRequest_def
        repoPath_def plainNames_def)
qed

lemma sent_all:
  "plainNames dx \<Longrightarrow> sent [deploymentRequest dx, deploymentStatusRequest dx i st d u, commitStatusRequest dx st' d' u']
       = [deploymentRequest dx, deploymentStatusRequest dx i st d u, commitStatusRequest dx st' d' u']"
  by (simp add: sent_def requests_parse)

lemma apiPost_log: "apiPost tr wants p b s = (r, s') \<Longrightarrow> snd s' = snd s @ sent [(p, b)]"
  by (auto simp: apiPost_def sent_def split: prod.splits if_splits)

lemma createDeployment_log:
  "createDeployment tr dx s = (r, s') \<Longrightarrow> snd s' = snd s @ sent [deploymentRequest dx] \<and> (\<forall>i. r = Inr i \<longrightarrow> isInt64 i)"
  by (auto simp: createDeployment_def apiPost_def sent_def split: prod.splits api_answer.splits option.splits if_splits)

lemma createDeploymentStatus_log:
  "createDeploymentStatus tr dx i st d u s = (e, s') \<Longrightarrow> snd s' = snd s @ sent [deploymentStatusRequest dx i st d u]"
  by (auto simp: createDeploymentStatus_def split: prod.splits dest: apiPost_log)

lemma createCommitStatus_log:
  "createCommitStatus tr dx st d u s = (e, s') \<Longrightarrow> snd s' = snd s @ sent [commitStatusRequest dx st d u]"
  by (auto simp: createCommitStatus_def split: prod.splits dest: apiPost_log)

lemma github_quiet: "quiet_reporter (rep_enabled (githubReporter tr g)) (rep_started (githubReporter tr g))
    (rep_succeeded (githubReporter tr g)) (rep_failed (githubReporter tr g))"
  by unfold_locales
    (simp add: githubReporter_def deployStarted_def deploySucceeded_def deployFailed_def)

interpretation github: quiet_reporter "rep_enabled (githubReporter tr g)" "rep_started (githubReporter tr g)"
  "rep_succeeded (githubReporter tr g)" "rep_failed (githubReporter tr g)" for tr g
  by (rule github_quiet)

lemma github_report:
  "reportOutcome (githubReporter tr g) info token summary logURL err s =
     (if err = None then deploySucceeded tr g info token summary logURL s
      else deployFailed tr g info token summary logURL s)"
  by (auto simp: reportOutcome_def githubReporter_def deploySucceeded_def deployFailed_def)


definition demoTransport :: "unit transport" where
  "demoTransport path body w = (Answer 201 [] (Some 7), w)"

definition demoGithub :: gh_reporter where
  "demoGithub = \<lparr>gr_token = ''t'', gr_environment_base = [], gr_environment_host = True\<rparr>"

definition demoInfo :: deploy_info where
  "demoInfo = \<lparr>di_repo_url = ''git@github.com:o/app.git'', di_commit_sha = ''abc'', di_project_name = ''web'', di_host_name = ''h1''\<rparr>"

lemma demo_context: "\<exists>dx. deployContextOf demoGithub demoInfo = Some dx \<and> plainNames dx"
proof -
  have "parseOwnerRepo ''git@github.com:o/app.git'' = Some (''o'', ''app'')" by code_simp
  moreover have "list_all plainURLByte ''o''" "list_all plainURLByte ''app''" "list_all plainURLByte ''abc''" by code_simp+
  ultimately show ?thesis by (simp add: deployContextOf_def demoInfo_def plainNames_def)
qed


end
