(* ===== verification/Runlog.thy ===== *)
theory Runlog
  imports Store_Laws
begin

text \<open>
  Run logs (\<open>internal/runlog\<close>): the HTTP handler that serves them, the clean-up of old files with
  its duration kept at 64 bits, and the log file of a run. Opening a file is a parameter.
\<close>

section \<open>Serving logs\<close>

record http_reply =
  hr_status :: nat
  hr_headers :: "(gostring \<times> gostring) list"
  hr_body :: gostring

datatype log_open = LogMissing | LogBroken gostring | LogOpened gostring

definition plainHeaders :: "(gostring \<times> gostring) list" where
  "plainHeaders = [(''Content-Type'', ''text/plain; charset=utf-8''), (''X-Content-Type-Options'', ''nosniff'')]"

definition httpError :: "gostring \<Rightarrow> nat \<Rightarrow> http_reply" where
  "httpError msg status = \<lparr>hr_status = status, hr_headers = plainHeaders, hr_body = msg @ [CHR 0x0A]\<rparr>"

definition httpNotFound :: http_reply where "httpNotFound = httpError ''404 page not found'' 404"

definition logPathOf :: "gostring \<Rightarrow> gostring \<Rightarrow> gostring" where
  "logPathOf dir i = pathJoin [dir, i @ ''.log'']"

definition runLogHandler :: "gostring \<Rightarrow> (gostring \<Rightarrow> log_open) \<Rightarrow> gostring \<Rightarrow> gostring \<Rightarrow> http_reply" where
  "runLogHandler dir openFile httpMethod path =
     (if httpMethod \<noteq> ''GET'' \<and> httpMethod \<noteq> ''HEAD'' then httpError ''method not allowed'' 405
      else
        (let rest = trimPrefix path ''/runs/'' in
         if rest = path then httpNotFound
         else (case strCut ''/'' rest of
                 None \<Rightarrow> httpNotFound
               | Some (i, tail) \<Rightarrow>
                   if tail \<noteq> ''logs'' then httpNotFound
                   else if \<not> validRunID i then httpNotFound
                   else (case openFile (logPathOf dir i) of
                           LogMissing \<Rightarrow> httpNotFound
                         | LogBroken e \<Rightarrow> httpError ''internal error'' 500
                         | LogOpened content \<Rightarrow>
                             \<lparr>hr_status = 200, hr_headers = plainHeaders,
                              hr_body = (if httpMethod = ''HEAD'' then [] else content)\<rparr>))))"

section \<open>Clean-up\<close>

text \<open>A duration is an int64; its arithmetic wraps.\<close>

definition toInt64 :: "int \<Rightarrow> int" where
  "toInt64 x = (x + 2 ^ 63) mod 2 ^ 64 - 2 ^ 63"

definition hour :: gotime where "hour = 3600 * second"

definition cutoffFor :: "int \<Rightarrow> gotime \<Rightarrow> gotime" where
  "cutoffFor retentionDays now = now + toInt64 (toInt64 (toInt64 (- retentionDays) * 24) * hour)"

record dir_entry =
  de_name :: gostring
  de_is_dir :: bool
  de_mod_time :: "gotime option" \<comment> \<open>none when it cannot be read\<close>
  de_remove_fails :: bool

definition deletable :: "gotime \<Rightarrow> dir_entry \<Rightarrow> bool" where
  "deletable cutoff e \<longleftrightarrow>
     \<not> de_is_dir e \<and> (case de_mod_time e of None \<Rightarrow> False | Some t \<Rightarrow> t < cutoff)"

text \<open>The entries left, and how many were deleted; none stands for a directory that cannot be read.\<close>

fun cleanEntries :: "gotime \<Rightarrow> dir_entry list \<Rightarrow> dir_entry list \<times> nat" where
  "cleanEntries cutoff [] = ([], 0)"
| "cleanEntries cutoff (e # es) =
     (case cleanEntries cutoff es of
        (kept, deleted) \<Rightarrow>
          if deletable cutoff e \<and> \<not> de_remove_fails e then (kept, deleted + 1) else (e # kept, deleted))"

definition cleanDir :: "gotime \<Rightarrow> dir_entry list option \<Rightarrow> dir_entry list option \<times> nat" where
  "cleanDir cutoff d =
     (case d of None \<Rightarrow> (None, 0) | Some es \<Rightarrow> (case cleanEntries cutoff es of (kept, n) \<Rightarrow> (Some kept, n)))"

text \<open>One sweep of the loop that \<open>StartCleanup\<close> starts; it starts none when retention is disabled.\<close>

definition cleanupSweep :: "int \<Rightarrow> gotime \<Rightarrow> dir_entry list option list \<Rightarrow> dir_entry list option list" where
  "cleanupSweep retentionDays now dirs =
     (if retentionDays \<le> 0 \<or> dirs = [] then dirs
      else map (\<lambda>d. fst (cleanDir (cutoffFor retentionDays now) d)) dirs)"

section \<open>The log of a run\<close>

text \<open>An open log: the bytes written so far. A nil log takes every call and does nothing.\<close>

definition openRunLog :: "goerror \<Rightarrow> goerror \<Rightarrow> gostring + gostring" where
  "openRunLog mkdirErr openErr =
     (case mkdirErr of
        Some e \<Rightarrow> Inl (''create run log dir: '' @ e)
      | None \<Rightarrow> (case openErr of Some e \<Rightarrow> Inl (''open run log: '' @ e) | None \<Rightarrow> Inr []))"

definition logPrintln :: "gostring \<Rightarrow> gostring option \<Rightarrow> gostring option" where
  "logPrintln line = map_option (\<lambda>written. written @ line @ [CHR 0x0A])"

definition logLogf :: "gostring \<Rightarrow> gostring \<Rightarrow> gostring option \<Rightarrow> gostring option" where
  "logLogf ts msg = map_option (\<lambda>written. written @ ''['' @ ts @ ''] '' @ msg @ [CHR 0x0A])"

section \<open>Laws\<close>

lemma runLogHandler_at:
  assumes "trimPrefix path ''/runs/'' = rest" "rest \<noteq> path" "strCut ''/'' rest = Some (i, ''logs'')" "validRunID i"
    and "httpMethod = ''GET'' \<or> httpMethod = ''HEAD''"
  shows "runLogHandler dir openFile httpMethod path =
     (case openFile (logPathOf dir i) of
        LogMissing \<Rightarrow> httpNotFound
      | LogBroken e \<Rightarrow> httpError ''internal error'' 500
      | LogOpened c \<Rightarrow> \<lparr>hr_status = 200, hr_headers = plainHeaders,
                        hr_body = (if httpMethod = ''HEAD'' then [] else c)\<rparr>)"
  using assms by (auto simp: runLogHandler_def Let_def)

lemma runLogHandler_200:
  assumes m: "httpMethod = ''GET'' \<or> httpMethod = ''HEAD''" and i: "validRunID i"
  shows "runLogHandler dir openFile httpMethod (''/runs/'' @ i @ ''/logs'') =
     (case openFile (logPathOf dir i) of
        LogMissing \<Rightarrow> httpNotFound
      | LogBroken e \<Rightarrow> httpError ''internal error'' 500
      | LogOpened c \<Rightarrow> \<lparr>hr_status = 200, hr_headers = plainHeaders,
                        hr_body = (if httpMethod = ''HEAD'' then [] else c)\<rparr>)"
proof -
  have "trimPrefix (''/runs/'' @ i @ ''/logs'') ''/runs/'' = i @ ''/logs''" by (rule trimPrefix_append)
  moreover have "strCut ''/'' (i @ slash # ''logs'') = Some (i, ''logs'')"
    using validRunID_chars(1) [OF i] by (rule strCut_char)
  moreover have "i @ ''/logs'' \<noteq> ''/runs/'' @ i @ ''/logs''" by (simp add: Cons_eq_append_conv)
  ultimately show ?thesis using m i by (intro runLogHandler_at [where rest = "i @ ''/logs''"])
qed

lemma runLogHandler_other:
  assumes "\<not> (\<exists>i. path = ''/runs/'' @ i @ ''/logs'' \<and> validRunID i) \<or> httpMethod \<noteq> ''GET'' \<and> httpMethod \<noteq> ''HEAD''"
  shows "\<exists>r. hr_status r \<noteq> 200 \<and> (\<forall>openFile. runLogHandler dir openFile httpMethod path = r)"
proof (cases "httpMethod \<noteq> ''GET'' \<and> httpMethod \<noteq> ''HEAD''")
  case True
  then show ?thesis
    by (intro exI [of _ "httpError ''method not allowed'' 405"]) (simp add: runLogHandler_def httpError_def)
next
  case m: False
  have "runLogHandler dir openFile httpMethod path = httpNotFound" for openFile
  proof (rule ccontr)
    assume r: "runLogHandler dir openFile httpMethod path \<noteq> httpNotFound"
    let ?rest = "trimPrefix path ''/runs/''"
    have rest: "?rest \<noteq> path" using r m by (auto simp: runLogHandler_def)
    obtain i t where cut: "strCut ''/'' ?rest = Some (i, t)" using r m rest
      by (cases "strCut ''/'' ?rest") (auto simp: runLogHandler_def Let_def)
    have it: "t = ''logs'' \<and> validRunID i" using r m rest cut
      by (simp add: runLogHandler_def Let_def split: if_splits)
    have "path = ''/runs/'' @ ?rest" using rest by (auto simp: trimPrefix_def hasPrefix_iff split: if_splits)
    moreover have "?rest = i @ ''/logs''" using strCut_Some_append [OF cut] it by simp
    ultimately show False using assms it m by metis
  qed
  then show ?thesis by (intro exI [of _ httpNotFound]) (simp add: httpNotFound_def httpError_def)
qed

lemma logName_safe: "validRunID i \<Longrightarrow> safeSeg (i @ ''.log'')"
proof -
  assume "validRunID i"
  then have "slash \<notin> set (i @ ''.log'')" using validRunID_chars(1) by simp
  moreover have "i @ ''.log'' \<noteq> ''.'' \<and> i @ ''.log'' \<noteq> ''..''"
    by (cases i; cases "tl i") auto
  ultimately show ?thesis by (simp add: safeSeg_def)
qed

text \<open>
  C36. Run logs are served from their directory only: a request is answered 200 exactly when its method is
  GET or HEAD, its path names a run by a well-formed id and that run's log, one ordinary name below the
  directory, can be opened; the body is then the log for GET and empty for HEAD. Whatever the path, no
  file but such a log has any influence on the answer.
\<close>

theorem runLog_confined:
  assumes "dir \<noteq> []"
  shows "(hr_status (runLogHandler dir openFile httpMethod path) = 200 \<longleftrightarrow>
        httpMethod \<in> {''GET'', ''HEAD''}
        \<and> (\<exists>i c. path = ''/runs/'' @ i @ ''/logs'' \<and> validRunID i \<and> openFile (logPathOf dir i) = LogOpened c
              \<and> hr_body (runLogHandler dir openFile httpMethod path) = (if httpMethod = ''HEAD'' then [] else c)))
    \<and> (\<forall>i. validRunID i \<longrightarrow> safeSeg (i @ ''.log'')
          \<and> logPathOf dir i = renderSegs (isRooted dir) (cleanSegs (isRooted dir) [] (splitOn slash dir) @ [i @ ''.log'']))
    \<and> ((\<forall>i. validRunID i \<longrightarrow> openFile (logPathOf dir i) = openFile' (logPathOf dir i)) \<longrightarrow>
        runLogHandler dir openFile httpMethod path = runLogHandler dir openFile' httpMethod path)"
proof -
  have paths: "validRunID i \<Longrightarrow> safeSeg (i @ ''.log'')
      \<and> logPathOf dir i = renderSegs (isRooted dir) (cleanSegs (isRooted dir) [] (splitOn slash dir) @ [i @ ''.log''])" for i
    using logName_safe [of i] assms by (simp add: logPathOf_def pathJoin_safe)
  show ?thesis
proof (cases "(\<exists>i. path = ''/runs/'' @ i @ ''/logs'' \<and> validRunID i) \<and> (httpMethod = ''GET'' \<or> httpMethod = ''HEAD'')")
  case True
  then obtain i where i: "path = ''/runs/'' @ i @ ''/logs''" "validRunID i"
    and m: "httpMethod = ''GET'' \<or> httpMethod = ''HEAD''" by blast
  have h: "runLogHandler dir f httpMethod path =
     (case f (logPathOf dir i) of
        LogMissing \<Rightarrow> httpNotFound
      | LogBroken e \<Rightarrow> httpError ''internal error'' 500
      | LogOpened c \<Rightarrow> \<lparr>hr_status = 200, hr_headers = plainHeaders,
                        hr_body = (if httpMethod = ''HEAD'' then [] else c)\<rparr>)" for f
    unfolding i(1) using m i(2) by (rule runLogHandler_200)
  have one: "path = ''/runs/'' @ j @ ''/logs'' \<longleftrightarrow> j = i" for j unfolding i(1) by auto
  have "hr_status (runLogHandler dir openFile httpMethod path) = 200 \<longleftrightarrow>
      (\<exists>c. openFile (logPathOf dir i) = LogOpened c
         \<and> hr_body (runLogHandler dir openFile httpMethod path) = (if httpMethod = ''HEAD'' then [] else c))"
    unfolding h by (cases "openFile (logPathOf dir i)") (simp_all add: httpNotFound_def httpError_def)
  then show ?thesis using m i(2) paths unfolding one h by auto
next
  case False
  then obtain r where r: "hr_status r \<noteq> 200" "\<And>f. runLogHandler dir f httpMethod path = r"
    using runLogHandler_other [of path httpMethod dir] by metis
  show ?thesis using False r paths by auto
qed
qed

lemma runLog_confined_witness:
  "hr_status (runLogHandler ''/data/runs'' (\<lambda>p. if p = ''/data/runs/17-0011aabb.log'' then LogOpened ''ok'' else LogMissing)
     ''GET'' ''/runs/17-0011aabb/logs'') = 200"
proof -
  let ?o = "\<lambda>p. if p = ''/data/runs/17-0011aabb.log'' then LogOpened ''ok'' else LogMissing"
  let ?h = "runLogHandler ''/data/runs'' ?o ''GET'' ''/runs/17-0011aabb/logs''"
  have d: "''/data/runs'' \<noteq> []" by simp
  have "validRunID ''17-0011aabb''" "logPathOf ''/data/runs'' ''17-0011aabb'' = ''/data/runs/17-0011aabb.log''"
    "hr_body ?h = ''ok''"
    by code_simp+
  then have e: "\<exists>i c. ''/runs/17-0011aabb/logs'' = ''/runs/'' @ i @ ''/logs'' \<and> validRunID i
      \<and> ?o (logPathOf ''/data/runs'' i) = LogOpened c \<and> hr_body ?h = (if ''GET'' = ''HEAD'' then [] else c)"
    by (intro exI [of _ "''17-0011aabb''"] exI [of _ "''ok''"]) simp
  show ?thesis
    by (rule runLog_confined [OF d, of ?o "''GET''" "''/runs/17-0011aabb/logs''" ?o, THEN conjunct1, THEN iffD2])
      (use e in simp)
qed

section \<open>What a sweep deletes\<close>

lemma cleanEntries_kept:
  "fst (cleanEntries cutoff es) = filter (\<lambda>e. \<not> deletable cutoff e \<or> de_remove_fails e) es
   \<and> length es = length (fst (cleanEntries cutoff es)) + snd (cleanEntries cutoff es)"
  by (induction es) (auto split: prod.splits)

lemma toInt64_id: "\<lbrakk>- (2 ^ 63) \<le> x; x < 2 ^ 63\<rbrakk> \<Longrightarrow> toInt64 x = x"
  by (simp add: toInt64_def mod_pos_pos_trivial)

lemma cutoffFor_exact: "\<lbrakk>0 < d; d \<le> 106751\<rbrakk> \<Longrightarrow> cutoffFor d now = now - d * 24 * hour"
  by (simp add: cutoffFor_def toInt64_id hour_def second_def)

lemma toInt64_wraps: "\<lbrakk>- (2 ^ 64) \<le> x; x < - (2 ^ 63)\<rbrakk> \<Longrightarrow> toInt64 x = x + 2 ^ 64"
proof -
  assume x: "- (2 ^ 64) \<le> x" "x < - (2 ^ 63)"
  have "(x + 2 ^ 63) mod 2 ^ 64 = (x + 2 ^ 63 + 2 ^ 64) mod 2 ^ 64" by (simp only: mod_add_self2)
  also have "\<dots> = x + 2 ^ 63 + 2 ^ 64" using x by (intro mod_pos_pos_trivial) simp_all
  finally show ?thesis by (simp add: toInt64_def)
qed

lemma cutoffFor_wraps: "\<lbrakk>106752 \<le> d; d \<le> 213503\<rbrakk> \<Longrightarrow> now < cutoffFor d now"
  by (simp add: cutoffFor_def toInt64_id toInt64_wraps hour_def second_def)

text \<open>
  C37. A sweep deletes exactly the old files: with a retention of up to 106751 days the entries left in a
  directory are, in their order, the directories, the files whose age cannot be read, those at most so
  many days old and those that cannot be removed. From 106752 to 213503 days the duration overflows and
  every removable file not from the future is deleted. Without a retention nothing is.
\<close>

theorem sweep_exact:
  assumes "0 < days"
  shows "(days \<le> 106751 \<longrightarrow> cleanupSweep days now dirs = map (map_option (filter (\<lambda>e.
        de_is_dir e \<or> de_mod_time e = None \<or> now - the (de_mod_time e) \<le> days * 24 * hour \<or> de_remove_fails e))) dirs)
    \<and> (106752 \<le> days \<and> days \<le> 213503 \<longrightarrow>
        (\<forall>es e. Some es \<in> set (cleanupSweep days now dirs) \<and> e \<in> set es \<longrightarrow>
           de_is_dir e \<or> de_mod_time e = None \<or> now < the (de_mod_time e) \<or> de_remove_fails e))
    \<and> cleanupSweep 0 now dirs = dirs"
proof -
  have c: "fst (cleanDir cutoff d) = map_option (filter (\<lambda>e. \<not> deletable cutoff e \<or> de_remove_fails e)) d" for cutoff d
    by (cases d) (simp_all add: cleanDir_def split_beta cleanEntries_kept)
  have s: "cleanupSweep days now dirs
      = map (map_option (filter (\<lambda>e. \<not> deletable (cutoffFor days now) e \<or> de_remove_fails e))) dirs"
    using assms by (simp add: cleanupSweep_def c)
  have k: "(\<not> deletable cutoff e \<or> de_remove_fails e) \<longleftrightarrow>
      de_is_dir e \<or> de_mod_time e = None \<or> cutoff \<le> the (de_mod_time e) \<or> de_remove_fails e" for cutoff e
    by (auto simp: deletable_def split: option.split)
  show ?thesis unfolding s k using assms cutoffFor_wraps [of days now]
    by (auto simp: cutoffFor_exact algebra_simps cleanupSweep_def map_option_case split: option.splits)
qed

lemma sweep_exact_witness:
  "cleanupSweep 14 (20 * 24 * hour) [Some [\<lparr>de_name = ''old.log'', de_is_dir = False, de_mod_time = Some 0, de_remove_fails = False\<rparr>]]
   = [Some []]
   \<and> cleanupSweep 106752 0 [Some [\<lparr>de_name = ''new.log'', de_is_dir = False, de_mod_time = Some 0, de_remove_fails = False\<rparr>]] = [Some []]"
  using sweep_exact [of 14 "20 * 24 * hour" "[Some [\<lparr>de_name = ''old.log'', de_is_dir = False, de_mod_time = Some 0, de_remove_fails = False\<rparr>]]"]
  by (simp add: hour_def second_def) (simp add: cleanupSweep_def cleanDir_def deletable_def cutoffFor_def toInt64_def hour_def second_def)

end
