(* ===== verification/Daemon.thy ===== *)
theory Daemon
  imports Poller Reload Webhook Ssh Github Runlog
begin

text \<open>
  The daemon (\<open>internal/daemon\<close>) and its wiring of providers: the mirror lookup, the manual deployment,
  refresh and probe, the watcher that reloads replace, the instance lock, and the HTTP set-up. Work per
  host that runs concurrently is taken in the order of the hosts, which share nothing.
\<close>

section \<open>Mirrors\<close>

text \<open>A mirror below a directory with the head of a branch; every failure counts as not found.\<close>

definition mirrorWithHead ::
  "'w os \<Rightarrow> gostring list \<Rightarrow> gostring \<Rightarrow> gostring \<Rightarrow> gostring \<Rightarrow> 'w \<Rightarrow> ('w mirror_repo \<times> gostring) option \<times> 'w" where
  "mirrorWithHead os senv dataPath url branch w =
     (case findRepo os url dataPath senv w of
        Inr (Some r) \<Rightarrow>
          (case localHead os r branch w of
             (Inl e, w') \<Rightarrow> (None, w')
           | (Inr sha, w') \<Rightarrow> (Some (mirrorRepoOf os r, sha), w'))
      | _ \<Rightarrow> (None, w))"

definition resolveMirror :: "'w os \<Rightarrow> env_config \<Rightarrow> gostring list \<Rightarrow> 'w resolver" where
  "resolveMirror os env senv url branch w =
     (case (if env_source env = SourceGit
            then mirrorWithHead os senv (pathJoin [env_data_path env, ''config'']) url branch w
            else (None, w)) of
        (Some (m, sha), w1) \<Rightarrow> ((Some m, sha, True), w1)
      | (None, w1) \<Rightarrow>
          (case mirrorWithHead os senv (env_data_path env) url branch w1 of
             (Some (m, sha), w2) \<Rightarrow> ((Some m, sha, True), w2)
           | (None, w2) \<Rightarrow> ((None, [], False), w2)))"

definition getMirrorHead :: "'w resolver \<Rightarrow> gostring \<Rightarrow> gostring \<Rightarrow> 'w \<Rightarrow> (gostring \<times> bool) \<times> 'w" where
  "getMirrorHead resolve url branch w = (case resolve url branch w of ((m, sha, ok), w') \<Rightarrow> ((sha, ok), w'))"

definition isConfigRepo :: "gostring \<Rightarrow> gostring \<Rightarrow> repo_config list \<Rightarrow> bool" where
  "isConfigRepo repoName configRepoFullName repos \<longleftrightarrow>
     configRepoFullName \<noteq> []
     \<and> list_ex (\<lambda>r. repo_name r = repoName \<and> repoFullName (repo_url r) = configRepoFullName) repos"

definition configRepoFullName :: "env_config \<Rightarrow> gostring" where
  "configRepoFullName env = (if env_source env = SourceGit then repoFullName (env_config_repo_url env) else [])"

text \<open>The reload that an event of a repository asks for, before its deployment.\<close>

definition reloadConfigRepo ::
  "env_config \<Rightarrow> ('s \<Rightarrow> config) \<Rightarrow> ('s \<Rightarrow> goerror \<times> 's) \<Rightarrow> gostring \<Rightarrow> 's \<Rightarrow> goerror \<times> 's" where
  "reloadConfigRepo env getConfig reload repoName s =
     (if isConfigRepo repoName (configRepoFullName env) (cfg_repos (getConfig s)) then reload s else (None, s))"

section \<open>Manual deployments\<close>

fun manualTargets ::
  "(gostring \<rightharpoonup> host) \<Rightarrow> project \<Rightarrow> repo_config \<Rightarrow> gostring \<Rightarrow> gostring list \<Rightarrow> deploy_target list" where
  "manualTargets hostByName p r hostName [] = []"
| "manualTargets hostByName p r hostName (t # ts) =
     (if hostName \<noteq> [] \<and> t \<noteq> hostName then manualTargets hostByName p r hostName ts
      else (case hostByName t of
              None \<Rightarrow> manualTargets hostByName p r hostName ts
            | Some h \<Rightarrow> \<lparr>t_project = p, t_host = h, t_repo = r\<rparr> # manualTargets hostByName p r hostName ts))"

definition manualSha ::
  "gostring \<Rightarrow> disk \<Rightarrow> (gostring \<Rightarrow> gostring \<Rightarrow> 'w \<Rightarrow> (gostring \<times> bool) \<times> 'w) \<Rightarrow> repo_config \<Rightarrow> 'w
   \<Rightarrow> gostring option \<times> 'w" where
  "manualSha dp d mirrorHead r w =
     (case mirrorHead (repo_url r) (repo_branch r) w of
        ((sha, ok), w') \<Rightarrow>
          (if \<not> ok \<or> sha = [] then
             (case getRepoState dp (repo_name r) (repo_branch r) d of
                Inr (Some rs) \<Rightarrow> if rs_last_deployed_sha rs = [] then None else Some (rs_last_deployed_sha rs)
              | _ \<Rightarrow> None)
           else Some sha, w'))"

datatype manual_error =
    NoSuchProject gostring | NoSuchRepo gostring | NotATarget gostring gostring | NoTargets gostring | NoKnownCommit gostring

text \<open>The names of the queued targets or the error, and the event dispatched.\<close>

definition manualDeploy ::
  "gostring \<Rightarrow> disk \<Rightarrow> (gostring \<Rightarrow> gostring \<Rightarrow> 'w \<Rightarrow> (gostring \<times> bool) \<times> 'w) \<Rightarrow> config \<Rightarrow> gostring \<Rightarrow> gostring \<Rightarrow> 'w
   \<Rightarrow> ((manual_error + gostring list) \<times> repo_event option) \<times> 'w" where
  "manualDeploy dp d mirrorHead c projectName hostName w =
     (case List.find (\<lambda>p. proj_name p = projectName) (cfg_projects c) of
        None \<Rightarrow> ((Inl (NoSuchProject projectName), None), w)
      | Some p \<Rightarrow>
          (case List.find (\<lambda>r. repo_name r = proj_repo p) (cfg_repos c) of
             None \<Rightarrow> ((Inl (NoSuchRepo (proj_repo p)), None), w)
           | Some r \<Rightarrow>
               (let ts = manualTargets (hostIndex c) p r hostName (proj_targets p) in
                if hostName \<noteq> [] \<and> ts = [] then ((Inl (NotATarget hostName projectName), None), w)
                else if ts = [] then ((Inl (NoTargets projectName), None), w)
                else (case manualSha dp d mirrorHead r w of
                        (None, w') \<Rightarrow> ((Inl (NoKnownCommit (repo_name r)), None), w')
                      | (Some sha, w') \<Rightarrow>
                          ((Inr (map (\<lambda>t. proj_name (t_project t) @ ''/'' @ host_name (t_host t)) ts),
                            Some (forcedEvent TriggerRedeploy (repo_name r) (repo_branch r) sha ts True)), w')))))"

section \<open>Refresh and probe\<close>

record refresh_project =
  rp_project :: gostring
  rp_error :: gostring
  rp_services :: "(gostring \<times> gostring \<times> gostring) list" \<comment> \<open>service, state, status\<close>

record refresh_host =
  rh_host :: gostring
  rh_error :: gostring
  rh_projects :: "refresh_project list"

text \<open>The work per host, by the targets in the order of the projects; unknown hosts are left out.\<close>

type_synonym host_work = "(gostring \<rightharpoonup> host \<times> project list) \<times> gostring list"

definition addWork :: "host list \<Rightarrow> project \<Rightarrow> host_work \<Rightarrow> gostring \<Rightarrow> host_work" where
  "addWork hosts p hw target =
     (case hw of
        (hostMap, hostOrder) \<Rightarrow>
          (case hostMap target of
             Some (h, ps) \<Rightarrow> (hostMap(target \<mapsto> (h, ps @ [p])), hostOrder)
           | None \<Rightarrow>
               (case List.find (\<lambda>h. host_name h = target) hosts of
                  None \<Rightarrow> (hostMap, hostOrder)
                | Some h \<Rightarrow> (hostMap(target \<mapsto> (h, [p])), hostOrder @ [target]))))"

definition hostWork :: "config \<Rightarrow> (host \<times> project list) list" where
  "hostWork c =
     (case foldl (\<lambda>hw p. foldl (addWork (cfg_hosts c) p) hw (proj_targets p)) (Map.empty, []) (cfg_projects c) of
        (hostMap, hostOrder) \<Rightarrow> map (\<lambda>k. the (hostMap k)) hostOrder)"

fun refreshProjects :: "'w connection \<Rightarrow> host \<Rightarrow> project list \<Rightarrow> 'w \<times> remote_call list \<Rightarrow> refresh_project list \<times> 'w \<times> remote_call list" where
  "refreshProjects conn h [] s = ([], s)"
| "refreshProjects conn h (p # ps) s =
     (case composePs conn (newExecutor (remoteDirOf h p) (proj_name p)) (proj_compose_files p) s of
        (r, s1) \<Rightarrow>
          (case refreshProjects conn h ps s1 of
             (rest, s2) \<Rightarrow>
               ((case r of
                   Inl e \<Rightarrow> \<lparr>rp_project = proj_name p, rp_error = e, rp_services = []\<rparr>
                 | Inr svcs \<Rightarrow> \<lparr>rp_project = proj_name p, rp_error = [],
                     rp_services = map (\<lambda>v. (svc_service v, svc_state v, svc_status v)) svcs\<rparr>) # rest, s2)))"

definition refreshHost :: "'w eng_io \<Rightarrow> env_config \<Rightarrow> host \<times> project list \<Rightarrow> 'w \<Rightarrow> refresh_host \<times> 'w" where
  "refreshHost io env hp w =
     (case hp of
        (h, ps) \<Rightarrow>
          (case eo_dial io (dialConfigFor env h) w of
             (Inl e, w1) \<Rightarrow> (\<lparr>rh_host = host_name h, rh_error = ''SSH dial: '' @ e, rh_projects = []\<rparr>, w1)
           | (Inr conn, w1) \<Rightarrow>
               (case refreshProjects conn h ps (w1, []) of
                  (projects, w2, calls) \<Rightarrow>
                    (\<lparr>rh_host = host_name h, rh_error = [], rh_projects = projects\<rparr>, eo_close io w2))))"

fun perHost :: "('a \<Rightarrow> 'w \<Rightarrow> 'b \<times> 'w) \<Rightarrow> 'a list \<Rightarrow> 'w \<Rightarrow> 'b list \<times> 'w" where
  "perHost f [] w = ([], w)"
| "perHost f (x # xs) w = (case f x w of (y, w1) \<Rightarrow> (case perHost f xs w1 of (ys, w2) \<Rightarrow> (y # ys, w2)))"

definition refreshAll :: "'w eng_io \<Rightarrow> env_config \<Rightarrow> config \<Rightarrow> 'w \<Rightarrow> refresh_host list \<times> 'w" where
  "refreshAll io env c = perHost (refreshHost io env) (hostWork c)"

record probe_result =
  pb_host :: gostring
  pb_address :: gostring
  pb_ok :: bool
  pb_error :: gostring

definition probeHost :: "'w eng_io \<Rightarrow> env_config \<Rightarrow> host \<Rightarrow> 'w \<Rightarrow> probe_result \<times> 'w" where
  "probeHost io env h w =
     (case eo_dial io (dialConfigFor env h) w of
        (Inl e, w1) \<Rightarrow> (\<lparr>pb_host = host_name h, pb_address = host_address h, pb_ok = False, pb_error = e\<rparr>, w1)
      | (Inr conn, w1) \<Rightarrow>
          (case probe conn w1 of
             (err, w2) \<Rightarrow>
               (\<lparr>pb_host = host_name h, pb_address = host_address h, pb_ok = (err = None), pb_error = errMessage err\<rparr>,
                eo_close io w2)))"

definition probeAll :: "'w eng_io \<Rightarrow> env_config \<Rightarrow> config \<Rightarrow> 'w \<Rightarrow> probe_result list \<times> 'w" where
  "probeAll io env c = perHost (probeHost io env) (cfg_hosts c)"

section \<open>The watcher that reloads replace\<close>

text \<open>The current instance and the instances that are running.\<close>

record managed_watcher =
  mw_instance :: "nat option"
  mw_running :: "nat set"

definition watcherStart :: "nat \<Rightarrow> managed_watcher \<Rightarrow> managed_watcher" where
  "watcherStart i s = s\<lparr>mw_instance := Some i, mw_running := insert i (mw_running s)\<rparr>"

definition watcherStop :: "managed_watcher \<Rightarrow> managed_watcher" where
  "watcherStop s = (case mw_instance s of None \<Rightarrow> s | Some i \<Rightarrow> s\<lparr>mw_running := mw_running s - {i}\<rparr>)"

definition watcherRestart :: "nat \<Rightarrow> managed_watcher \<Rightarrow> managed_watcher" where
  "watcherRestart i s =
     (let running = insert i (mw_running s) in
      s\<lparr>mw_instance := Some i,
        mw_running := (case mw_instance s of None \<Rightarrow> running | Some old \<Rightarrow> running - {old})\<rparr>)"

text \<open>What a watcher polls: the configuration's repository first, unless it is pushed or local.\<close>

datatype poll_handler = PollConfig | PollRepo repo_config

definition buildWatcher :: "env_config \<Rightarrow> config \<Rightarrow> poll_handler subscription list" where
  "buildWatcher env c =
     (let subs = map (\<lambda>s. \<lparr>sub_url = sub_url s, sub_branch = sub_branch s, sub_interval = sub_interval s,
                          sub_handler = PollRepo (sub_handler s)\<rparr>) (pollSubscriptions c)
      in if env_source env = SourceGit \<and> env_config_repo_mode env \<noteq> ''webhook''
         then \<lparr>sub_url = env_config_repo_url env, sub_branch = env_config_repo_branch env,
               sub_interval = (if env_config_repo_interval env \<le> 0 then DefaultPollInterval else env_config_repo_interval env),
               sub_handler = PollConfig\<rparr> # subs
         else subs)"

section \<open>Start-up\<close>

datatype flock = FlockTaken | FlockHeld | FlockFailed gostring

definition acquireSingleInstanceLock :: "gostring \<Rightarrow> goerror \<Rightarrow> flock \<Rightarrow> goerror" where
  "acquireSingleInstanceLock dataPath openErr lock =
     (let lockPath = pathJoin [dataPath, ''deeplo.lock''] in
      case openErr of
        Some e \<Rightarrow> Some (''open lock file '' @ lockPath @ '': '' @ e)
      | None \<Rightarrow>
          (case lock of
             FlockTaken \<Rightarrow> None
           | FlockHeld \<Rightarrow> Some (''another deeplo daemon is already running ('' @ lockPath @ '' is locked)'')
           | FlockFailed e \<Rightarrow> Some (''lock '' @ lockPath @ '': '' @ e)))"

datatype run_log_server = NoLogServer | LogsOnMainPort | LogsOnPort int

definition newRunLogServer :: "env_config \<Rightarrow> run_log_server" where
  "newRunLogServer env =
     (if \<not> env_log_server env then NoLogServer
      else if logServerListenPort env = env_http_port env then LogsOnMainPort
      else LogsOnPort (logServerListenPort env))"

definition anyRepoUsesWebhooks :: "config option \<Rightarrow> bool" where
  "anyRepoUsesWebhooks c =
     (case c of None \<Rightarrow> False
      | Some c \<Rightarrow> list_ex (\<lambda>r. repo_trigger_mode r = TriggerModeWebhook \<or> repo_trigger_mode r = TriggerModeHybrid) (cfg_repos c))"

datatype webhook_setup = WebhooksOff bool | WebhooksFailed gostring | WebhooksOn gostring
  \<comment> \<open>off, with or without the warning; on with the secret\<close>

definition registerWebhooks :: "env_config \<Rightarrow> config option \<Rightarrow> (gostring \<Rightarrow> gostring + gostring) \<Rightarrow> webhook_setup" where
  "registerWebhooks env c readFile =
     (if env_github_webhook_secret_file env = [] then WebhooksOff (anyRepoUsesWebhooks c)
      else (case readSecret (env_github_webhook_secret_file env) readFile of
              Inl e \<Rightarrow> WebhooksFailed (''github webhook handler: '' @ e)
            | Inr secret \<Rightarrow> WebhooksOn secret))"

section \<open>A manual deployment is a part of the plan\<close>

lemma targetsOn_project: "t \<in> set (targetsOn hb p r ts) \<Longrightarrow> t_project t = p \<and> t_repo t = r"
  by (induction hb p r ts rule: targetsOn.induct) (auto split: option.splits)

lemma hostIndex_name: "hostIndex c k = Some h \<Longrightarrow> host_name h = k"
  unfolding hostIndex_def by (drule indexBy_SomeD) simp

lemma manualTargets_eq:
  assumes "\<And>k h. hb k = Some h \<Longrightarrow> host_name h = k"
  shows "manualTargets hb p r hostName ts
    = filter (\<lambda>t. hostName = [] \<or> host_name (t_host t) = hostName) (targetsOn hb p r ts)"
  using assms by (induction ts) (auto split: option.split)

lemma manualTargets_index:
  "manualTargets (hostIndex c) p r hostName ts
    = filter (\<lambda>t. hostName = [] \<or> host_name (t_host t) = hostName) (targetsOn (hostIndex c) p r ts)"
  by (rule manualTargets_eq) (rule hostIndex_name)

lemma allTargetsOf_project:
  assumes "distinct (map proj_name ps)"
  shows "filter (\<lambda>t. proj_name (t_project t) = k) (allTargetsOf rb hb ps) =
     (case List.find (\<lambda>p. proj_name p = k) ps of
        None \<Rightarrow> []
      | Some p \<Rightarrow> (case rb (proj_repo p) of None \<Rightarrow> [] | Some r \<Rightarrow> targetsOn hb p r (proj_targets p)))"
  using assms
proof (induction ps)
  case (Cons p ps)
  note ih = Cons.IH [OF Cons.prems [unfolded list.map distinct.simps, THEN conjunct2]]
  have own: "filter (\<lambda>t. proj_name (t_project t) = k) (targetsOn hb p r ts)
      = (if proj_name p = k then targetsOn hb p r ts else [])" for r ts
    by (auto simp: filter_id_conv filter_empty_conv dest: targetsOn_project)
  show ?case
  proof (cases "proj_name p = k")
    case True
    then have "List.find (\<lambda>p. proj_name p = k) ps = None"
      using Cons.prems by (auto simp: find_None_iff image_iff)
    then show ?thesis using True ih by (simp add: own split: option.split)
  next
    case False
    then show ?thesis using ih by (simp add: own split: option.split)
  qed
qed simp

definition manualSelection :: "config \<Rightarrow> gostring \<Rightarrow> gostring \<Rightarrow> deploy_target list" where
  "manualSelection c projectName hostName =
     filter (\<lambda>t. proj_name (t_project t) = projectName \<and> (hostName = [] \<or> host_name (t_host t) = hostName)) (allTargets c)"

lemma manualSelection_eq:
  assumes wf: "wfConfig c"
  shows "manualSelection c projectName hostName =
     (case List.find (\<lambda>p. proj_name p = projectName) (cfg_projects c) of
        None \<Rightarrow> []
      | Some p \<Rightarrow>
          (case List.find (\<lambda>r. repo_name r = proj_repo p) (cfg_repos c) of
             None \<Rightarrow> []
           | Some r \<Rightarrow> manualTargets (hostIndex c) p r hostName (proj_targets p)))"
proof -
  have r: "List.find (\<lambda>r. repo_name r = k) (cfg_repos c) = repoIndex c k" for k
    unfolding repoIndex_def using wfConfigD(2) [OF wf] by (rule find_Some_iff_indexBy)
  have "manualSelection c projectName hostName
      = filter (\<lambda>t. hostName = [] \<or> host_name (t_host t) = hostName)
          (filter (\<lambda>t. proj_name (t_project t) = projectName) (allTargets c))"
    by (simp add: manualSelection_def conj_commute)
  also have "\<dots> = (case List.find (\<lambda>p. proj_name p = projectName) (cfg_projects c) of
        None \<Rightarrow> []
      | Some p \<Rightarrow> (case repoIndex c (proj_repo p) of
             None \<Rightarrow> []
           | Some r \<Rightarrow> filter (\<lambda>t. hostName = [] \<or> host_name (t_host t) = hostName)
               (targetsOn (hostIndex c) p r (proj_targets p))))"
    unfolding allTargets_def allTargetsOf_project [OF wfConfigD(3) [OF wf]] by (auto split: option.split)
  finally show ?thesis unfolding r manualTargets_index .
qed

text \<open>
  C23. A manual deployment is exactly a part of the plan: with a well-formed configuration it queues, in
  their order, the planned targets of the named project, on the named host if one is given. If there is
  none, or no commit of the repository is known, it answers an error and dispatches nothing. Otherwise
  it names the targets queued and dispatches one event at the head of the mirror's branch, or at the
  last deployed commit when there is no head, whose jobs are all these targets, also those already
  deployed at that commit.
\<close>

theorem manualDeploy_exact:
  assumes "wfConfig c" and "manualDeploy dp d mirrorHead c projectName hostName w = ((res, out), w')"
    and "ts = manualSelection c projectName hostName"
  shows "(ts = [] \<longrightarrow> (\<exists>e. res = Inl e) \<and> out = None \<and> w' = w)
    \<and> (ts \<noteq> [] \<longrightarrow>
        (case fst (manualSha dp d mirrorHead (t_repo (hd ts)) w) of
           None \<Rightarrow> (\<exists>e. res = Inl e) \<and> out = None
         | Some sha \<Rightarrow>
             res = Inr (map (\<lambda>t. projectName @ ''/'' @ host_name (t_host t)) ts)
             \<and> (\<exists>ev. out = Some ev \<and> ev_commit_sha ev = sha \<and> ev_repo_name ev = repo_name (t_repo (hd ts))
                  \<and> (\<forall>cfg dp d. map pj_target (pushJobs cfg dp d ev) = ts))))"
proof -
  have sel: "ts = (case List.find (\<lambda>p. proj_name p = projectName) (cfg_projects c) of
        None \<Rightarrow> []
      | Some p \<Rightarrow>
          (case List.find (\<lambda>r. repo_name r = proj_repo p) (cfg_repos c) of
             None \<Rightarrow> []
           | Some r \<Rightarrow> manualTargets (hostIndex c) p r hostName (proj_targets p)))"
    unfolding assms(3) by (rule manualSelection_eq [OF assms(1)])
  show ?thesis
  proof (cases "ts = []")
    case True
    then show ?thesis using assms(2) sel
      by (auto simp: manualDeploy_def Let_def split: option.splits if_splits)
  next
    case False
    then obtain p r where p: "List.find (\<lambda>p. proj_name p = projectName) (cfg_projects c) = Some p"
      "List.find (\<lambda>r. repo_name r = proj_repo p) (cfg_repos c) = Some r"
      "ts = manualTargets (hostIndex c) p r hostName (proj_targets p)"
      using sel by (auto split: option.splits)
    have "t \<in> set ts \<Longrightarrow> t_project t = p \<and> t_repo t = r" for t
      unfolding p(3) manualTargets_index by (auto dest: targetsOn_project)
    moreover have "proj_name p = projectName" using find_SomeD [OF p(1)] by simp
    ultimately have names: "map (\<lambda>t. proj_name (t_project t) @ ''/'' @ host_name (t_host t)) ts
        = map (\<lambda>t. projectName @ ''/'' @ host_name (t_host t)) ts" and rep: "t_repo (hd ts) = r"
      using False by auto
    have jobs: "map pj_target (pushJobs cfg dp d (forcedEvent TriggerRedeploy rn rb sha ts True)) = ts" for cfg dp d rn rb sha
    proof -
      have "\<not> skipForEvent dp d (forcedEvent TriggerRedeploy rn rb sha ts True) t" for t
        by (simp add: skipForEvent_def forcedEvent_def)
      then show ?thesis using False by (simp add: pushJobs_def plan_forcedEvent jobFor_def comp_def)
    qed
    obtain sha w1 where s: "manualSha dp d mirrorHead r w = (sha, w1)" by (rule prod.exhaust)
    have "((res, out), w') = (case sha of
          None \<Rightarrow> ((Inl (NoKnownCommit (repo_name r)), None), w1)
        | Some x \<Rightarrow> ((Inr (map (\<lambda>t. proj_name (t_project t) @ ''/'' @ host_name (t_host t)) ts),
             Some (forcedEvent TriggerRedeploy (repo_name r) (repo_branch r) x ts True)), w1))"
      using assms(2) False s
      by (cases sha) (simp_all add: manualDeploy_def p(1,2) p(3) [symmetric] Let_def)
    note m = this [unfolded names]
    show ?thesis
    proof (cases sha)
      case None
      then show ?thesis using m s False rep by simp
    next
      case (Some x)
      then have "res = Inr (map (\<lambda>t. projectName @ ''/'' @ host_name (t_host t)) ts)"
        "out = Some (forcedEvent TriggerRedeploy (repo_name r) (repo_branch r) x ts True)" using m by simp_all
      then show ?thesis using s Some False rep jobs by (simp add: forcedEvent_def)
    qed
  qed
qed


lemma manualDeploy_exact_witness:
  "\<exists>ev w'. manualDeploy ''/data'' emptyDisk (\<lambda>u b w. ((''abc'', True), w)) demoConfig ''web'' [] () = ((Inr [''web/h1''], Some ev), w')
     \<and> ev_commit_sha ev = ''abc''"
proof -
  let ?m = "manualDeploy ''/data'' emptyDisk (\<lambda>u b (w::unit). ((''abc'', True), w)) demoConfig ''web'' [] ()"
  obtain res out w' where m: "?m = ((res, out), w')" by (metis prod.exhaust)
  have sel: "manualSelection demoConfig ''web'' [] = [demoTarget]" by code_simp
  have sha: "fst (manualSha ''/data'' emptyDisk (\<lambda>u b (w::unit). ((''abc'', True), w)) r ()) = Some ''abc''" for r
    by (simp add: manualSha_def)
  have "host_name (t_host demoTarget) = ''h1''" by (simp add: demoTarget_def demoHost_def)
  then show ?thesis
    using manualDeploy_exact [OF demoConfig_wf m sel [symmetric], THEN conjunct2, THEN mp, OF list.distinct(2)] m
    unfolding sha option.case by auto
qed

section \<open>What is watched\<close>

lemma buildWatcher_positive: "\<forall>s\<in>set (buildWatcher env c). 0 < sub_interval s"
  by (auto simp: buildWatcher_def pollSubscriptions_def DefaultPollInterval_def second_def Let_def)

lemma buildWatcher_repo:
  "s \<in> set (buildWatcher env c) \<and> sub_handler s = PollRepo r \<Longrightarrow>
     r \<in> set (cfg_repos c) \<and> (repo_trigger_mode r = TriggerModePoll \<or> repo_trigger_mode r = TriggerModeHybrid)
     \<and> subKey s = (repo_url r, repo_branch r)"
  by (auto simp: buildWatcher_def pollSubscriptions_def Let_def subKey_def split: if_splits)

lemma buildWatcher_has:
  "\<lbrakk>r \<in> set (cfg_repos c); repo_trigger_mode r = TriggerModePoll \<or> repo_trigger_mode r = TriggerModeHybrid\<rbrakk>
   \<Longrightarrow> PollRepo r \<in> sub_handler ` set (buildWatcher env c)"
  by (force simp: buildWatcher_def pollSubscriptions_def Let_def image_iff)

lemma mset_groups:
  assumes "distinct ks" "key ` set xs \<subseteq> set ks"
  shows "mset (concat (map (\<lambda>k. filter (\<lambda>x. key x = k) xs) ks)) = mset xs"
  using assms
proof (induction ks arbitrary: xs)
  case (Cons k ks)
  let ?xs = "filter (\<lambda>x. key x \<noteq> k) xs"
  have "map (\<lambda>k'. filter (\<lambda>x. key x = k') xs) ks = map (\<lambda>k'. filter (\<lambda>x. key x = k') ?xs) ks"
    using Cons.prems(1) by (auto intro!: filter_cong)
  also have "mset (concat \<dots>) = mset ?xs" using Cons.prems by (intro Cons.IH) auto
  finally have "mset (concat (map (\<lambda>k. filter (\<lambda>x. key x = k) xs) (k # ks)))
      = mset (filter (\<lambda>x. key x = k) xs) + mset ?xs" by (simp only: list.map concat.simps mset_append)
  then show ?case unfolding mset_filter by (simp only: multiset_partition [symmetric])
qed simp

text \<open>
  C24. Everything to be polled is polled: the handlers of the groups are, with their numbers, those of the
  repositories in poll or hybrid mode, each in the group of its URL and branch, and intervals are
  positive; and when the configuration comes from a polled git repository, the first group is its own
  and reloads it before any repository of the group is handled.
\<close>

theorem watcher_polls_all:
  assumes "gs = buildGroups (buildWatcher env c)"
  shows "(\<forall>g\<in>set gs. 0 < pg_interval g)
    \<and> mset (concat (map pg_handlers gs)) = mset (map sub_handler (buildWatcher env c))
    \<and> (\<forall>g\<in>set gs. \<forall>r. PollRepo r \<in> set (pg_handlers g) \<longrightarrow>
         r \<in> set (cfg_repos c) \<and> (repo_trigger_mode r = TriggerModePoll \<or> repo_trigger_mode r = TriggerModeHybrid)
         \<and> pg_url g = repo_url r \<and> pg_branch g = repo_branch r)
    \<and> (\<forall>r\<in>set (cfg_repos c). repo_trigger_mode r = TriggerModePoll \<or> repo_trigger_mode r = TriggerModeHybrid \<longrightarrow>
         (\<exists>g\<in>set gs. PollRepo r \<in> set (pg_handlers g)))
    \<and> (env_source env = SourceGit \<and> env_config_repo_mode env \<noteq> ''webhook'' \<longrightarrow>
         (\<exists>g gs' hs. gs = g # gs' \<and> pg_handlers g = PollConfig # hs
            \<and> pg_url g = env_config_repo_url env \<and> pg_branch g = env_config_repo_branch env))"
proof -
  let ?s = "buildWatcher env c" and ?key = "\<lambda>g. (pg_url g, pg_branch g)"
  note b = buildGroups_spec [OF buildWatcher_positive, of env c]
  have keys: "map ?key gs = firsts (map subKey ?s)" using b assms by simp
  have hs: "pg_handlers g = map sub_handler (filter (\<lambda>s. subKey s = ?key g) ?s)" if "g \<in> set gs" for g
    using b that assms by blast
  have iv: "0 < pg_interval g" if g: "g \<in> set gs" for g
  proof -
    let ?S = "{s \<in> set ?s. subKey s = ?key g}"
    have "?key g \<in> set (map ?key gs)" using g by auto
    then have "?S \<noteq> {}" unfolding keys by auto
    then have "Min (sub_interval ` ?S) \<in> sub_interval ` ?S" by (intro Min_in) auto
    moreover have "pg_interval g = Min (sub_interval ` ?S)" using b g assms by blast
    ultimately show ?thesis using buildWatcher_positive [of env c] by auto
  qed
  have cat: "concat (map pg_handlers gs)
      = map sub_handler (concat (map (\<lambda>k. filter (\<lambda>s. subKey s = k) ?s) (firsts (map subKey ?s))))"
    unfolding keys [symmetric] map_concat map_map using hs by (auto intro!: arg_cong [of _ _ concat])
  have ms: "mset (concat (map pg_handlers gs)) = mset (map sub_handler ?s)"
    unfolding cat mset_map by (subst mset_groups) auto
  have rp: "r \<in> set (cfg_repos c) \<and> (repo_trigger_mode r = TriggerModePoll \<or> repo_trigger_mode r = TriggerModeHybrid)
         \<and> pg_url g = repo_url r \<and> pg_branch g = repo_branch r"
    if "g \<in> set gs" "PollRepo r \<in> set (pg_handlers g)" for g r
    using that(2) buildWatcher_repo [of _ env c r] unfolding hs [OF that(1)] by force
  have ex: "\<exists>g\<in>set gs. PollRepo r \<in> set (pg_handlers g)"
    if "r \<in> set (cfg_repos c)" "repo_trigger_mode r = TriggerModePoll \<or> repo_trigger_mode r = TriggerModeHybrid" for r
  proof -
    have "PollRepo r \<in> set (map sub_handler ?s)" using buildWatcher_has [OF that, of env] by simp
    then have "PollRepo r \<in> set (concat (map pg_handlers gs))" by (metis ms set_mset_mset)
    then show ?thesis by auto
  qed
  have hd: "\<exists>g gs' hs. gs = g # gs' \<and> pg_handlers g = PollConfig # hs
            \<and> pg_url g = env_config_repo_url env \<and> pg_branch g = env_config_repo_branch env"
    if git: "env_source env = SourceGit \<and> env_config_repo_mode env \<noteq> ''webhook''"
  proof -
    obtain s ss where s: "?s = s # ss" "sub_handler s = PollConfig"
      "subKey s = (env_config_repo_url env, env_config_repo_branch env)"
      using git by (simp add: buildWatcher_def Let_def subKey_def)
    obtain g gs' where g: "gs = g # gs'" "?key g = subKey s" using keys s(1) by (cases gs) auto
    have "pg_handlers g = PollConfig # map sub_handler (filter (\<lambda>s. subKey s = ?key g) ss)"
      using hs [of g] g s by simp
    then show ?thesis using g s(3) by auto
  qed
  show ?thesis using iv ms rp ex hd by blast
qed

lemma watcher_polls_all_witness:
  "\<exists>g\<in>set (buildGroups (buildWatcher demoEnv demoConfig)). PollRepo demoRepo \<in> set (pg_handlers g)"
  using watcher_polls_all [OF HOL.refl, of demoEnv demoConfig, THEN conjunct2, THEN conjunct2, THEN conjunct2, THEN conjunct1]
  by (simp add: demoConfig_def demoRepo_def)

section \<open>One watcher at a time\<close>

lemma watcherStart_one: "mw_running s = {} \<Longrightarrow> mw_running (watcherStart i s) = {i} \<and> mw_instance (watcherStart i s) = Some i"
  by (simp add: watcherStart_def)

lemma watcherRestart_one:
  assumes "mw_instance s = Some old" "mw_running s = {old}" "i \<noteq> old"
  shows "mw_running (watcherRestart i s) = {i} \<and> mw_instance (watcherRestart i s) = Some i"
  using assms by (auto simp: watcherRestart_def)

lemma watcherStop_none: "\<lbrakk>mw_instance s = Some i; mw_running s = {i}\<rbrakk> \<Longrightarrow> mw_running (watcherStop s) = {}"
  by (simp add: watcherStop_def)

text \<open>A reload that comes after the stop at shutdown starts a watcher that nothing stops.\<close>

lemma watcherRestart_after_stop:
  assumes "mw_instance s = Some old" "mw_running s = {old}" "i \<noteq> old"
  shows "mw_running (watcherRestart i (watcherStop s)) = {i}"
  using assms by (auto simp: watcherRestart_def watcherStop_def)

section \<open>Refresh covers every target\<close>

end
