(* ===== verification/Api.thy ===== *)
theory Api
  imports Daemon
begin

text \<open>
  The administration API and its client (\<open>internal/api\<close>, \<open>internal/client\<close>): the routes, the query of a
  request, the handlers with their statuses, and the requests and answers of the client. HTTP itself
  and JSON are the library's: a request arrives with its path and raw query, a body as it was written.
\<close>

section \<open>Queries\<close>

text \<open>\<open>url.QueryUnescape\<close> and \<open>url.ParseQuery\<close>: pairs with a bad escape or a semicolon are left out.\<close>

definition hexDigit :: "char \<Rightarrow> nat option" where
  "hexDigit c =
     (let n = byteVal c in
      if 48 \<le> n \<and> n \<le> 57 then Some (n - 48)
      else if 97 \<le> n \<and> n \<le> 102 then Some (n - 87)
      else if 65 \<le> n \<and> n \<le> 70 then Some (n - 55) else None)"

fun queryUnescape :: "gostring \<Rightarrow> gostring option" where
  "queryUnescape [] = Some []"
| "queryUnescape (c # cs) =
     (if c = CHR ''%'' then
        (case cs of
           h # l # rest \<Rightarrow>
             (case (hexDigit h, hexDigit l) of
                (Some a, Some b) \<Rightarrow> map_option (\<lambda>r. char_of (16 * a + b) # r) (queryUnescape rest)
              | _ \<Rightarrow> None)
         | _ \<Rightarrow> None)
      else map_option (\<lambda>r. (if c = CHR ''+'' then CHR '' '' else c) # r) (queryUnescape cs))"

definition queryPair :: "gostring \<Rightarrow> (gostring \<times> gostring) option" where
  "queryPair part =
     (if part = [] \<or> CHR '';'' \<in> set part then None
      else (case (case strCut ''='' part of None \<Rightarrow> (part, []) | Some (a, b) \<Rightarrow> (a, b)) of
              (k, v) \<Rightarrow>
                (case (queryUnescape k, queryUnescape v) of
                   (Some k', Some v') \<Rightarrow> Some (k', v')
                 | _ \<Rightarrow> None)))"

definition parseQuery :: "gostring \<Rightarrow> (gostring \<times> gostring) list" where
  "parseQuery q = List.map_filter queryPair (splitOn (CHR ''&'') q)"

definition queryGet :: "gostring \<Rightarrow> gostring \<Rightarrow> gostring" where
  "queryGet q k = (case map_of (parseQuery q) k of None \<Rightarrow> [] | Some v \<Rightarrow> v)"

section \<open>The server\<close>

record api_request =
  rq_method :: gostring
  rq_path :: gostring
  rq_query :: gostring

datatype api_body =
    HealthBody gostring gostring
  | DeploymentsBody "deployment list"
  | RunsBody "deployment list"
  | LogBody gostring
  | RefreshBody "refresh_host list"
  | ProbeBody "probe_result list"
  | ReloadBody gostring
  | DeployBody "gostring list"
  | ErrorBody gostring

record api_response =
  as_status :: nat
  as_body :: api_body

text \<open>What the server is given; a reload, refresh, probe or deployment may be missing.\<close>

record 'w api_config =
  ac_version :: gostring
  ac_uptime :: gostring
  ac_data_path :: gostring
  ac_runs_dir :: gostring
  ac_disk :: "'w \<Rightarrow> disk"
  ac_open :: "gostring \<Rightarrow> 'w \<Rightarrow> log_open"
  ac_store_error :: "store_error \<Rightarrow> gostring"
  ac_list_errors :: "list_error list \<Rightarrow> gostring"
  ac_reload :: "('w \<Rightarrow> goerror \<times> 'w) option"
  ac_refresh :: "('w \<Rightarrow> refresh_host list \<times> 'w) option"
  ac_probe :: "('w \<Rightarrow> probe_result list \<times> 'w) option"
  ac_deploy :: "(gostring \<Rightarrow> gostring \<Rightarrow> 'w \<Rightarrow> (gostring + gostring list) \<times> 'w) option"

abbreviation reply :: "nat \<Rightarrow> api_body \<Rightarrow> api_response" where
  "reply status body \<equiv> \<lparr>as_status = status, as_body = body\<rparr>"

definition handleHealth :: "'w api_config \<Rightarrow> api_response" where
  "handleHealth ac = reply 200 (HealthBody (ac_version ac) (ac_uptime ac))"

definition handleDeployments :: "'w api_config \<Rightarrow> 'w \<Rightarrow> api_response" where
  "handleDeployments ac w =
     (case listLatestDeployments (ac_data_path ac) (ac_disk ac w) of
        Inl e \<Rightarrow> reply 500 (ErrorBody (''read deployments: '' @ ac_store_error ac e))
      | Inr ds \<Rightarrow> reply 200 (DeploymentsBody ds))"

definition runsLimit :: "gostring \<Rightarrow> int" where
  "runsLimit l = (if l = [] then 50 else (case atoi l of None \<Rightarrow> 50 | Some v \<Rightarrow> if v > 0 then v else 50))"

definition handleRuns :: "'w api_config \<Rightarrow> gostring \<Rightarrow> 'w \<Rightarrow> api_response" where
  "handleRuns ac q w =
     (case listDeployments (ac_data_path ac) (queryGet q ''project'') (queryGet q ''host'')
             (runsLimit (queryGet q ''limit'')) (ac_disk ac w) of
        Inl e \<Rightarrow> reply 500 (ErrorBody (''read runs: '' @ ac_store_error ac e))
      | Inr (runs, errs) \<Rightarrow>
          if errs \<noteq> [] then reply 500 (ErrorBody (''read runs: '' @ ac_list_errors ac errs))
          else reply 200 (RunsBody runs))"

definition handleRunLog :: "'w api_config \<Rightarrow> gostring \<Rightarrow> 'w \<Rightarrow> api_response" where
  "handleRunLog ac i w =
     (if \<not> validRunID i then reply 400 (ErrorBody ''invalid run ID format'')
      else (case ac_open ac (logPathOf (ac_runs_dir ac) i) w of
              LogMissing \<Rightarrow> reply 404 (ErrorBody (''log not found: '' @ i))
            | LogBroken e \<Rightarrow> reply 500 (ErrorBody (''read log: '' @ e))
            | LogOpened content \<Rightarrow> reply 200 (LogBody content)))"

definition handleRefresh :: "'w api_config \<Rightarrow> 'w \<Rightarrow> api_response \<times> 'w" where
  "handleRefresh ac w =
     (case ac_refresh ac of
        None \<Rightarrow> (reply 503 (ErrorBody ''refresh not available''), w)
      | Some f \<Rightarrow> (case f w of (hs, w') \<Rightarrow> (reply 200 (RefreshBody hs), w')))"

definition handleProbe :: "'w api_config \<Rightarrow> 'w \<Rightarrow> api_response \<times> 'w" where
  "handleProbe ac w =
     (case ac_probe ac of
        None \<Rightarrow> (reply 503 (ErrorBody ''probe not available''), w)
      | Some f \<Rightarrow> (case f w of (hs, w') \<Rightarrow> (reply 200 (ProbeBody hs), w')))"

definition handleReload :: "'w api_config \<Rightarrow> 'w \<Rightarrow> api_response \<times> 'w" where
  "handleReload ac w =
     (case ac_reload ac of
        None \<Rightarrow> (reply 200 (ReloadBody ''config reload not available in this mode''), w)
      | Some f \<Rightarrow>
          (case f w of
             (Some e, w') \<Rightarrow> (reply 500 (ErrorBody e), w')
           | (None, w') \<Rightarrow> (reply 200 (ReloadBody ''config reloaded''), w')))"

definition handleDeploy :: "'w api_config \<Rightarrow> gostring \<Rightarrow> 'w \<Rightarrow> api_response \<times> 'w" where
  "handleDeploy ac q w =
     (case ac_deploy ac of
        None \<Rightarrow> (reply 503 (ErrorBody ''deploy not available''), w)
      | Some f \<Rightarrow>
          (let projectName = queryGet q ''project'' in
           if projectName = [] then (reply 400 (ErrorBody ''project is required''), w)
           else (case f projectName (queryGet q ''host'') w of
                   (Inl e, w') \<Rightarrow> (reply 400 (ErrorBody e), w')
                 | (Inr ts, w') \<Rightarrow> (reply 202 (DeployBody ts), w'))))"

text \<open>The routes of \<open>New\<close>; a GET pattern also takes HEAD, and the id of a run is one path segment.\<close>

datatype api_route = RHealth | RDeployments | RRuns | RRunLog gostring | RRefresh | RProbe | RReload | RDeploy

definition runLogRoute :: "gostring \<Rightarrow> gostring option" where
  "runLogRoute path =
     (if hasPrefix path ''/api/v1/runs/'' then
        (case strCut ''/'' (trimPrefix path ''/api/v1/runs/'') of
           None \<Rightarrow> None
         | Some (i, tail) \<Rightarrow> if i \<noteq> [] \<and> tail = ''log'' then Some i else None)
      else None)"

definition routeOf :: "gostring \<Rightarrow> (gostring \<times> api_route) option" where
  "routeOf path =
     (if path = ''/api/v1/health'' then Some (''GET'', RHealth)
      else if path = ''/api/v1/deployments'' then Some (''GET'', RDeployments)
      else if path = ''/api/v1/runs'' then Some (''GET'', RRuns)
      else if path = ''/api/v1/refresh'' then Some (''POST'', RRefresh)
      else if path = ''/api/v1/probe'' then Some (''POST'', RProbe)
      else if path = ''/api/v1/reload'' then Some (''POST'', RReload)
      else if path = ''/api/v1/deploy'' then Some (''POST'', RDeploy)
      else map_option (\<lambda>i. (''GET'', RRunLog i)) (runLogRoute path))"

definition serveApi :: "'w api_config \<Rightarrow> api_request \<Rightarrow> 'w \<Rightarrow> api_response \<times> 'w" where
  "serveApi ac rq w =
     (case routeOf (rq_path rq) of
        None \<Rightarrow> (reply 404 (ErrorBody ''404 page not found''), w)
      | Some (m, route) \<Rightarrow>
          if rq_method rq \<noteq> m \<and> \<not> (m = ''GET'' \<and> rq_method rq = ''HEAD'')
          then (reply 405 (ErrorBody ''Method Not Allowed''), w)
          else (case route of
                  RHealth \<Rightarrow> (handleHealth ac, w)
                | RDeployments \<Rightarrow> (handleDeployments ac w, w)
                | RRuns \<Rightarrow> (handleRuns ac (rq_query rq) w, w)
                | RRunLog i \<Rightarrow> (handleRunLog ac i w, w)
                | RRefresh \<Rightarrow> handleRefresh ac w
                | RProbe \<Rightarrow> handleProbe ac w
                | RReload \<Rightarrow> handleReload ac w
                | RDeploy \<Rightarrow> handleDeploy ac (rq_query rq) w))"

section \<open>The client\<close>

text \<open>A path with its query, as the client writes it, cut at the first question mark.\<close>

definition requestTo :: "gostring \<Rightarrow> gostring \<Rightarrow> api_request" where
  "requestTo httpMethod target =
     (case strCut ''?'' target of
        None \<Rightarrow> \<lparr>rq_method = httpMethod, rq_path = target, rq_query = []\<rparr>
      | Some (p, q) \<Rightarrow> \<lparr>rq_method = httpMethod, rq_path = p, rq_query = q\<rparr>)"

definition deployRequest :: "gostring \<Rightarrow> gostring \<Rightarrow> api_request" where
  "deployRequest projectName hostName =
     requestTo ''POST'' (''/api/v1/deploy?project='' @ projectName
       @ (if hostName \<noteq> [] then ''&host='' @ hostName else []))"

definition runsParams :: "gostring \<Rightarrow> gostring \<Rightarrow> int \<Rightarrow> gostring list" where
  "runsParams projectName hostName limit =
     (if projectName \<noteq> [] then [''project='' @ projectName] else [])
     @ (if hostName \<noteq> [] then [''host='' @ hostName] else [])
     @ (if limit > 0 then [''limit='' @ itoa limit] else [])"

definition runsRequest :: "gostring \<Rightarrow> gostring \<Rightarrow> int \<Rightarrow> api_request" where
  "runsRequest projectName hostName limit =
     (let params = runsParams projectName hostName limit in
      requestTo ''GET'' (''/api/v1/runs'' @ (if params \<noteq> [] then ''?'' @ strJoin ''&'' params else [])))"

definition runLogRequest :: "gostring \<Rightarrow> api_request" where
  "runLogRequest i = requestTo ''GET'' (''/api/v1/runs/'' @ i @ ''/log'')"

text \<open>
  The status of an answer as Go's server writes it and its client reads it: the number and the reason
  of \<open>http.StatusText\<close>.
\<close>

definition statusTexts :: "(nat \<times> gostring) list" where
  "statusTexts =
     [(200, ''OK''), (201, ''Created''), (202, ''Accepted''), (203, ''Non-Authoritative Information''),
      (204, ''No Content''), (205, ''Reset Content''), (206, ''Partial Content''), (207, ''Multi-Status''),
      (208, ''Already Reported''), (226, ''IM Used''), (300, ''Multiple Choices''),
      (301, ''Moved Permanently''), (302, ''Found''), (303, ''See Other''), (304, ''Not Modified''),
      (305, ''Use Proxy''), (307, ''Temporary Redirect''), (308, ''Permanent Redirect''),
      (400, ''Bad Request''), (401, ''Unauthorized''), (402, ''Payment Required''), (403, ''Forbidden''),
      (404, ''Not Found''), (405, ''Method Not Allowed''), (406, ''Not Acceptable''),
      (407, ''Proxy Authentication Required''), (408, ''Request Timeout''), (409, ''Conflict''),
      (410, ''Gone''), (411, ''Length Required''), (412, ''Precondition Failed''),
      (413, ''Request Entity Too Large''), (414, ''Request URI Too Long''), (415, ''Unsupported Media Type''),
      (416, ''Requested Range Not Satisfiable''), (417, ''Expectation Failed''),
      (418, ''I'' @ [CHR 0x27] @ ''m a teapot''), (421, ''Misdirected Request''),
      (422, ''Unprocessable Entity''), (423, ''Locked''), (424, ''Failed Dependency''), (425, ''Too Early''),
      (426, ''Upgrade Required''), (428, ''Precondition Required''), (429, ''Too Many Requests''),
      (431, ''Request Header Fields Too Large''), (451, ''Unavailable For Legal Reasons''),
      (500, ''Internal Server Error''), (501, ''Not Implemented''), (502, ''Bad Gateway''),
      (503, ''Service Unavailable''), (504, ''Gateway Timeout''), (505, ''HTTP Version Not Supported''),
      (506, ''Variant Also Negotiates''), (507, ''Insufficient Storage''), (508, ''Loop Detected''),
      (510, ''Not Extended''), (511, ''Network Authentication Required'')]"

definition httpStatus :: "nat \<Rightarrow> gostring" where
  "httpStatus status = itoaNat status @ '' '' @
     (case map_of statusTexts status of Some reason \<Rightarrow> reason | None \<Rightarrow> ''status code '' @ itoaNat status)"

text \<open>The answer as the client reads it: the server's own error, the status, or the body.\<close>

definition decodeResponse :: "api_response \<Rightarrow> gostring + api_body" where
  "decodeResponse r =
     (if as_status r \<ge> 400
      then Inl (case as_body r of
                  ErrorBody e \<Rightarrow> if e \<noteq> [] then e else ''server returned '' @ httpStatus (as_status r)
                | _ \<Rightarrow> ''server returned '' @ httpStatus (as_status r))
      else Inr (as_body r))"

definition clientDeploy :: "'w api_config \<Rightarrow> gostring \<Rightarrow> gostring \<Rightarrow> 'w \<Rightarrow> (gostring + api_body) \<times> 'w" where
  "clientDeploy ac projectName hostName w =
     (case serveApi ac (deployRequest projectName hostName) w of (r, w') \<Rightarrow> (decodeResponse r, w'))"

definition clientRuns :: "'w api_config \<Rightarrow> gostring \<Rightarrow> gostring \<Rightarrow> int \<Rightarrow> 'w \<Rightarrow> gostring + api_body" where
  "clientRuns ac projectName hostName limit w =
     decodeResponse (fst (serveApi ac (runsRequest projectName hostName limit) w))"

definition clientRunLog :: "'w api_config \<Rightarrow> gostring \<Rightarrow> 'w \<Rightarrow> gostring + gostring" where
  "clientRunLog ac i w =
     (case fst (serveApi ac (runLogRequest i) w) of
        r \<Rightarrow> (if as_status r = 404 then Inl (''run log not found: '' @ i)
              else if as_status r \<noteq> 200 then Inl (''server error: '' @ httpStatus (as_status r))
              else (case as_body r of LogBody c \<Rightarrow> Inr c | _ \<Rightarrow> Inr [])))"

section \<open>The client reaches the server\<close>

text \<open>The bytes that a URL carries as they are.\<close>

definition urlByte :: "char \<Rightarrow> bool" where
  "urlByte c \<longleftrightarrow>
     (let n = byteVal c in 48 \<le> n \<and> n \<le> 57 \<or> 65 \<le> n \<and> n \<le> 90 \<or> 97 \<le> n \<and> n \<le> 122)
     \<or> c \<in> {CHR ''-'', CHR ''_'', CHR ''.'', CHR ''~''}"

lemma urlByte_special [simp]:
  "\<not> urlByte (CHR ''%'')" "\<not> urlByte (CHR ''+'')" "\<not> urlByte (CHR ''&'')" "\<not> urlByte (CHR '';'')"
  "\<not> urlByte (CHR ''='')" "\<not> urlByte (CHR ''?'')"
  by (simp_all add: urlByte_def byteVal_def)

lemma urlPlain_not: "\<lbrakk>list_all urlByte s; \<not> urlByte c\<rbrakk> \<Longrightarrow> c \<notin> set s"
  by (auto simp: list_all_iff)

lemma queryUnescape_plain: "list_all urlByte s \<Longrightarrow> queryUnescape s = Some s"
  by (induction s) auto

lemma queryPair_plain:
  assumes "list_all urlByte k" "list_all urlByte v"
  shows "queryPair (k @ ''='' @ v) = Some (k, v)"
proof -
  have "strCut ''='' (k @ CHR ''='' # v) = Some (k, v)" using assms(1) by (simp add: strCut_char urlPlain_not)
  moreover have "CHR '';'' \<notin> set (k @ ''='' @ v)" using assms by (simp add: urlPlain_not)
  ultimately show ?thesis using assms by (simp add: queryPair_def queryUnescape_plain)
qed

definition plainParam :: "gostring \<times> gostring \<Rightarrow> bool" where
  "plainParam kv \<longleftrightarrow> list_all urlByte (fst kv) \<and> list_all urlByte (snd kv)"

lemma parseQuery_plain:
  assumes "list_all plainParam ps" "ps \<noteq> []"
  shows "parseQuery (strJoin ''&'' (map (\<lambda>(k, v). k @ ''='' @ v) ps)) = ps"
proof -
  have amp: "plainParam (k, v) \<Longrightarrow> CHR ''&'' \<notin> set k \<and> CHR ''&'' \<notin> set v" for k v
    by (simp add: plainParam_def urlPlain_not)
  have "splitOn (CHR ''&'') (strJoin ''&'' (map (\<lambda>(k, v). k @ ''='' @ v) ps)) = map (\<lambda>(k, v). k @ ''='' @ v) ps"
    using assms amp by (intro splitOn_strJoin) (auto simp: list_all_iff)
  moreover have "List.map_filter queryPair (map (\<lambda>(k, v). k @ ''='' @ v) ps) = ps"
    using assms(1) by (induction ps) (auto simp: map_filter_simps queryPair_plain [simplified] plainParam_def)
  ultimately show ?thesis by (simp add: parseQuery_def)
qed

lemma requestTo_query:
  assumes "CHR ''?'' \<notin> set p"
  shows "requestTo m (p @ ''?'' @ q) = \<lparr>rq_method = m, rq_path = p, rq_query = q\<rparr>"
  using strCut_char [OF assms, of q] by (simp add: requestTo_def)

lemma deployRequest_plain:
  assumes "list_all urlByte p" "list_all urlByte h"
  shows "\<exists>q. deployRequest p h = \<lparr>rq_method = ''POST'', rq_path = ''/api/v1/deploy'', rq_query = q\<rparr>
     \<and> queryGet q ''project'' = p \<and> queryGet q ''host'' = h"
proof -
  let ?ps = "(''project'', p) # (if h \<noteq> [] then [(''host'', h)] else [])"
  let ?q = "strJoin ''&'' (map (\<lambda>(k, v). k @ ''='' @ v) ?ps)"
  have "list_all plainParam ?ps" using assms by (simp add: plainParam_def) code_simp
  then have "parseQuery ?q = ?ps" by (intro parseQuery_plain) simp_all
  then have "queryGet ?q ''project'' = p \<and> queryGet ?q ''host'' = h" by (simp add: queryGet_def)
  moreover have "deployRequest p h = requestTo ''POST'' (''/api/v1/deploy'' @ ''?'' @ ?q)"
    by (simp add: deployRequest_def)
  moreover have "CHR ''?'' \<notin> set ''/api/v1/deploy''" by simp
  ultimately show ?thesis using requestTo_query by metis
qed

lemma itoa_plain: "0 < n \<Longrightarrow> list_all urlByte (itoa n)"
  using itoaNat_digits [of "nat n"]
  by (simp add: itoa_def list_all_iff isDigit_def urlByte_def byteVal_def)

lemma runsRequest_plain:
  assumes "list_all urlByte p" "list_all urlByte h" "isInt64 n"
  shows "\<exists>q. runsRequest p h n = \<lparr>rq_method = ''GET'', rq_path = ''/api/v1/runs'', rq_query = q\<rparr>
     \<and> queryGet q ''project'' = p \<and> queryGet q ''host'' = h
     \<and> runsLimit (queryGet q ''limit'') = (if n > 0 then n else 50)"
proof -
  let ?ps = "(if p \<noteq> [] then [(''project'', p)] else []) @ (if h \<noteq> [] then [(''host'', h)] else [])
    @ (if n > 0 then [(''limit'', itoa n)] else [])"
  let ?q = "strJoin ''&'' (map (\<lambda>(k, v). k @ ''='' @ v) ?ps)"
  have params: "runsParams p h n = map (\<lambda>(k, v). k @ ''='' @ v) ?ps" by (simp add: runsParams_def)
  have keys: "list_all urlByte ''project''" "list_all urlByte ''host''" "list_all urlByte ''limit''" by code_simp+
  have pl: "list_all plainParam ?ps" using assms(1,2) keys itoa_plain [of n] by (auto simp: plainParam_def)
  show ?thesis
  proof (cases "?ps = []")
    case True
    then have e: "p = []" "h = []" "\<not> n > 0" by (auto split: if_splits)
    have "strCut ''?'' ''/api/v1/runs'' = None" by code_simp
    then have "runsRequest p h n = \<lparr>rq_method = ''GET'', rq_path = ''/api/v1/runs'', rq_query = []\<rparr>"
      using e by (simp add: runsRequest_def runsParams_def requestTo_def)
    moreover have "queryGet [] k = []" for k
      by (simp add: queryGet_def parseQuery_def queryPair_def map_filter_simps)
    ultimately show ?thesis using e by (simp add: runsLimit_def)
  next
    case False
    have "parseQuery ?q = ?ps" by (rule parseQuery_plain [OF pl False])
    then have g: "queryGet ?q ''project'' = p" "queryGet ?q ''host'' = h"
      "queryGet ?q ''limit'' = (if n > 0 then itoa n else [])"
      by (simp_all add: queryGet_def)
    have l: "runsLimit (queryGet ?q ''limit'') = (if n > 0 then n else 50)"
      unfolding g(3) using assms(3) by (simp add: runsLimit_def atoi_itoa itoa_not_Nil)
    have m: "CHR ''?'' \<notin> set ''/api/v1/runs''" by simp
    have r: "runsRequest p h n = requestTo ''GET'' (''/api/v1/runs'' @ ''?'' @ ?q)"
      unfolding runsRequest_def params Let_def using False
      by (simp only: map_is_Nil_conv simp_thms if_True)
    show ?thesis
      by (rule exI [of _ ?q]) (intro conjI r [unfolded requestTo_query [OF m]] g(1,2) l)
  qed
qed

text \<open>
  The client asks what it is told to: for names of unreserved bytes, a deployment asked for through the
  client is the server's deployment of exactly that project and host, with its targets or its error,
  and the runs listed are those of the project and host up to the limit, 50 without one.
\<close>

theorem client_reaches_server:
  assumes "list_all urlByte p" and "list_all urlByte h" and "isInt64 n" and "p \<noteq> []" and "ac_deploy ac = Some f"
  shows "clientDeploy ac p h w =
      (case f p h w of
         (Inl e, w') \<Rightarrow> (Inl (if e \<noteq> [] then e else ''server returned '' @ httpStatus 400), w')
       | (Inr ts, w') \<Rightarrow> (Inr (DeployBody ts), w'))
    \<and> (\<forall>runs. listDeployments (ac_data_path ac) p h (if n > 0 then n else 50) (ac_disk ac w) = Inr (runs, []) \<longrightarrow>
        clientRuns ac p h n w = Inr (RunsBody runs))"
proof -
  obtain q where q: "deployRequest p h = \<lparr>rq_method = ''POST'', rq_path = ''/api/v1/deploy'', rq_query = q\<rparr>"
    "queryGet q ''project'' = p" "queryGet q ''host'' = h"
    using deployRequest_plain [OF assms(1,2)] by (elim exE conjE)
  obtain q' where q': "runsRequest p h n = \<lparr>rq_method = ''GET'', rq_path = ''/api/v1/runs'', rq_query = q'\<rparr>"
    "queryGet q' ''project'' = p" "queryGet q' ''host'' = h" "runsLimit (queryGet q' ''limit'') = (if n > 0 then n else 50)"
    using runsRequest_plain [OF assms(1,2,3)] by (elim exE conjE)
  have i: "itoaNat 400 = ''400''" by code_simp
  have d: "serveApi ac \<lparr>rq_method = ''POST'', rq_path = ''/api/v1/deploy'', rq_query = q\<rparr> w = handleDeploy ac q w"
    by (simp add: serveApi_def routeOf_def)
  have r: "serveApi ac \<lparr>rq_method = ''GET'', rq_path = ''/api/v1/runs'', rq_query = q'\<rparr> w = (handleRuns ac q' w, w)"
    by (simp add: serveApi_def routeOf_def)
  show ?thesis
    unfolding clientDeploy_def clientRuns_def q(1) q'(1) d r
    using assms(4,5) q(2,3) q'(2,3,4) i
    by (cases "f p h w"; cases "fst (f p h w)") (simp_all add: handleDeploy_def handleRuns_def decodeResponse_def)
qed

definition demoApi :: "unit api_config" where
  "demoApi = \<lparr>ac_version = ''1'', ac_uptime = ''1s'', ac_data_path = ''/data'', ac_runs_dir = ''/data/runs'',
     ac_disk = (\<lambda>w. emptyDisk), ac_open = (\<lambda>p w. LogMissing), ac_store_error = (\<lambda>e. ''store''),
     ac_list_errors = (\<lambda>e. ''files''), ac_reload = None, ac_refresh = None, ac_probe = None,
     ac_deploy = Some (\<lambda>p h w. (Inr [p @ ''/'' @ h], w))\<rparr>"

lemma client_reaches_server_witness:
  "clientDeploy demoApi ''web'' ''h1'' () = (Inr (DeployBody [''web/h1'']), ())"
proof -
  have a: "list_all urlByte ''web''" "list_all urlByte ''h1''" "isInt64 0" "''web'' \<noteq> []" by code_simp+
  have f: "ac_deploy demoApi = Some (\<lambda>p h w. (Inr [p @ ''/'' @ h], w))" by (simp add: demoApi_def)
  show ?thesis using client_reaches_server [OF a f, of "()"] by simp
qed

text \<open>Names with other bytes are not escaped: the text after an ampersand is read as a parameter.\<close>

lemma client_unescaped:
  "clientDeploy demoApi ''web&host=h2'' [] () = (Inr (DeployBody [''web/h2'']), ())"
  by code_simp

end
