(* ===== verification/Logger.thy ===== *)
theory Logger
  imports Go_Strings
begin

text \<open>
  Structured logging (\<open>internal/logger\<close>): the level and the format chosen by the environment, and the
  pretty handler. A time is given as the text of its format, an attribute as its key and its value's text;
  the JSON and text handlers are the library's.
\<close>

section \<open>Levels\<close>

datatype slog_level = Level (level_int: int)

instantiation slog_level :: linorder
begin

definition less_eq_slog_level :: "slog_level \<Rightarrow> slog_level \<Rightarrow> bool" where
  "less_eq_slog_level a b \<longleftrightarrow> level_int a \<le> level_int b"

definition less_slog_level :: "slog_level \<Rightarrow> slog_level \<Rightarrow> bool" where
  "less_slog_level a b \<longleftrightarrow> level_int a < level_int b"

instance
  by standard (auto simp: less_eq_slog_level_def less_slog_level_def slog_level.expand)

end

definition LevelDebug :: slog_level where "LevelDebug = Level (-4)"

definition LevelInfo :: slog_level where "LevelInfo = Level 0"

definition LevelWarn :: slog_level where "LevelWarn = Level 4"

definition LevelError :: slog_level where "LevelError = Level 8"

lemmas level_defs = LevelDebug_def LevelInfo_def LevelWarn_def LevelError_def less_eq_slog_level_def

definition levelOf :: "gostring \<Rightarrow> slog_level" where
  "levelOf level =
     (let l = toLower level in
      if l = ''debug'' then LevelDebug
      else if l = ''warn'' then LevelWarn
      else if l = ''error'' then LevelError else LevelInfo)"

section \<open>Handlers\<close>

text \<open>None stands for the zero attribute.\<close>

type_synonym log_attr = "(gostring \<times> gostring) option"

record pretty_handler =
  ph_min_level :: slog_level
  ph_attributes :: "log_attr list"
  ph_color :: bool

datatype log_handler = JsonHandler slog_level | TextHandler slog_level | PrettyHandler pretty_handler

definition newLogger :: "gostring \<Rightarrow> gostring \<Rightarrow> bool \<Rightarrow> log_handler" where
  "newLogger level format colorEnabled =
     (let l = levelOf level; f = toLower format in
      if f = ''json'' then JsonHandler l
      else if f = ''text'' then TextHandler l
      else PrettyHandler \<lparr>ph_min_level = l, ph_attributes = [], ph_color = colorEnabled\<rparr>)"

definition handlerEnabled :: "pretty_handler \<Rightarrow> slog_level \<Rightarrow> bool" where
  "handlerEnabled ph level \<longleftrightarrow> level \<ge> ph_min_level ph"

definition withAttrs :: "log_attr list \<Rightarrow> pretty_handler \<Rightarrow> pretty_handler" where
  "withAttrs attrs ph = ph\<lparr>ph_attributes := ph_attributes ph @ attrs\<rparr>"

definition escapeSeq :: "gostring \<Rightarrow> gostring" where
  "escapeSeq code = [CHR 0x1B] @ ''['' @ code @ ''m''"

definition colorReset :: gostring where "colorReset = escapeSeq ''0''"

definition levelLabel :: "slog_level \<Rightarrow> gostring \<times> gostring" where
  "levelLabel level =
     (if level \<ge> LevelError then (''ERROR'', escapeSeq ''31'')
      else if level \<ge> LevelWarn then (''WARN'', escapeSeq ''33'')
      else if level \<ge> LevelInfo then (''INFO'', escapeSeq ''36'')
      else (''DEBUG'', escapeSeq ''90''))"

definition padTo :: "nat \<Rightarrow> gostring \<Rightarrow> gostring" where
  "padTo n s = s @ replicate (n - length s) (CHR '' '')"

text \<open>One attribute; the zero attribute is left out.\<close>

definition attrText :: "bool \<Rightarrow> log_attr \<Rightarrow> gostring" where
  "attrText color kv =
     (case kv of
        None \<Rightarrow> []
      | Some (k, v) \<Rightarrow>
          if color then ''  '' @ escapeSeq ''34'' @ k @ colorReset @ ''='' @ v
          else ''  '' @ k @ ''='' @ v)"

definition prettyLine :: "pretty_handler \<Rightarrow> gostring \<Rightarrow> slog_level \<Rightarrow> gostring \<Rightarrow> log_attr list \<Rightarrow> gostring" where
  "prettyLine ph time level msg attrs =
     (case levelLabel level of
        (label, color) \<Rightarrow>
          (let bracketed = ''['' @ label @ '']'' in
           (if ph_color ph
            then escapeSeq ''90'' @ time @ colorReset @ '' '' @ color @ padTo 7 bracketed @ colorReset @ ''  '' @ msg
            else time @ '' '' @ padTo 7 bracketed @ ''  '' @ msg)
           @ concat (map (attrText (ph_color ph)) (ph_attributes ph @ attrs)) @ [CHR 0x0A]))"

section \<open>Laws\<close>

lemma levels_ordered: "LevelDebug < LevelInfo" "LevelInfo < LevelWarn" "LevelWarn < LevelError"
  by (simp_all add: level_defs less_slog_level_def)

text \<open>A handler that lets a level through lets every higher one through; the label never falls.\<close>

lemma handlerEnabled_mono: "\<lbrakk>handlerEnabled ph l; l \<le> m\<rbrakk> \<Longrightarrow> handlerEnabled ph m"
  unfolding handlerEnabled_def by (rule order.trans)

text \<open>Attributes given one by one and together are written alike.\<close>

lemma withAttrs_append: "withAttrs b (withAttrs a ph) = withAttrs (a @ b) ph"
  by (simp add: withAttrs_def)

lemma prettyLine_withAttrs: "prettyLine (withAttrs a ph) t l msg attrs = prettyLine ph t l msg (a @ attrs)"
  by (simp add: prettyLine_def withAttrs_def split: prod.split)

end
