(* ===== verification/Cli.thy ===== *)
theory Cli
  imports Api Logger
begin

text \<open>
  The command line interface (\<open>internal/cli\<close>): the tables and reports it prints, the checks of the
  configuration and of the environment file, the authorization of hosts, and the commands that drive
  systemd. A table is the list of its rows of cells, as given to the tab writer; dates are formatted by
  a parameter. The texts of the library's errors inside a message are left out.
\<close>

section \<open>Cells\<close>

definition shortCommit :: "gostring \<Rightarrow> gostring" where
  "shortCommit sha = (if length sha > 7 then take 7 sha else sha)"

definition minute :: gotime where "minute = 60 * second"

text \<open>The zero time is 0.\<close>

definition formatRelativeTime :: "(gotime \<Rightarrow> gostring) \<Rightarrow> gotime \<Rightarrow> gotime \<Rightarrow> gostring" where
  "formatRelativeTime formatDate now t =
     (if t = 0 then ''-''
      else let elapsed = now - t in
        if elapsed < 0 then ''just now''
        else if elapsed < minute then ''just now''
        else if elapsed < hour then itoa (elapsed div minute) @ ''m ago''
        else if elapsed < 24 * hour then itoa (elapsed div hour) @ ''h ago''
        else if elapsed < 7 * 24 * hour then itoa (elapsed div hour div 24) @ ''d ago''
        else formatDate t)"

definition formatStatus :: "deployment_status \<Rightarrow> gostring" where
  "formatStatus st =
     (if st = StatusSuccess then ''success''
      else if st = StatusFailed then ''failed''
      else if st = StatusRunning then ''running''
      else if st = StatusPending then ''pending'' else st)"

datatype cli_output = Lines "gostring list" | Table "gostring list list"

section \<open>Deployments\<close>

definition reportCell :: "deployment \<Rightarrow> gostring" where
  "reportCell dep =
     (let r = (if dep_report_status dep = [] \<and> dep_report_error dep \<noteq> [] then ''error'' else dep_report_status dep)
      in if r = [] then ''-'' else r)"

definition stateRow :: "(gotime \<Rightarrow> gostring) \<Rightarrow> gotime \<Rightarrow> bool \<Rightarrow> deployment \<Rightarrow> gostring list" where
  "stateRow formatDate now hasReporting dep =
     [dep_project dep, dep_host dep, formatStatus (dep_status dep), shortCommit (dep_commit_sha dep), dep_trigger_source dep]
     @ (if hasReporting then [reportCell dep] else [])
     @ [formatRelativeTime formatDate now (dep_started_at dep)]"

definition deploysStateTable :: "(gotime \<Rightarrow> gostring) \<Rightarrow> gotime \<Rightarrow> deployment list \<Rightarrow> cli_output" where
  "deploysStateTable formatDate now deps =
     (if deps = [] then
        Lines [''No deployments recorded yet.'',
               ''Trigger one by pushing to a tracked branch, or wait for the poller.'']
      else
        (let hasReporting = list_ex (\<lambda>dep. dep_report_token dep \<noteq> [] \<or> dep_report_status dep \<noteq> []) deps in
         Table ((if hasReporting
                 then [''PROJECT'', ''HOST'', ''STATUS'', ''COMMIT'', ''TRIGGER'', ''REPORT'', ''WHEN'']
                 else [''PROJECT'', ''HOST'', ''STATUS'', ''COMMIT'', ''TRIGGER'', ''WHEN''])
                # map (stateRow formatDate now hasReporting) deps)))"

definition historyTable :: "(gotime \<Rightarrow> gostring) \<Rightarrow> gotime \<Rightarrow> deployment list \<Rightarrow> cli_output" where
  "historyTable formatDate now runs =
     (if runs = [] then Lines [''No runs recorded yet.'']
      else Table ([''ID'', ''PROJECT'', ''HOST'', ''STATUS'', ''COMMIT'', ''TRIGGER'', ''WHEN'']
        # map (\<lambda>run. [dep_id run, dep_project run, dep_host run, formatStatus (dep_status run),
               shortCommit (dep_commit_sha run), dep_trigger_source run,
               formatRelativeTime formatDate now (dep_started_at run)]) runs))"

text \<open>The rows and the error lines of one host, and whether there was an error.\<close>

fun containerRows :: "gostring \<Rightarrow> refresh_project list \<Rightarrow> gostring list list \<times> gostring list" where
  "containerRows h [] = ([], [])"
| "containerRows h (p # ps) =
     (case containerRows h ps of
        (rows, errs) \<Rightarrow>
          if rp_error p \<noteq> [] then (rows, (''ERROR  '' @ rp_project p @ ''/'' @ h @ '': '' @ rp_error p) # errs)
          else if rp_services p = [] then ([rp_project p, h, ''(none)'', ''-'', ''not deployed''] # rows, errs)
          else (map (\<lambda>(svc, st, status). [rp_project p, h, svc, st, status]) (rp_services p) @ rows, errs))"

fun hostRows :: "refresh_host list \<Rightarrow> gostring list list \<times> gostring list" where
  "hostRows [] = ([], [])"
| "hostRows (h # hs) =
     (case hostRows hs of
        (rows, errs) \<Rightarrow>
          if rh_error h \<noteq> [] then (rows, (''ERROR  '' @ rh_host h @ '': '' @ rh_error h) # errs)
          else (case containerRows (rh_host h) (rh_projects h) of (r, e) \<Rightarrow> (r @ rows, e @ errs)))"

text \<open>Standard output, standard error and the error of the command.\<close>

definition deploysContainers :: "refresh_host list \<Rightarrow> cli_output \<times> gostring list \<times> goerror" where
  "deploysContainers hs =
     (if hs = [] then (Lines [''No hosts configured.''], [], None)
      else (case hostRows hs of
              (rows, errs) \<Rightarrow>
                (Table ([''PROJECT'', ''HOST'', ''SERVICE'', ''STATE'', ''STATUS''] # rows), errs,
                 if errs \<noteq> [] then Some ''one or more hosts could not be reached'' else None)))"

text \<open>A width of \<open>fmt\<close> counts runes.\<close>

definition padRunes :: "nat \<Rightarrow> gostring \<Rightarrow> gostring" where
  "padRunes n s = s @ replicate (n - length (runeChunks s)) (CHR '' '')"

definition printProbeResults :: "probe_result list \<Rightarrow> gostring list \<times> goerror" where
  "printProbeResults hs =
     (if hs = [] then ([''No hosts configured.''], None)
      else (let failed = length (filter (\<lambda>h. \<not> pb_ok h) hs) in
        (map (\<lambda>h. if pb_ok h then ''OK    '' @ padRunes 20 (pb_host h) @ ''  '' @ pb_address h
                  else ''FAIL  '' @ padRunes 20 (pb_host h) @ ''  '' @ pb_error h) hs,
         if failed > 0 then Some (itoaNat failed @ '' host(s) unreachable'') else None)))"

definition queuedLine :: "gostring list \<Rightarrow> gostring" where
  "queuedLine ts = ''Queued: '' @ strJoin '', '' ts"

definition exactArg :: "gostring \<Rightarrow> gostring \<Rightarrow> gostring \<Rightarrow> gostring list \<Rightarrow> goerror" where
  "exactArg name hint useLine args =
     (if args = [] then Some (''missing <'' @ name @ ''>'' @ newline @ ''  usage: '' @ useLine @ newline @ ''  '' @ hint)
      else if length args > 1
      then Some (''expected a single <'' @ name @ ''>, got '' @ itoaNat (length args) @ newline @ ''  usage: '' @ useLine)
      else None)"

section \<open>Checks\<close>

text \<open>The lines of a configuration report: errors, warnings, and the verdict.\<close>

datatype config_line = ErrorLine validation_issue | WarnLine validation_issue | InvalidLine nat | OkLine nat nat nat nat

definition loadAndReportConfig :: "parse_error + config \<Rightarrow> config_line list \<times> gostring + config_line list \<times> config" where
  "loadAndReportConfig loaded =
     (case loaded of
        Inl e \<Rightarrow> Inl ([], ''failed to load config'')
      | Inr c \<Rightarrow>
          (let errs = filter (\<lambda>i. issue_severity i = SeverityError) (validate c);
               warnings = filter (\<lambda>i. issue_severity i \<noteq> SeverityError) (validate c);
               out = map ErrorLine errs @ map WarnLine warnings
           in if errs \<noteq> [] then Inl (out @ [InvalidLine (length errs)], ''config validation failed'')
              else Inr (out @ [OkLine (length (cfg_hosts c)) (length (cfg_repos c)) (length (cfg_projects c))
                                 (length warnings)], c)))"

text \<open>
  The environment check: whether a file can be read by the service, with the error of looking. The
  fields with an error line, in order, and the error of the command.
\<close>

definition checkFile :: "(gostring \<Rightarrow> gostring + bool) \<Rightarrow> gostring \<Rightarrow> gostring \<Rightarrow> gostring list" where
  "checkFile canRead field path =
     (if path = [] then []
      else (case canRead path of Inl e \<Rightarrow> [field] | Inr readable \<Rightarrow> if readable then [] else [field]))"

definition envProblems :: "(gostring \<Rightarrow> gostring + bool) \<Rightarrow> env_config \<Rightarrow> gostring list" where
  "envProblems canRead env =
     validateEnv env
     @ checkFile canRead ''DEEPLO_SSH_PRIVATE_KEY_FILE'' (env_ssh_private_key_file env)
     @ checkFile canRead ''DEEPLO_GITHUB_WEBHOOK_SECRET_FILE'' (env_github_webhook_secret_file env)
     @ checkFile canRead ''DEEPLO_GITHUB_TOKEN_FILE'' (env_github_token_file env)
     @ (if env_ssh_host_key_policy env = ''strict''
        then checkFile canRead ''DEEPLO_SSH_KNOWN_HOSTS'' (env_ssh_known_hosts env) else [])"

definition runEnvCheck ::
  "(gostring \<Rightarrow> gotime option) \<Rightarrow> (gostring \<Rightarrow> gostring + bool) \<Rightarrow> gostring \<Rightarrow> bool \<Rightarrow> gostring option
   \<Rightarrow> gostring list \<times> goerror" where
  "runEnvCheck parseDuration canRead path missing content =
     (case parseEnvFile content of
        None \<Rightarrow> ([], Some (if missing then ''env file not found: '' @ path else ''read env file''))
      | Some values \<Rightarrow>
          (let env = loadEnvFrom parseDuration (\<lambda>k. case values k of None \<Rightarrow> [] | Some v \<Rightarrow> v);
               problems = envProblems canRead env
           in (problems, if problems \<noteq> [] then Some ''env validation failed'' else None)))"

text \<open>The variables of the native environment file that are not yet set.\<close>

definition loadNativeEnvFile :: "(gostring \<rightharpoonup> gostring) option \<Rightarrow> (gostring \<rightharpoonup> gostring) \<Rightarrow> gostring \<rightharpoonup> gostring" where
  "loadNativeEnvFile file env =
     (case file of
        None \<Rightarrow> env
      | Some values \<Rightarrow>
          (\<lambda>k. case env k of
                 Some v \<Rightarrow> Some v
               | None \<Rightarrow> if hasPrefix k ''DEEPLO_'' then values k else None))"

section \<open>Authorizing hosts\<close>

fun namedHosts :: "(gostring \<rightharpoonup> host) \<Rightarrow> gostring list \<Rightarrow> gostring + host list" where
  "namedHosts hostsByName [] = Inr []"
| "namedHosts hostsByName (n # ns) =
     (case hostsByName n of
        None \<Rightarrow> Inl (''host '' @ goQuote n @ '' not found in config'')
      | Some h \<Rightarrow> (case namedHosts hostsByName ns of Inl e \<Rightarrow> Inl e | Inr hs \<Rightarrow> Inr (h # hs)))"

definition selectAuthorizeHosts :: "config \<Rightarrow> gostring list \<Rightarrow> gostring + host list" where
  "selectAuthorizeHosts c names =
     (if names = [] then (if cfg_hosts c = [] then Inl ''no hosts configured'' else Inr (cfg_hosts c))
      else namedHosts (hostIndex c) names)"

text \<open>The hosts that the daemon reached; none when it does not answer.\<close>

definition probeAuthorizedHosts :: "gostring + probe_result list \<Rightarrow> gostring set" where
  "probeAuthorizedHosts resp =
     (case resp of Inl e \<Rightarrow> {} | Inr hs \<Rightarrow> set (map pb_host (filter pb_ok hs)))"

text \<open>The arguments of \<open>ssh\<close> before the script.\<close>

definition authorizeArgs :: "int \<Rightarrow> gostring \<Rightarrow> gostring list" where
  "authorizeArgs port target = (if port \<noteq> 0 \<and> port \<noteq> 22 then [''-p'', itoa port] else []) @ [target]"

fun authorizeEach ::
  "(gostring list \<Rightarrow> 'w \<Rightarrow> goerror \<times> 'w) \<Rightarrow> env_config \<Rightarrow> gostring set \<Rightarrow> host list \<Rightarrow> 'w
   \<Rightarrow> (nat \<times> gostring list list) \<times> 'w" where
  "authorizeEach ssh env authorized [] w = ((0, []), w)"
| "authorizeEach ssh env authorized (h # hs) w =
     (if host_name h \<in> authorized then authorizeEach ssh env authorized hs w
      else
        (let args = authorizeArgs (effectivePort h (env_ssh_port env))
               (effectiveUser h (env_ssh_user env) @ ''@'' @ host_address h) in
         case ssh args w of
           (err, w1) \<Rightarrow>
             (case authorizeEach ssh env authorized hs w1 of
                ((failed, calls), w2) \<Rightarrow> ((if err \<noteq> None then failed + 1 else failed, args # calls), w2))))"

definition runAuthorize ::
  "bool \<Rightarrow> env_config \<Rightarrow> parse_error + config \<Rightarrow> goerror \<Rightarrow> gostring + probe_result list
   \<Rightarrow> (gostring list \<Rightarrow> 'w \<Rightarrow> goerror \<times> 'w) \<Rightarrow> gostring list \<Rightarrow> 'w \<Rightarrow> (goerror \<times> gostring list list) \<times> 'w" where
  "runAuthorize sshFound env loaded keyErr probed ssh names w =
     (if \<not> sshFound then ((Some ''ssh not found in PATH; install openssh-client'', []), w)
      else if env_ssh_private_key_file env = []
      then ((Some ''DEEPLO_SSH_PRIVATE_KEY_FILE is not set; nothing to authorize'', []), w)
      else (case loaded of
              Inl e \<Rightarrow> ((Some ''load config'', []), w)
            | Inr c \<Rightarrow>
                (case selectAuthorizeHosts c names of
                   Inl e \<Rightarrow> ((Some e, []), w)
                 | Inr hs \<Rightarrow>
                     (case keyErr of
                        Some e \<Rightarrow> ((Some (''read public key: '' @ e), []), w)
                      | None \<Rightarrow>
                          (case authorizeEach ssh env (probeAuthorizedHosts probed) hs w of
                             ((failed, calls), w') \<Rightarrow>
                               ((if failed > 0 then Some (itoaNat failed @ '' host(s) failed to authorize'') else None,
                                 calls), w'))))))"

section \<open>Laws\<close>

text \<open>The relative time never lies: what is less than a minute old, or in the future, is \<open>just now\<close>.\<close>

lemma formatRelativeTime_now: "\<lbrakk>t \<noteq> 0; now - t < minute\<rbrakk> \<Longrightarrow> formatRelativeTime f now t = ''just now''"
  by (simp add: formatRelativeTime_def Let_def)

text \<open>A refresh fails exactly when a host or a project does; every service of the others has its row.\<close>

lemma containerRows_spec:
  "snd (containerRows h ps) = [] \<longleftrightarrow> (\<forall>p\<in>set ps. rp_error p = [])"
  "\<lbrakk>p \<in> set ps; rp_error p = []; (svc, st, status) \<in> set (rp_services p)\<rbrakk>
   \<Longrightarrow> [rp_project p, h, svc, st, status] \<in> set (fst (containerRows h ps))"
  by (induction ps) (auto simp: rev_image_eqI split: prod.splits)

lemma hostRows_errors:
  "snd (hostRows hs) = [] \<longleftrightarrow> (\<forall>h\<in>set hs. rh_error h = [] \<and> (\<forall>p\<in>set (rh_projects h). rp_error p = []))"
proof (induction hs)
  case (Cons h hs)
  obtain r e where c: "containerRows (rh_host h) (rh_projects h) = (r, e)" by (rule prod.exhaust)
  have "e = [] \<longleftrightarrow> (\<forall>p\<in>set (rh_projects h). rp_error p = [])"
    using containerRows_spec(1) [of "rh_host h" "rh_projects h"] c by simp
  then show ?case using Cons c by (auto split: prod.splits)
qed simp

lemma deploysContainers_fails:
  "snd (snd (deploysContainers hs)) = None
   \<longleftrightarrow> (\<forall>h\<in>set hs. rh_error h = [] \<and> (\<forall>p\<in>set (rh_projects h). rp_error p = []))"
  using hostRows_errors [of hs] by (auto simp: deploysContainers_def split: prod.splits)

text \<open>The check accepts exactly the configurations that the validator of the daemon accepts.\<close>

lemma configCheck_wf: "(\<exists>r. loadAndReportConfig (Inr c) = Inr r) \<longleftrightarrow> wfConfig c"
  using blockingIssues_Nil_wf [of c] by (simp add: loadAndReportConfig_def blockingIssues_def Let_def)

text \<open>An accepted environment is one the daemon starts with, and the files it names can be read.\<close>

lemma runEnvCheck_ok:
  assumes "parseEnvFile content = Some values"
    and "env = loadEnvFrom parseDuration (\<lambda>k. case values k of None \<Rightarrow> [] | Some v \<Rightarrow> v)"
  shows "snd (runEnvCheck parseDuration canRead path missing content) = None \<longleftrightarrow>
     validateEnv env = []
     \<and> (\<forall>f\<in>{env_ssh_private_key_file env, env_github_webhook_secret_file env, env_github_token_file env}
            \<union> (if env_ssh_host_key_policy env = ''strict'' then {env_ssh_known_hosts env} else {}).
          f \<noteq> [] \<longrightarrow> canRead f = Inr True)"
proof -
  have c: "checkFile canRead f p = [] \<longleftrightarrow> (p \<noteq> [] \<longrightarrow> canRead p = Inr True)" for f p
    by (auto simp: checkFile_def split: sum.split)
  have "envProblems canRead env = [] \<longleftrightarrow> validateEnv env = []
     \<and> (\<forall>f\<in>{env_ssh_private_key_file env, env_github_webhook_secret_file env, env_github_token_file env}
            \<union> (if env_ssh_host_key_policy env = ''strict'' then {env_ssh_known_hosts env} else {}).
          f \<noteq> [] \<longrightarrow> canRead f = Inr True)"
    unfolding envProblems_def append_is_Nil_conv by (auto simp: c)
  moreover have "snd (runEnvCheck parseDuration canRead path missing content) = None \<longleftrightarrow> envProblems canRead env = []"
    unfolding runEnvCheck_def assms(1) Let_def option.case assms(2) [symmetric] by simp
  ultimately show ?thesis by simp
qed

lemma loadNativeEnvFile_keeps:
  "env k = Some v \<Longrightarrow> loadNativeEnvFile file env k = Some v"
  "\<not> hasPrefix k ''DEEPLO_'' \<Longrightarrow> loadNativeEnvFile file env k = env k"
  by (auto simp: loadNativeEnvFile_def split: option.split)

text \<open>Every selected host that the daemon does not reach gets the key once, in order, and no other host.\<close>

lemma authorizeEach_calls:
  "snd (fst (authorizeEach ssh env authorized hs w)) =
     map (\<lambda>h. authorizeArgs (effectivePort h (env_ssh_port env)) (effectiveUser h (env_ssh_user env) @ ''@'' @ host_address h))
       (filter (\<lambda>h. host_name h \<notin> authorized) hs)"
proof (induction hs arbitrary: w)
  case (Cons h hs)
  let ?args = "authorizeArgs (effectivePort h (env_ssh_port env)) (effectiveUser h (env_ssh_user env) @ ''@'' @ host_address h)"
  obtain e w1 where s: "ssh ?args w = (e, w1)" by (rule prod.exhaust)
  obtain failed calls w2 where r: "authorizeEach ssh env authorized hs w1 = ((failed, calls), w2)"
    by (metis surj_pair)
  have "calls = snd (fst (authorizeEach ssh env authorized hs w1))" using r by simp
  then show ?case using Cons.IH [of w1] Cons.IH [of w] s r by (simp add: Let_def)
qed simp

lemma namedHosts_names:
  assumes "namedHosts (hostIndex c) names = Inr hs"
  shows "map host_name hs = names \<and> set hs \<subseteq> set (cfg_hosts c)"
  using assms
proof (induction names arbitrary: hs)
  case (Cons n names)
  then obtain h hs' where h: "hostIndex c n = Some h" "hs = h # hs'" "namedHosts (hostIndex c) names = Inr hs'"
    by (auto split: option.splits sum.splits)
  then show ?case using Cons.IH [OF h(3)] hostIndex_name [OF h(1)]
    by (auto simp: hostIndex_def dest: indexBy_SomeD)
qed simp

end
