(* ===== verification/Cli_System.thy ===== *)
theory Cli_System
  imports Cli
begin

text \<open>
  The commands that drive the system (\<open>internal/cli\<close>: native, service, update, uninstall, completion, health,
  edit): the processes they run, in order, over a machine that answers them. A process is its argument
  list; a file is present or not; the version fetched and the answer to a prompt are parameters.
\<close>

section \<open>The machine\<close>

record 'w machine =
  ma_root :: bool
  ma_look_path :: "gostring \<Rightarrow> bool"
  ma_stat :: "gostring \<Rightarrow> 'w \<Rightarrow> bool"
  ma_exec :: "gostring list \<Rightarrow> 'w \<Rightarrow> goerror \<times> 'w"

definition nativeUnitName :: gostring where "nativeUnitName = ''deeplo''"

definition nativeUnitFile :: gostring where "nativeUnitFile = ''/etc/systemd/system/deeplo.service''"

definition installDir :: gostring where "installDir = ''/usr/local/bin''"

definition checkNativeInstall :: "'w machine \<Rightarrow> 'w \<Rightarrow> goerror" where
  "checkNativeInstall ma w =
     (if \<not> ma_look_path ma ''systemctl'' \<or> \<not> ma_stat ma ''/run/systemd/system'' w
      then Some ''this command requires a native install (systemd)'' else None)"

definition runSystemctl :: "'w machine \<Rightarrow> gostring list \<Rightarrow> 'w \<Rightarrow> goerror \<times> 'w" where
  "runSystemctl ma args = ma_exec ma (''systemctl'' # args)"

definition runSystemctlPrivileged :: "'w machine \<Rightarrow> gostring list \<Rightarrow> 'w \<Rightarrow> goerror \<times> 'w" where
  "runSystemctlPrivileged ma args w =
     (if ma_root ma then ma_exec ma (''systemctl'' # args) w
      else if \<not> ma_look_path ma ''sudo'' then (Some (''root privileges required; sudo not found in PATH'' @ [CHR 0x0A] @ ''  re-run as root or install sudo''), w)
      else ma_exec ma (''sudo'' # ''systemctl'' # args) w)"

definition systemctlExitZero :: "'w machine \<Rightarrow> gostring list \<Rightarrow> 'w \<Rightarrow> bool \<times> 'w" where
  "systemctlExitZero ma args w = (case ma_exec ma (''systemctl'' # args) w of (e, w') \<Rightarrow> (e = None, w'))"

text \<open>The groups of the user and those that may read the journal, where they exist.\<close>

definition canReadSystemJournal :: "bool \<Rightarrow> int list option \<Rightarrow> (gostring \<rightharpoonup> gostring) \<Rightarrow> bool" where
  "canReadSystemJournal root groupIDs lookupGroup \<longleftrightarrow>
     root \<or> (case groupIDs of
               None \<Rightarrow> False
             | Some gids \<Rightarrow>
                 list_ex (\<lambda>g. case lookupGroup g of None \<Rightarrow> False | Some gid \<Rightarrow> gid \<in> set (map itoa gids))
                   [''systemd-journal'', ''adm''])"

definition runJournalctl :: "'w machine \<Rightarrow> bool \<Rightarrow> gostring list \<Rightarrow> 'w \<Rightarrow> goerror \<times> 'w" where
  "runJournalctl ma canRead args w =
     (if canRead then ma_exec ma (''journalctl'' # args) w
      else if \<not> ma_look_path ma ''sudo''
      then (Some (''reading the system journal requires privileges; sudo not found in PATH'' @ [CHR 0x0A]
                  @ ''  re-run as root, install sudo, or add your user to the '' @ [CHR 0x27] @ ''systemd-journal'' @ [CHR 0x27] @ '' group''), w)
      else ma_exec ma (''sudo'' # ''journalctl'' # args) w)"

definition resolveEditor :: "(gostring \<Rightarrow> gostring) \<Rightarrow> gostring" where
  "resolveEditor getenv =
     (if getenv ''VISUAL'' \<noteq> [] then getenv ''VISUAL''
      else if getenv ''EDITOR'' \<noteq> [] then getenv ''EDITOR'' else ''vi'')"

section \<open>The service\<close>

definition enableArgs :: "bool \<Rightarrow> gostring list" where
  "enableArgs startNow = [''enable''] @ (if startNow then [''--now''] else []) @ [nativeUnitName]"

definition journalArgs :: "bool \<Rightarrow> int \<Rightarrow> gostring list" where
  "journalArgs follow lines =
     [''-u'', nativeUnitName, ''--no-pager''] @ (if follow then [''-f''] else [])
     @ (if lines > 0 then [''-n'' @ itoa lines] else [])"

datatype service_command =
    SvcStatus | SvcStart | SvcStop | SvcRestart | SvcEnable bool | SvcDisable | SvcLogs bool int

definition runService :: "'w machine \<Rightarrow> bool \<Rightarrow> service_command \<Rightarrow> 'w \<Rightarrow> goerror \<times> 'w" where
  "runService ma canRead cmd w =
     (if checkNativeInstall ma w \<noteq> None then (checkNativeInstall ma w, w)
      else (case cmd of
              SvcStatus \<Rightarrow> runSystemctl ma [''status'', nativeUnitName] w
            | SvcStart \<Rightarrow> runSystemctlPrivileged ma [''start'', nativeUnitName] w
            | SvcStop \<Rightarrow> runSystemctlPrivileged ma [''stop'', nativeUnitName] w
            | SvcRestart \<Rightarrow> runSystemctlPrivileged ma [''restart'', nativeUnitName] w
            | SvcEnable startNow \<Rightarrow> runSystemctlPrivileged ma (enableArgs startNow) w
            | SvcDisable \<Rightarrow> runSystemctlPrivileged ma [''disable'', nativeUnitName] w
            | SvcLogs follow lines \<Rightarrow> runJournalctl ma canRead (journalArgs follow lines) w))"

section \<open>Health\<close>

datatype socket_state = SocketPresent | SocketDenied | SocketMissing

datatype health_report =
    NotRunning | Running bool socket_state "(gostring \<times> gostring) option"
  | SocketReachable gostring gostring | SocketUnreachable

text \<open>The report and whether the command fails; the daemon answers with its version and uptime.\<close>

definition healthNative ::
  "'w machine \<Rightarrow> socket_state \<Rightarrow> (gostring \<times> gostring) option \<Rightarrow> 'w \<Rightarrow> (health_report \<times> bool) \<times> 'w" where
  "healthNative ma sock ping w =
     (case systemctlExitZero ma [''is-active'', ''--quiet'', nativeUnitName] w of
        (active, w1) \<Rightarrow>
          if \<not> active then ((NotRunning, True), w1)
          else (case systemctlExitZero ma [''is-enabled'', ''--quiet'', nativeUnitName] w1 of
                  (enabled, w2) \<Rightarrow> ((Running enabled sock (if sock = SocketPresent then ping else None), False), w2)))"

definition healthSocket :: "(gostring \<times> gostring) option \<Rightarrow> health_report \<times> bool" where
  "healthSocket ping =
     (case ping of None \<Rightarrow> (SocketUnreachable, True) | Some (version, uptime) \<Rightarrow> (SocketReachable version uptime, False))"

definition healthCmd ::
  "'w machine \<Rightarrow> socket_state \<Rightarrow> (gostring \<times> gostring) option \<Rightarrow> 'w \<Rightarrow> (health_report \<times> bool) \<times> 'w" where
  "healthCmd ma sock ping w =
     (if checkNativeInstall ma w = None then healthNative ma sock ping w else (healthSocket ping, w))"

section \<open>Update\<close>

definition installBinaryTo :: "'w machine \<Rightarrow> gostring \<Rightarrow> gostring \<Rightarrow> 'w \<Rightarrow> goerror \<times> 'w" where
  "installBinaryTo ma src dst w =
     (let args = [''install'', ''-m'', ''755'', src, dst] in
      if ma_root ma then ma_exec ma args w
      else if \<not> ma_look_path ma ''sudo''
      then (Some ''root privileges required to install binary; sudo not found in PATH'', w)
      else ma_exec ma (''sudo'' # args) w)"

definition detectArch :: "gostring \<Rightarrow> gostring + gostring" where
  "detectArch goarch =
     (if goarch = ''amd64'' then Inr ''amd64''
      else if goarch = ''arm64'' then Inr ''arm64''
      else Inl (''unsupported architecture: '' @ goarch @ '' (supported: amd64, arm64)''))"

definition releaseURL :: "gostring \<Rightarrow> gostring \<Rightarrow> gostring" where
  "releaseURL version arch =
     ''https://github.com/jancernik/deeplo/releases/download/'' @ version @ ''/deeplo_linux_'' @ arch"

definition parseLatestRelease :: "gostring option \<Rightarrow> gostring + gostring" where
  "parseLatestRelease tagName =
     (case tagName of
        None \<Rightarrow> Inl ''parse GitHub API response''
      | Some t \<Rightarrow> if t = [] then Inl ''could not parse latest version from GitHub API response'' else Inr t)"

text \<open>
  The web answers a request with a failure or with a status and a body; a file is written or not.
  The body is copied only with status 200.
\<close>

record 'w fetching =
  fe_get :: "gostring \<Rightarrow> 'w \<Rightarrow> (gostring + int \<times> gostring) \<times> 'w"
  fe_write :: "gostring \<Rightarrow> gostring \<Rightarrow> 'w \<Rightarrow> goerror \<times> 'w"
  fe_temp :: "gostring \<Rightarrow> 'w \<Rightarrow> (gostring + gostring) \<times> 'w"
  fe_output :: "gostring list \<Rightarrow> 'w \<Rightarrow> gostring option \<times> 'w"

definition fetchLatestVersion ::
  "'w fetching \<Rightarrow> (gostring \<Rightarrow> gostring option) \<Rightarrow> 'w \<Rightarrow> (gostring + gostring) \<times> 'w" where
  "fetchLatestVersion fe tagOf w =
     (case fe_get fe ''https://api.github.com/repos/jancernik/deeplo/releases/latest'' w of
        (Inl e, w1) \<Rightarrow> (Inl (''fetch latest version: '' @ e), w1)
      | (Inr (status, body), w1) \<Rightarrow>
          (if status \<noteq> 200 then Inl (''fetch latest version: GitHub API returned HTTP '' @ itoa status)
           else parseLatestRelease (tagOf body), w1))"

definition fetchBinary :: "'w fetching \<Rightarrow> gostring \<Rightarrow> gostring \<Rightarrow> gostring \<Rightarrow> 'w \<Rightarrow> goerror \<times> 'w" where
  "fetchBinary fe goarch version dst w =
     (case detectArch goarch of
        Inl e \<Rightarrow> (Some e, w)
      | Inr arch \<Rightarrow>
          (let url = releaseURL version arch in
           case fe_get fe url w of
             (Inl e, w1) \<Rightarrow> (Some (''download '' @ url @ '': '' @ e), w1)
           | (Inr (status, body), w1) \<Rightarrow>
               (if status \<noteq> 200 then (Some (''download '' @ url @ '': HTTP '' @ itoa status), w1)
                else fe_write fe dst body w1)))"

definition shellCompletions :: "(gostring \<times> gostring \<times> gostring) list" where
  "shellCompletions =
     [(''bash'', ''/usr/share/bash-completion/completions'', ''/usr/share/bash-completion/completions/deeplo''),
      (''zsh'', ''/usr/share/zsh/site-functions'', ''/usr/share/zsh/site-functions/_deeplo''),
      (''fish'', ''/usr/share/fish/vendor_completions.d'', ''/usr/share/fish/vendor_completions.d/deeplo.fish'')]"

definition installCompletionFile :: "'w machine \<Rightarrow> 'w fetching \<Rightarrow> gostring \<Rightarrow> gostring \<Rightarrow> 'w \<Rightarrow> goerror \<times> 'w" where
  "installCompletionFile ma fe script dst w =
     (case fe_temp fe script w of
        (Inl e, w1) \<Rightarrow> (Some e, w1)
      | (Inr staging, w1) \<Rightarrow>
          (let args = [''install'', ''-m'', ''644'', staging, dst] in
           if ma_root ma then ma_exec ma args w1
           else if \<not> ma_look_path ma ''sudo''
           then (Some ''root privileges required to install completion; sudo not found in PATH'', w1)
           else ma_exec ma (''sudo'' # args) w1))"

text \<open>A shell without its directory, a script that is not generated and a file not installed are passed over.\<close>

fun refreshEach ::
  "'w machine \<Rightarrow> 'w fetching \<Rightarrow> gostring \<Rightarrow> (gostring \<times> gostring \<times> gostring) list \<Rightarrow> 'w \<Rightarrow> gostring list \<times> 'w" where
  "refreshEach ma fe binPath [] w = ([], w)"
| "refreshEach ma fe binPath ((shell, dir, file) # cs) w =
     (if \<not> ma_stat ma dir w then refreshEach ma fe binPath cs w
      else (case fe_output fe [binPath, ''completion'', shell] w of
              (None, w1) \<Rightarrow> refreshEach ma fe binPath cs w1
            | (Some script, w1) \<Rightarrow>
                (case installCompletionFile ma fe script file w1 of
                   (Some e, w2) \<Rightarrow> refreshEach ma fe binPath cs w2
                 | (None, w2) \<Rightarrow>
                     (case refreshEach ma fe binPath cs w2 of (refreshed, w3) \<Rightarrow> (shell # refreshed, w3)))))"

definition refreshCompletions :: "'w machine \<Rightarrow> 'w fetching \<Rightarrow> gostring \<Rightarrow> 'w \<Rightarrow> gostring list \<times> 'w" where
  "refreshCompletions ma fe binPath w = refreshEach ma fe binPath shellCompletions w"

text \<open>What an update ends with: nothing to do, an error, or the version installed.\<close>

datatype update_result = UpToDate gostring | UpdateFailed gostring | Updated gostring

definition restartService :: "'w machine \<Rightarrow> 'w \<Rightarrow> goerror \<times> 'w" where
  "restartService ma w =
     (case systemctlExitZero ma [''is-active'', ''--quiet'', nativeUnitName] w of
        (active, w1) \<Rightarrow>
          (let verb = (if active then ''restart'' else ''start'') in
           case runSystemctlPrivileged ma [verb, nativeUnitName] w1 of
             (Some e, w2) \<Rightarrow> (Some (verb @ '' '' @ nativeUnitName @ '': '' @ e), w2)
           | (None, w2) \<Rightarrow> (None, w2)))"

text \<open>
  The daemon was asked before anything else whether it answers; the temporary directory is made or not;
  the build names its version and its architecture.
\<close>

record build_facts =
  bf_goarch :: gostring
  bf_version :: gostring

definition installVersion ::
  "'w machine \<Rightarrow> 'w fetching \<Rightarrow> build_facts \<Rightarrow> gostring + gostring \<Rightarrow> gostring \<Rightarrow> bool \<Rightarrow> 'w \<Rightarrow> goerror \<times> 'w" where
  "installVersion ma fe bf tmpDir version wasRunning w =
     (case tmpDir of
        Inl e \<Rightarrow> (Some (''create temp dir: '' @ e), w)
      | Inr dir \<Rightarrow>
          (case fetchBinary fe (bf_goarch bf) version (dir @ ''/deeplo'') w of
             (Some e, w1) \<Rightarrow> (Some e, w1)
           | (None, w1) \<Rightarrow>
               (case installBinaryTo ma (dir @ ''/deeplo'') (installDir @ ''/deeplo'') w1 of
                  (Some e, w2) \<Rightarrow> (Some e, w2)
                | (None, w2) \<Rightarrow>
                    (case runSystemctlPrivileged ma [''daemon-reload'']
                            (snd (refreshCompletions ma fe (installDir @ ''/deeplo'') w2)) of
                       (Some e, w3) \<Rightarrow> (Some (''daemon-reload: '' @ e), w3)
                     | (None, w3) \<Rightarrow> if wasRunning then restartService ma w3 else (None, w3)))))"

definition runUpdate ::
  "'w machine \<Rightarrow> 'w fetching \<Rightarrow> (gostring \<Rightarrow> gostring option) \<Rightarrow> build_facts \<Rightarrow> gostring + gostring
   \<Rightarrow> gostring \<Rightarrow> bool \<Rightarrow> bool \<Rightarrow> 'w \<Rightarrow> update_result \<times> 'w" where
  "runUpdate ma fe tagOf bf tmpDir version0 force wasRunning w =
     (case (if version0 = [] then fetchLatestVersion fe tagOf w else (Inr version0, w)) of
        (Inl e, w1) \<Rightarrow> (UpdateFailed e, w1)
      | (Inr v, w1) \<Rightarrow>
          (let version = (if hasPrefix v ''v'' then v else ''v'' @ v);
               display = trimPrefix version ''v''
           in if \<not> force \<and> display = bf_version bf then (UpToDate display, w1)
              else (case installVersion ma fe bf tmpDir version wasRunning w1 of
                      (Some e, w2) \<Rightarrow> (UpdateFailed e, w2)
                    | (None, w2) \<Rightarrow> (Updated display, w2))))"

section \<open>Uninstall\<close>

definition privileged :: "'w machine \<Rightarrow> gostring list \<Rightarrow> 'w \<Rightarrow> goerror \<times> 'w" where
  "privileged ma args w = ma_exec ma (if ma_root ma then args else ''sudo'' # args) w"

definition removeFile :: "'w machine \<Rightarrow> gostring \<Rightarrow> 'w \<Rightarrow> goerror \<times> 'w" where
  "removeFile ma path w =
     (case privileged ma [''rm'', ''-f'', path] w of
        (Some e, w') \<Rightarrow> (Some (''remove '' @ path @ '': '' @ e), w')
      | (None, w') \<Rightarrow> (None, w'))"

text \<open>Each of the files that is present.\<close>

fun removeFiles :: "'w machine \<Rightarrow> gostring list \<Rightarrow> 'w \<Rightarrow> goerror \<times> 'w" where
  "removeFiles ma [] w = (None, w)"
| "removeFiles ma (f # fs) w =
     (if ma_stat ma f w then
        (case removeFile ma f w of
           (Some e, w1) \<Rightarrow> (Some e, w1)
         | (None, w1) \<Rightarrow> removeFiles ma fs w1)
      else removeFiles ma fs w)"

fun removeDirs :: "'w machine \<Rightarrow> gostring list \<Rightarrow> 'w \<Rightarrow> goerror \<times> 'w" where
  "removeDirs ma [] w = (None, w)"
| "removeDirs ma (d # ds) w =
     (case privileged ma [''rm'', ''-rf'', d] w of
        (Some e, w1) \<Rightarrow> (Some (''remove '' @ d @ '': '' @ e), w1)
      | (None, w1) \<Rightarrow> removeDirs ma ds w1)"

definition stopForUninstall :: "'w machine \<Rightarrow> 'w \<Rightarrow> goerror \<times> 'w" where
  "stopForUninstall ma w =
     (case systemctlExitZero ma [''is-active'', ''--quiet'', nativeUnitName] w of
        (active, w1) \<Rightarrow>
          (case (if active then runSystemctlPrivileged ma [''stop'', nativeUnitName] w1 else (None, w1)) of
             (Some e, w2) \<Rightarrow> (Some (''stop '' @ nativeUnitName @ '': '' @ e), w2)
           | (None, w2) \<Rightarrow>
               (case systemctlExitZero ma [''is-enabled'', ''--quiet'', nativeUnitName] w2 of
                  (enabled, w3) \<Rightarrow>
                    (let w4 = (if enabled then snd (runSystemctlPrivileged ma [''disable'', nativeUnitName] w3) else w3) in
                     case systemctlExitZero ma [''is-failed'', ''--quiet'', nativeUnitName] w4 of
                       (failed, w5) \<Rightarrow>
                         (None, if failed then snd (runSystemctlPrivileged ma [''reset-failed'', nativeUnitName] w5)
                                else w5)))))"

definition purges :: "bool \<Rightarrow> gostring \<Rightarrow> bool" where
  "purges purge answer \<longleftrightarrow> purge \<or> toLower (trimSpace answer) \<in> {''y'', ''yes''}"

definition runUninstall :: "'w machine \<Rightarrow> bool \<Rightarrow> gostring \<Rightarrow> 'w \<Rightarrow> goerror \<times> 'w" where
  "runUninstall ma purge answer w =
     (case stopForUninstall ma w of
        (Some e, w1) \<Rightarrow> (Some e, w1)
      | (None, w1) \<Rightarrow>
          (case (if ma_stat ma nativeUnitFile w1 then
                   (case removeFile ma nativeUnitFile w1 of
                      (Some e, w2) \<Rightarrow> (Some e, w2)
                    | (None, w2) \<Rightarrow> (None, snd (runSystemctlPrivileged ma [''daemon-reload''] w2)))
                 else (None, w1)) of
             (Some e, w2) \<Rightarrow> (Some e, w2)
           | (None, w2) \<Rightarrow>
               (case removeFiles ma ((installDir @ ''/deeplo'') # map (\<lambda>(shell, dir, file). file) shellCompletions) w2 of
                  (Some e, w3) \<Rightarrow> (Some e, w3)
                | (None, w3) \<Rightarrow>
                    (if \<not> purges purge answer then (None, w3)
                     else (case removeDirs ma [''/etc/deeplo'', ''/var/lib/deeplo''] w3 of
                             (Some e, w4) \<Rightarrow> (Some e, w4)
                           | (None, w4) \<Rightarrow>
                               (None, snd (privileged ma [''groupdel'', ''deeplo'']
                                   (snd (privileged ma [''userdel'', ''deeplo''] w4)))))))))"

section \<open>Laws\<close>

text \<open>Outside a native install no command reaches systemd.\<close>

lemma runService_not_native:
  "checkNativeInstall ma w = Some e \<Longrightarrow> runService ma canRead cmd w = (Some e, w)"
  by (simp add: runService_def)

lemma runUpdate_same_version:
  "\<lbrakk>v \<noteq> []; \<not> hasPrefix v ''v''; bf_version bf = v\<rbrakk>
   \<Longrightarrow> runUpdate ma fe tagOf bf tmp v False running w = (UpToDate v, w)"
  by (simp add: runUpdate_def trimPrefix_def hasPrefix_def)

text \<open>Nothing is written, let alone installed, from an answer other than 200 or for another architecture.\<close>

lemma fetchBinary_ok:
  assumes "fst (fetchBinary fe goarch version dst w) = None"
  shows "goarch \<in> {''amd64'', ''arm64''} \<and>
     (\<exists>body w1. fe_get fe (releaseURL version goarch) w = (Inr (200, body), w1) \<and> fst (fe_write fe dst body w1) = None)"
  using assms
  by (auto simp: fetchBinary_def detectArch_def Let_def split: if_splits sum.splits prod.splits)

lemma installVersion_ok:
  assumes "installVersion ma fe bf tmp version running w = (None, w')"
  obtains dir w1 w2 where "tmp = Inr dir"
    "fetchBinary fe (bf_goarch bf) version (dir @ ''/deeplo'') w = (None, w1)"
    "installBinaryTo ma (dir @ ''/deeplo'') (installDir @ ''/deeplo'') w1 = (None, w2)"
  using assms by (auto simp: installVersion_def split: sum.splits prod.splits option.splits)

text \<open>A reported update has fetched and installed the binary of that version.\<close>

lemma runUpdate_updated:
  assumes "fst (runUpdate ma fe tagOf bf tmp version0 force running w) = Updated display"
  shows "\<exists>dir version w1 w2 w3. tmp = Inr dir \<and> trimPrefix version ''v'' = display \<and>
     fetchBinary fe (bf_goarch bf) version (dir @ ''/deeplo'') w1 = (None, w2) \<and>
     installBinaryTo ma (dir @ ''/deeplo'') (installDir @ ''/deeplo'') w2 = (None, w3)"
proof -
  have "\<exists>version w1 w2. trimPrefix version ''v'' = display \<and>
     installVersion ma fe bf tmp version running w1 = (None, w2)"
    using assms unfolding runUpdate_def Let_def
    by (auto split: sum.splits prod.splits option.splits if_splits)
  then show ?thesis by (metis installVersion_ok)
qed

subsection \<open>What an uninstall removes\<close>

text \<open>
  What a host holds of the daemon: paths, the user and the group. A command may remove the path that it
  names, \<open>rm -rf\<close> everything below it too, and \<open>userdel\<close> the user with its primary group; \<open>clears\<close> is
  what is gone when it succeeds. \<open>userdel\<close> leaves the group on some systems.
\<close>

datatype item = Path gostring | User gostring | Group gostring

fun touches :: "gostring list \<Rightarrow> item \<Rightarrow> bool" where
  "touches [c, a] it \<longleftrightarrow> c = ''userdel'' \<and> (it = User a \<or> it = Group a) \<or> c = ''groupdel'' \<and> it = Group a"
| "touches [c, a, b] it \<longleftrightarrow>
     c = ''rm'' \<and> (case it of Path p \<Rightarrow> (a = ''-f'' \<and> p = b) \<or> (a = ''-rf'' \<and> inside b p) | _ \<Rightarrow> False)"
| "touches args it \<longleftrightarrow> False"

definition clears :: "gostring list \<Rightarrow> item \<Rightarrow> bool" where
  "clears args it \<longleftrightarrow> touches args it \<and> (\<forall>a g. args = [''userdel'', a] \<longrightarrow> it \<noteq> Group g)"

definition installedFiles :: "gostring list" where
  "installedFiles = nativeUnitFile # (installDir @ ''/deeplo'') # map (\<lambda>(shell, dir, file). file) shellCompletions"

definition purgedDirs :: "gostring list" where
  "purgedDirs = [''/etc/deeplo'', ''/var/lib/deeplo'']"

text \<open>The processes an uninstall may run, without \<open>sudo\<close>.\<close>

definition removalCommands :: "gostring list list" where
  "removalCommands =
     map (\<lambda>q. [''systemctl'', q, ''--quiet'', nativeUnitName]) [''is-active'', ''is-enabled'', ''is-failed'']
     @ map (\<lambda>verb. [''systemctl'', verb, nativeUnitName]) [''stop'', ''disable'', ''reset-failed'']
     @ [''systemctl'', ''daemon-reload''] # map (\<lambda>f. [''rm'', ''-f'', f]) installedFiles"

definition purgeCommands :: "gostring list list" where
  "purgeCommands = map (\<lambda>d. [''rm'', ''-rf'', d]) purgedDirs @ [[''userdel'', ''deeplo''], [''groupdel'', ''deeplo'']]"

definition uninstallCommands :: "bool \<Rightarrow> gostring list set" where
  "uninstallCommands purge = set removalCommands \<union> (if purge then set purgeCommands else {})"

text \<open>
  What an uninstall relies on: \<open>os.Stat\<close> finds what is there, a process of it creates none of these
  items and removes at most what it names, and one that ends well has removed it. Nobody else changes
  them meanwhile.
\<close>

definition machineLaws :: "'w machine \<Rightarrow> (item \<Rightarrow> 'w \<Rightarrow> bool) \<Rightarrow> bool" where
  "machineLaws ma present \<longleftrightarrow>
     (\<forall>p w. ma_stat ma p w \<longleftrightarrow> present (Path p) w)
   \<and> (\<forall>args\<in>uninstallCommands True. \<forall>run\<in>{args, ''sudo'' # args}. \<forall>it w.
        (present it (snd (ma_exec ma run w)) \<longrightarrow> present it w)
      \<and> (present it w \<and> \<not> touches args it \<longrightarrow> present it (snd (ma_exec ma run w)))
      \<and> (fst (ma_exec ma run w) = None \<and> clears args it \<longrightarrow> \<not> present it (snd (ma_exec ma run w))))"

lemma machineLaws_exec:
  assumes "machineLaws ma present" "args \<in> uninstallCommands True" "run = args \<or> run = ''sudo'' # args"
  shows "present it (snd (ma_exec ma run w)) \<Longrightarrow> present it w"
    and "\<lbrakk>present it w; \<not> touches args it\<rbrakk> \<Longrightarrow> present it (snd (ma_exec ma run w))"
    and "\<lbrakk>fst (ma_exec ma run w) = None; clears args it\<rbrakk> \<Longrightarrow> \<not> present it (snd (ma_exec ma run w))"
proof -
  have "run \<in> {args, ''sudo'' # args}" using assms(3) by blast
  with assms(1,2) have l: "(present it (snd (ma_exec ma run w)) \<longrightarrow> present it w)
      \<and> (present it w \<and> \<not> touches args it \<longrightarrow> present it (snd (ma_exec ma run w)))
      \<and> (fst (ma_exec ma run w) = None \<and> clears args it \<longrightarrow> \<not> present it (snd (ma_exec ma run w)))"
    unfolding machineLaws_def by blast
  show "present it (snd (ma_exec ma run w)) \<Longrightarrow> present it w"
    "\<lbrakk>present it w; \<not> touches args it\<rbrakk> \<Longrightarrow> present it (snd (ma_exec ma run w))"
    "\<lbrakk>fst (ma_exec ma run w) = None; clears args it\<rbrakk> \<Longrightarrow> \<not> present it (snd (ma_exec ma run w))"
    using l by blast+
qed

lemma machineLaws_privileged:
  assumes "machineLaws ma present" "args \<in> uninstallCommands True"
  shows "present it (snd (privileged ma args w)) \<Longrightarrow> present it w"
    and "\<lbrakk>fst (privileged ma args w) = None; clears args it\<rbrakk> \<Longrightarrow> \<not> present it (snd (privileged ma args w))"
  using machineLaws_exec [OF assms, where run = "if ma_root ma then args else ''sudo'' # args" and it = it and w = w]
  unfolding privileged_def by simp_all

text \<open>A run of such processes, and what holds over it.\<close>

inductive runs :: "'w machine \<Rightarrow> gostring list set \<Rightarrow> 'w \<Rightarrow> 'w \<Rightarrow> bool" for ma A w where
  runs_refl: "runs ma A w w"
| runs_exec: "\<lbrakk>runs ma A w w1; args \<in> A; run \<in> {args, ''sudo'' # args}\<rbrakk> \<Longrightarrow> runs ma A w (snd (ma_exec ma run w1))"

lemma runs_no_new:
  assumes "runs ma A w w'" "machineLaws ma present" "A \<subseteq> uninstallCommands True" "present it w'"
  shows "present it w"
  using assms
proof (induction rule: runs.induct)
  case (runs_exec w1 args run)
  then show ?case using machineLaws_exec(1) [of ma present args run it w1] by blast
qed

lemma runs_frame:
  assumes "runs ma A w w'" "machineLaws ma present" "A \<subseteq> uninstallCommands True" "\<forall>args\<in>A. \<not> touches args it"
    and "present it w"
  shows "present it w'"
  using assms
proof (induction rule: runs.induct)
  case (runs_exec w1 args run)
  then show ?case using machineLaws_exec(2) [of ma present args run it w1] by blast
qed

lemma runs_bind:
  "\<lbrakk>runs ma A w0 (snd r); \<And>e w. runs ma A w0 w \<Longrightarrow> runs ma A w0 (snd (f e w))\<rbrakk>
   \<Longrightarrow> runs ma A w0 (snd (case r of (e, w) \<Rightarrow> f e w))"
  by (cases r) simp

lemma runs_option:
  "\<lbrakk>runs ma A w0 (snd n); \<And>e. runs ma A w0 (snd (g e))\<rbrakk>
   \<Longrightarrow> runs ma A w0 (snd (case x of None \<Rightarrow> n | Some e \<Rightarrow> g e))"
  by (cases x) simp_all

lemma runs_if: "\<lbrakk>runs ma A w0 (snd r); runs ma A w0 (snd r')\<rbrakk> \<Longrightarrow> runs ma A w0 (snd (if b then r else r'))"
  by simp

lemma runs_if_world: "\<lbrakk>runs ma A w0 w; runs ma A w0 w'\<rbrakk> \<Longrightarrow> runs ma A w0 (if b then w else w')"
  by simp

lemma runs_done: "runs ma A w0 w \<Longrightarrow> runs ma A w0 (snd (e, w))"
  by simp

lemma runs_systemctl:
  "\<lbrakk>''systemctl'' # args \<in> A; runs ma A w0 w\<rbrakk> \<Longrightarrow> runs ma A w0 (snd (runSystemctlPrivileged ma args w))"
  by (auto simp: runSystemctlPrivileged_def intro: runs_exec)

lemma runs_question:
  "\<lbrakk>''systemctl'' # args \<in> A; runs ma A w0 w\<rbrakk> \<Longrightarrow> runs ma A w0 (snd (systemctlExitZero ma args w))"
  by (auto simp: systemctlExitZero_def intro: runs_exec split: prod.split)
     (metis insertI1 runs_exec snd_conv)

lemma runs_privileged: "\<lbrakk>args \<in> A; runs ma A w0 w\<rbrakk> \<Longrightarrow> runs ma A w0 (snd (privileged ma args w))"
  by (auto simp: privileged_def intro: runs_exec)

lemma runs_removeFile: "\<lbrakk>[''rm'', ''-f'', f] \<in> A; runs ma A w0 w\<rbrakk> \<Longrightarrow> runs ma A w0 (snd (removeFile ma f w))"
  unfolding removeFile_def by (intro runs_bind runs_option runs_done runs_privileged)

lemmas runs_intros =
  runs_bind runs_option runs_if runs_if_world runs_done runs_systemctl runs_question runs_privileged runs_removeFile

lemma runs_removeFiles:
  "\<lbrakk>(\<lambda>f. [''rm'', ''-f'', f]) ` set fs \<subseteq> A; runs ma A w0 w\<rbrakk> \<Longrightarrow> runs ma A w0 (snd (removeFiles ma fs w))"
proof (induction fs arbitrary: w)
  case (Cons f fs)
  then show ?case unfolding removeFiles.simps by (intro runs_intros) auto
qed simp

lemma runs_removeDirs:
  "\<lbrakk>(\<lambda>d. [''rm'', ''-rf'', d]) ` set ds \<subseteq> A; runs ma A w0 w\<rbrakk> \<Longrightarrow> runs ma A w0 (snd (removeDirs ma ds w))"
proof (induction ds arbitrary: w)
  case (Cons d ds)
  then show ?case unfolding removeDirs.simps by (intro runs_intros) auto
qed simp

lemma runs_stop: "\<lbrakk>set removalCommands \<subseteq> A; runs ma A w0 w\<rbrakk> \<Longrightarrow> runs ma A w0 (snd (stopForUninstall ma w))"
  unfolding stopForUninstall_def Let_def by (intro runs_intros) (auto simp: removalCommands_def)

lemma runs_mono: "\<lbrakk>runs ma A w w'; A \<subseteq> B\<rbrakk> \<Longrightarrow> runs ma B w w'"
  by (induction rule: runs.induct) (auto intro: runs.intros)

lemma runs_uninstall:
  assumes "runUninstall ma purge answer w = (err, w')"
  shows "runs ma (uninstallCommands (purges purge answer)) w w'"
proof -
  let ?A = "uninstallCommands (purges purge answer)"
  have A: "set removalCommands \<subseteq> ?A" by (simp add: uninstallCommands_def)
  then have rm: "[''rm'', ''-f'', nativeUnitFile] \<in> ?A" "[''systemctl'', ''daemon-reload''] \<in> ?A"
    "(\<lambda>f. [''rm'', ''-f'', f]) ` set ((installDir @ ''/deeplo'') # map (\<lambda>(shell, dir, file). file) shellCompletions) \<subseteq> ?A"
    by (auto simp: removalCommands_def installedFiles_def)
  note q = runs_stop [OF A runs_refl]
  have "runs ma ?A w (snd (runUninstall ma purge answer w))"
  proof (cases "purges purge answer")
    case True
    then have "set purgeCommands \<subseteq> ?A" by (simp add: uninstallCommands_def)
    then have "(\<lambda>d. [''rm'', ''-rf'', d]) ` set [''/etc/deeplo'', ''/var/lib/deeplo''] \<subseteq> ?A"
      "[''userdel'', ''deeplo''] \<in> ?A" "[''groupdel'', ''deeplo''] \<in> ?A"
      by (auto simp: purgeCommands_def purgedDirs_def)
    then show ?thesis unfolding runUninstall_def using rm q
      by (intro runs_intros runs_removeFiles runs_removeDirs) simp_all
  next
    case False
    then show ?thesis unfolding runUninstall_def if_P [OF False]
      using rm q by (intro runs_intros runs_removeFiles) simp_all
  qed
  then show ?thesis using assms by simp
qed

lemma removeFile_gone:
  assumes "machineLaws ma present" "f \<in> set installedFiles" "removeFile ma f w = (None, w')"
  shows "\<not> present (Path f) w'"
proof -
  have r: "privileged ma [''rm'', ''-f'', f] w = (None, w')"
    using assms(3) by (simp add: removeFile_def split: prod.splits option.splits)
  have "[''rm'', ''-f'', f] \<in> uninstallCommands True"
    using assms(2) by (simp add: uninstallCommands_def removalCommands_def)
  moreover have "clears [''rm'', ''-f'', f] (Path f)" by (simp add: clears_def)
  ultimately show ?thesis using machineLaws_privileged(2) [OF assms(1), of "[''rm'', ''-f'', f]" w "Path f"] r by simp
qed

lemma rm_commands: "set fs \<subseteq> set installedFiles \<Longrightarrow> (\<lambda>f. [''rm'', ''-f'', f]) ` set fs \<subseteq> set removalCommands"
  by (rule order.trans, rule image_mono, assumption) (simp add: removalCommands_def subset_insertI2)

lemma removeFiles_gone:
  assumes "machineLaws ma present" "set fs \<subseteq> set installedFiles" "removeFiles ma fs w = (None, w')"
  shows "\<forall>f\<in>set fs. \<not> present (Path f) w'"
  using assms(2,3)
proof (induction fs arbitrary: w)
  case (Cons f fs)
  have A: "set removalCommands \<subseteq> uninstallCommands True" by (simp add: uninstallCommands_def)
  obtain w1 where w1: "removeFiles ma fs w1 = (None, w')" "\<not> present (Path f) w1"
  proof (cases "ma_stat ma f w")
    case True
    then obtain w1 where "removeFile ma f w = (None, w1)" "removeFiles ma fs w1 = (None, w')"
      using Cons.prems(2) by (auto split: prod.splits option.splits)
    moreover have "f \<in> set installedFiles" using Cons.prems(1) by simp
    ultimately show ?thesis using that removeFile_gone [OF assms(1)] by blast
  next
    case False
    moreover have "ma_stat ma f w \<longleftrightarrow> present (Path f) w" using assms(1) unfolding machineLaws_def by blast
    moreover have "removeFiles ma fs w = (None, w')" using Cons.prems(2) False by simp
    ultimately show ?thesis using that by blast
  qed
  have "runs ma (set removalCommands) w1 (snd (removeFiles ma fs w1))"
    using Cons.prems(1) by (intro runs_removeFiles runs_refl rm_commands) simp
  then have "runs ma (set removalCommands) w1 w'" using w1(1) by simp
  then have "\<not> present (Path f) w'" using runs_no_new [OF _ assms(1) A] w1(2) by blast
  then show ?case using Cons.IH [OF _ w1(1)] Cons.prems(1) by simp
qed simp

lemma removeDirs_gone:
  assumes "machineLaws ma present" "set ds \<subseteq> set purgedDirs" "removeDirs ma ds w = (None, w')"
  shows "\<forall>d\<in>set ds. \<forall>p. inside d p \<longrightarrow> \<not> present (Path p) w'"
  using assms(2,3)
proof (induction ds arbitrary: w)
  case (Cons d ds)
  let ?C = "[''rm'', ''-rf'', d]"
  have A: "set purgeCommands \<subseteq> uninstallCommands True" by (simp add: uninstallCommands_def)
  obtain w1 where w1: "privileged ma ?C w = (None, w1)" "removeDirs ma ds w1 = (None, w')"
    using Cons.prems(2) by (auto split: prod.splits option.splits)
  have "?C \<in> uninstallCommands True"
    using Cons.prems(1) by (simp add: uninstallCommands_def purgeCommands_def)
  moreover have "clears ?C (Path p)" if "inside d p" for p using that by (simp add: clears_def)
  ultimately have "\<not> present (Path p) w1" if "inside d p" for p
    using machineLaws_privileged(2) [OF assms(1), of ?C w "Path p"] w1(1) that by simp
  moreover have r: "runs ma (set purgeCommands) w1 (snd (removeDirs ma ds w1))"
    using Cons.prems(1) by (intro runs_removeDirs runs_refl) (auto simp: purgeCommands_def)
  have "runs ma (set purgeCommands) w1 w'" using r w1(2) by simp
  ultimately have "\<forall>p. inside d p \<longrightarrow> \<not> present (Path p) w'" using runs_no_new [OF _ assms(1) A] by blast
  then show ?case using Cons.IH [OF _ w1(2)] Cons.prems(1) by simp
qed simp

lemma removeAccount_gone:
  assumes "machineLaws ma present"
  shows "fst (privileged ma [''userdel'', ''deeplo''] w) = None
           \<Longrightarrow> \<not> present (User ''deeplo'') (snd (privileged ma [''groupdel'', ''deeplo''] (snd (privileged ma [''userdel'', ''deeplo''] w))))"
    and "fst (privileged ma [''groupdel'', ''deeplo''] w) = None
           \<Longrightarrow> \<not> present (Group ''deeplo'') (snd (privileged ma [''groupdel'', ''deeplo''] w))"
proof -
  have c: "[''userdel'', ''deeplo''] \<in> uninstallCommands True" "[''groupdel'', ''deeplo''] \<in> uninstallCommands True"
    "clears [''userdel'', ''deeplo''] (User ''deeplo'')" "clears [''groupdel'', ''deeplo''] (Group ''deeplo'')"
    by (simp_all add: uninstallCommands_def purgeCommands_def clears_def)
  note P = machineLaws_privileged [OF assms]
  show "fst (privileged ma [''userdel'', ''deeplo''] w) = None
           \<Longrightarrow> \<not> present (User ''deeplo'') (snd (privileged ma [''groupdel'', ''deeplo''] (snd (privileged ma [''userdel'', ''deeplo''] w))))"
    using P(2) [OF c(1) _ c(3)] P(1) [OF c(2)] by blast
  show "fst (privileged ma [''groupdel'', ''deeplo''] w) = None
           \<Longrightarrow> \<not> present (Group ''deeplo'') (snd (privileged ma [''groupdel'', ''deeplo''] w))"
    using P(2) [OF c(2) _ c(4)] .
qed

text \<open>The worlds between the phases of an uninstall that ends well.\<close>

lemma runUninstall_steps:
  assumes "runUninstall ma purge answer w = (None, w')"
  obtains w1 w2 w3 where
    "(if ma_stat ma nativeUnitFile w1 then
        (case removeFile ma nativeUnitFile w1 of
           (Some e, w2) \<Rightarrow> (Some e, w2)
         | (None, w2) \<Rightarrow> (None, snd (runSystemctlPrivileged ma [''daemon-reload''] w2)))
      else (None, w1)) = (None, w2)"
    and "removeFiles ma ((installDir @ ''/deeplo'') # map (\<lambda>(shell, dir, file). file) shellCompletions) w2 = (None, w3)"
    and "\<not> purges purge answer \<longrightarrow> w' = w3"
    and "purges purge answer \<longrightarrow> (\<exists>w4. removeDirs ma [''/etc/deeplo'', ''/var/lib/deeplo''] w3 = (None, w4)
           \<and> w' = snd (privileged ma [''groupdel'', ''deeplo''] (snd (privileged ma [''userdel'', ''deeplo''] w4))))"
proof -
  obtain a w1 where 1: "stopForUninstall ma w = (a, w1)" by (rule prod.exhaust)
  obtain b w2 where 2: "(if ma_stat ma nativeUnitFile w1 then
                   (case removeFile ma nativeUnitFile w1 of
                      (Some e, w2) \<Rightarrow> (Some e, w2)
                    | (None, w2) \<Rightarrow> (None, snd (runSystemctlPrivileged ma [''daemon-reload''] w2)))
                 else (None, w1)) = (b, w2)" by (rule prod.exhaust)
  obtain c w3 where 3: "removeFiles ma ((installDir @ ''/deeplo'') # map (\<lambda>(shell, dir, file). file) shellCompletions) w2 = (c, w3)"
    by (rule prod.exhaust)
  obtain d w4 where 4: "removeDirs ma [''/etc/deeplo'', ''/var/lib/deeplo''] w3 = (d, w4)" by (rule prod.exhaust)
  note u = runUninstall_def [of ma purge answer w, unfolded 1 prod.case]
  have a: "a = None" using assms unfolding u by (cases a) simp_all
  note u = u [unfolded a option.case 2 prod.case]
  have b: "b = None" using assms unfolding u by (cases b) simp_all
  note u = u [unfolded b option.case 3 prod.case]
  have c: "c = None" using assms unfolding u by (cases c) simp_all
  note u = u [unfolded c option.case 4 prod.case]
  have d: "purges purge answer \<Longrightarrow> d = None" using assms unfolding u by (cases d) simp_all
  show ?thesis
  proof (rule that [OF 2 [unfolded b] 3 [unfolded c]])
    show "\<not> purges purge answer \<longrightarrow> w' = w3" using assms u by (simp split: if_splits)
    show "purges purge answer \<longrightarrow> (\<exists>w4. removeDirs ma [''/etc/deeplo'', ''/var/lib/deeplo''] w3 = (None, w4)
           \<and> w' = snd (privileged ma [''groupdel'', ''deeplo''] (snd (privileged ma [''userdel'', ''deeplo''] w4))))"
      using assms d 4 u by (simp split: if_splits)
  qed
qed

lemma uninstall_gone:
  assumes "machineLaws ma present" "runUninstall ma purge answer w = (None, w')"
  shows "\<forall>f\<in>set installedFiles. \<not> present (Path f) w'"
    and "purges purge answer \<Longrightarrow> (\<forall>d\<in>set purgedDirs. \<forall>p. inside d p \<longrightarrow> \<not> present (Path p) w')"
proof -
  let ?fs = "(installDir @ ''/deeplo'') # map (\<lambda>(shell, dir, file). file) shellCompletions"
  let ?A = "uninstallCommands True"
  obtain w1 w2 w3 where u: "(if ma_stat ma nativeUnitFile w1 then
        (case removeFile ma nativeUnitFile w1 of
           (Some e, w2) \<Rightarrow> (Some e, w2)
         | (None, w2) \<Rightarrow> (None, snd (runSystemctlPrivileged ma [''daemon-reload''] w2)))
      else (None, w1)) = (None, w2)"
    and f: "removeFiles ma ?fs w2 = (None, w3)"
    and n: "\<not> purges purge answer \<longrightarrow> w' = w3"
    and y: "purges purge answer \<longrightarrow> (\<exists>w4. removeDirs ma [''/etc/deeplo'', ''/var/lib/deeplo''] w3 = (None, w4)
           \<and> w' = snd (privileged ma [''groupdel'', ''deeplo''] (snd (privileged ma [''userdel'', ''deeplo''] w4))))"
    by (rule runUninstall_steps [OF assms(2)])
  have keep: "\<not> present it w \<Longrightarrow> \<not> present it w'" if "runs ma ?A w w'" for it w w'
    using runs_no_new [OF that assms(1) order.refl] by blast
  have C: "set removalCommands \<subseteq> ?A" "set purgeCommands \<subseteq> ?A" by (simp_all add: uninstallCommands_def)
  have unit: "\<not> present (Path nativeUnitFile) w2"
  proof (cases "ma_stat ma nativeUnitFile w1")
    case True
    then obtain w2' where r: "removeFile ma nativeUnitFile w1 = (None, w2')"
      "w2 = snd (runSystemctlPrivileged ma [''daemon-reload''] w2')"
      using u by (auto split: prod.splits option.splits)
    have "runs ma ?A w2' w2" unfolding r(2)
      using C by (intro runs_systemctl runs_refl) (auto simp: removalCommands_def)
    then show ?thesis using removeFile_gone [OF assms(1) _ r(1)] keep by (simp add: installedFiles_def)
  next
    case False
    then show ?thesis using u assms(1) by (simp add: machineLaws_def)
  qed
  have fs: "\<forall>f\<in>set ?fs. \<not> present (Path f) w3"
    by (rule removeFiles_gone [OF assms(1) _ f], unfold installedFiles_def, rule set_subset_Cons)
  have "runs ma ?A w2 (snd (removeFiles ma ?fs w2))"
    by (intro runs_removeFiles runs_refl order.trans [OF rm_commands C(1)], unfold installedFiles_def, rule set_subset_Cons)
  then have "\<not> present (Path nativeUnitFile) w3" using keep unit f by simp
  with fs have at3: "\<forall>f\<in>set installedFiles. \<not> present (Path f) w3" by (simp add: installedFiles_def)
  have P: "(\<lambda>d. [''rm'', ''-rf'', d]) ` set [''/etc/deeplo'', ''/var/lib/deeplo''] \<subseteq> ?A"
      "[''userdel'', ''deeplo''] \<in> ?A" "[''groupdel'', ''deeplo''] \<in> ?A"
    using C(2) by (auto simp: purgeCommands_def purgedDirs_def)
  show "\<forall>f\<in>set installedFiles. \<not> present (Path f) w'"
  proof (cases "purges purge answer")
    case True
    then obtain w4 where w4: "removeDirs ma [''/etc/deeplo'', ''/var/lib/deeplo''] w3 = (None, w4)"
      "w' = snd (privileged ma [''groupdel'', ''deeplo''] (snd (privileged ma [''userdel'', ''deeplo''] w4)))"
      using y by blast
    have "runs ma ?A w3 (snd (removeDirs ma [''/etc/deeplo'', ''/var/lib/deeplo''] w3))"
      by (rule runs_removeDirs [OF P(1) runs_refl])
    then have "runs ma ?A w3 w'" unfolding w4 using P by (intro runs_privileged) simp_all
    then show ?thesis using keep at3 by blast
  next
    case False
    then show ?thesis using n at3 by simp
  qed
  assume "purges purge answer"
  then obtain w4 where w4: "removeDirs ma [''/etc/deeplo'', ''/var/lib/deeplo''] w3 = (None, w4)"
    "w' = snd (privileged ma [''groupdel'', ''deeplo''] (snd (privileged ma [''userdel'', ''deeplo''] w4)))"
    using y by blast
  have "runs ma ?A w4 w'" unfolding w4(2) using P(2,3) by (intro runs_privileged runs_refl)
  moreover have "\<forall>d\<in>set purgedDirs. \<forall>p. inside d p \<longrightarrow> \<not> present (Path p) w4"
    using removeDirs_gone [OF assms(1) _ w4(1)] by (simp add: purgedDirs_def)
  ultimately show "\<forall>d\<in>set purgedDirs. \<forall>p. inside d p \<longrightarrow> \<not> present (Path p) w'" using keep by blast
qed

lemma uninstall_account:
  assumes "machineLaws ma present" "runUninstall ma purge answer w = (None, w')" "purges purge answer"
  shows "\<exists>w1. let u = privileged ma [''userdel'', ''deeplo''] w1; g = privileged ma [''groupdel'', ''deeplo''] (snd u) in
           w' = snd g \<and> (fst u = None \<longrightarrow> \<not> present (User ''deeplo'') w') \<and> (fst g = None \<longrightarrow> \<not> present (Group ''deeplo'') w')"
proof -
  obtain w4 where "w' = snd (privileged ma [''groupdel'', ''deeplo''] (snd (privileged ma [''userdel'', ''deeplo''] w4)))"
    using runUninstall_steps [OF assms(2)] assms(3) by metis
  then show ?thesis using removeAccount_gone [OF assms(1)] by (intro exI [of _ w4]) (simp add: Let_def)
qed

lemma uninstall_touches:
  assumes "args \<in> uninstallCommands b" "touches args it"
  shows "it \<in> Path ` set installedFiles
    \<or> b \<and> (it = User ''deeplo'' \<or> it = Group ''deeplo'' \<or> (\<exists>d\<in>set purgedDirs. \<exists>p. it = Path p \<and> inside d p))"
  using assms
  by (cases it) (auto simp: uninstallCommands_def removalCommands_def purgeCommands_def purgedDirs_def split: if_splits)

text \<open>An uninstall none of whose processes fails.\<close>

definition neverFails :: "'w machine \<Rightarrow> bool" where
  "neverFails ma \<longleftrightarrow> (ma_root ma \<or> ma_look_path ma ''sudo'')
     \<and> (\<forall>args\<in>uninstallCommands True. \<forall>run\<in>{args, ''sudo'' # args}. \<forall>w. fst (ma_exec ma run w) = None)"

lemma neverFails_privileged:
  "\<lbrakk>neverFails ma; args \<in> uninstallCommands True\<rbrakk> \<Longrightarrow> fst (privileged ma args w) = None"
  unfolding neverFails_def privileged_def by (cases "ma_root ma") simp_all

lemma removeFiles_ok:
  "\<lbrakk>neverFails ma; set fs \<subseteq> set installedFiles\<rbrakk> \<Longrightarrow> fst (removeFiles ma fs w) = None"
proof (induction fs arbitrary: w)
  case (Cons f fs)
  have "[''rm'', ''-f'', f] \<in> uninstallCommands True"
    using rm_commands [OF Cons.prems(2)] by (simp add: uninstallCommands_def)
  then have "fst (removeFile ma f v) = None" for v
    using neverFails_privileged [OF Cons.prems(1)] by (simp add: removeFile_def split: prod.split option.split) (metis fst_conv option.distinct(1))
  then obtain w1 where "removeFile ma f w = (None, w1)" by (metis prod.exhaust fst_conv)
  then show ?case using Cons by simp
qed simp

lemma removeDirs_ok:
  "\<lbrakk>neverFails ma; set ds \<subseteq> set purgedDirs\<rbrakk> \<Longrightarrow> fst (removeDirs ma ds w) = None"
proof (induction ds arbitrary: w)
  case (Cons d ds)
  then have "[''rm'', ''-rf'', d] \<in> uninstallCommands True" by (simp add: uninstallCommands_def purgeCommands_def)
  then obtain w1 where "privileged ma [''rm'', ''-rf'', d] w = (None, w1)"
    using neverFails_privileged [OF Cons.prems(1)] by (metis prod.exhaust fst_conv)
  then show ?case using Cons by simp
qed simp

lemma stopForUninstall_ok: "neverFails ma \<Longrightarrow> fst (stopForUninstall ma w) = None"
proof -
  assume n: "neverFails ma"
  have "[''systemctl'', ''stop'', nativeUnitName] \<in> uninstallCommands True"
    by (simp add: uninstallCommands_def removalCommands_def)
  then have "fst (runSystemctlPrivileged ma [''stop'', nativeUnitName] v) = None" for v
    using n unfolding neverFails_def runSystemctlPrivileged_def by (cases "ma_root ma") simp_all
  note st = this
  obtain active w1 where q: "systemctlExitZero ma [''is-active'', ''--quiet'', nativeUnitName] w = (active, w1)"
    by (rule prod.exhaust)
  obtain e w2 where r: "runSystemctlPrivileged ma [''stop'', nativeUnitName] w1 = (e, w2)" by (rule prod.exhaust)
  then have "e = None" using st [of w1] by simp
  then show ?thesis unfolding stopForUninstall_def Let_def q prod.case r
    by (cases active) (simp_all split: prod.split)
qed

lemma runUninstall_ok:
  assumes "neverFails ma"
  shows "fst (runUninstall ma purge answer w) = None"
proof -
  let ?fs = "(installDir @ ''/deeplo'') # map (\<lambda>(shell, dir, file). file) shellCompletions"
  obtain w1 where 1: "stopForUninstall ma w = (None, w1)" using stopForUninstall_ok [OF assms] by (metis prod.exhaust fst_conv)
  have sub: "set ?fs \<subseteq> set installedFiles" "set [nativeUnitFile] \<subseteq> set installedFiles"
    unfolding installedFiles_def by (rule set_subset_Cons) simp
  have unit: "\<exists>v. removeFile ma nativeUnitFile w1 = (None, v)" if "ma_stat ma nativeUnitFile w1"
    using removeFiles_ok [OF assms sub(2), of w1] that by (cases "removeFile ma nativeUnitFile w1") (auto split: option.splits)
  obtain w2 where 2: "(if ma_stat ma nativeUnitFile w1 then
        (case removeFile ma nativeUnitFile w1 of
           (Some e, w2) \<Rightarrow> (Some e, w2)
         | (None, w2) \<Rightarrow> (None, snd (runSystemctlPrivileged ma [''daemon-reload''] w2)))
      else (None, w1)) = (None, w2)"
    using unit by (cases "ma_stat ma nativeUnitFile w1") auto
  obtain w3 where 3: "removeFiles ma ?fs w2 = (None, w3)" using removeFiles_ok [OF assms sub(1)] by (metis prod.exhaust fst_conv)
  have "set [''/etc/deeplo'', ''/var/lib/deeplo''] \<subseteq> set purgedDirs" by (simp add: purgedDirs_def)
  then obtain w4 where 4: "removeDirs ma [''/etc/deeplo'', ''/var/lib/deeplo''] w3 = (None, w4)"
    using removeDirs_ok [OF assms] by (metis prod.exhaust fst_conv)
  show ?thesis unfolding runUninstall_def 1 prod.case option.case 2 3 4 by simp
qed


text \<open>A host given by the items it holds; some of its processes fail.\<close>

definition hostMachine :: "bool \<Rightarrow> (gostring list \<Rightarrow> bool) \<Rightarrow> item list machine" where
  "hostMachine root fails =
     \<lparr>ma_root = root, ma_look_path = (\<lambda>_. True), ma_stat = (\<lambda>p w. Path p \<in> set w),
      ma_exec = (\<lambda>run w. let args = (if take 1 run = [''sudo''] then drop 1 run else run) in
        if fails args then (Some ''exit status 1'', w) else (None, filter (\<lambda>it. \<not> touches args it) w))\<rparr>"

lemma hostMachine_laws: "machineLaws (hostMachine root fails) (\<lambda>it w. it \<in> set w)"
proof -
  have "take 1 args \<noteq> [''sudo'']" if "args \<in> uninstallCommands True" for args
    using that by (auto simp: uninstallCommands_def removalCommands_def purgeCommands_def)
  then show ?thesis by (auto simp: machineLaws_def hostMachine_def clears_def Let_def)
qed

definition demoInstalled :: "item list" where
  "demoInstalled = [Path nativeUnitFile, Path (installDir @ ''/deeplo''), Path ''/etc/deeplo/config.yml'', User ''deeplo'', Path ''/etc/hosts'']"


text \<open>A directory that cannot be removed makes the purge fail.\<close>

lemma uninstall_purge_failure:
  "fst (runUninstall (hostMachine True (\<lambda>args. args = [''rm'', ''-rf'', ''/etc/deeplo''])) True [] demoInstalled) \<noteq> None"
  by code_simp

end
