(* ===== verification/Admin_Server.thy ===== *)
theory Admin_Server
  imports Api Compose "HOL-Library.Word" "HOL-Library.Numeral_Type"
begin

text \<open>
  The socket of the administration API (\<open>internal/api/server.go\<close>: \<open>Start\<close>, \<open>chownToGroup\<close>, \<open>Shutdown\<close>) over a
  file tree with owners, groups and modes, and the methods of the client (\<open>internal/client\<close>) over a
  connection to it. The outcome of each system call is a parameter; what it does when it succeeds is
  modelled.
\<close>

unbundle bit_operations_syntax

section \<open>Files, owners and modes\<close>

datatype node_kind = Directory | RegularFile | SocketFile bool \<comment> \<open>is a listener behind it\<close>

record file_node =
  nd_kind :: node_kind
  nd_mode :: "12 word"
  nd_owner :: int
  nd_group :: int

type_synonym file_tree = "gostring \<rightharpoonup> file_node"

record admin_io =
  ai_uid :: int
  ai_gid :: int
  ai_umask :: "12 word"
  ai_remove_fails :: "gostring \<Rightarrow> bool"
  ai_mkdir :: "gostring \<Rightarrow> goerror"
  ai_listen :: goerror
  ai_chmod :: goerror
  ai_lookup_group :: "gostring \<Rightarrow> gostring + gostring"
  ai_chown :: "gostring \<Rightarrow> goerror"
  ai_http_shutdown :: goerror

text \<open>The directories above a path; a path is at most as deep as it is long.\<close>

fun dirsAbove :: "nat \<Rightarrow> gostring \<Rightarrow> gostring list" where
  "dirsAbove 0 p = []"
| "dirsAbove (Suc n) p = (let d = pathDir p in if d = p then [] else d # dirsAbove n d)"

definition parents :: "gostring \<Rightarrow> gostring list" where
  "parents p = dirsAbove (Suc (length p)) p"

definition osRemove :: "admin_io \<Rightarrow> gostring \<Rightarrow> file_tree \<Rightarrow> file_tree" where
  "osRemove io p fs = (if ai_remove_fails io p then fs else fs(p := None))"

text \<open>\<open>os.MkdirAll\<close>, from the top.\<close>

fun makeDirs :: "admin_io \<Rightarrow> 12 word \<Rightarrow> gostring list \<Rightarrow> file_tree \<Rightarrow> goerror \<times> file_tree" where
  "makeDirs io m [] fs = (None, fs)"
| "makeDirs io m (d # ds) fs =
     (case fs d of
        Some nd \<Rightarrow> if nd_kind nd = Directory then makeDirs io m ds fs else (Some (''mkdir '' @ d @ '': not a directory''), fs)
      | None \<Rightarrow>
          (case ai_mkdir io d of
             Some e \<Rightarrow> (Some e, fs)
           | None \<Rightarrow> makeDirs io m ds
               (fs(d \<mapsto> \<lparr>nd_kind = Directory, nd_mode = m AND NOT (ai_umask io), nd_owner = ai_uid io, nd_group = ai_gid io\<rparr>))))"

text \<open>A file that stands at the path makes \<open>bind\<close> fail.\<close>

definition listenUnix :: "admin_io \<Rightarrow> gostring \<Rightarrow> file_tree \<Rightarrow> goerror \<times> file_tree" where
  "listenUnix io p fs =
     (if fs p \<noteq> None then (Some ''bind: address already in use'', fs)
      else (case ai_listen io of
              Some e \<Rightarrow> (Some e, fs)
            | None \<Rightarrow> (None, fs(p \<mapsto> \<lparr>nd_kind = SocketFile True, nd_mode = 0x1FF AND NOT (ai_umask io),
                                   nd_owner = ai_uid io, nd_group = ai_gid io\<rparr>))))"

text \<open>Closing a listener removes its file.\<close>

definition closeListener :: "admin_io \<Rightarrow> gostring \<Rightarrow> file_tree \<Rightarrow> file_tree" where
  "closeListener io p fs =
     osRemove io p (case fs p of
                      Some nd \<Rightarrow> if nd_kind nd = SocketFile True then fs(p \<mapsto> nd\<lparr>nd_kind := SocketFile False\<rparr>) else fs
                    | None \<Rightarrow> fs)"

definition setGroupOf :: "gostring \<Rightarrow> int \<Rightarrow> file_tree \<Rightarrow> file_tree" where
  "setGroupOf p g fs = fs(p := map_option (\<lambda>nd. nd\<lparr>nd_group := g\<rparr>) (fs p))"

definition setModeOf :: "gostring \<Rightarrow> 12 word \<Rightarrow> file_tree \<Rightarrow> file_tree" where
  "setModeOf p m fs = fs(p := map_option (\<lambda>nd. nd\<lparr>nd_mode := m\<rparr>) (fs p))"

section \<open>The server's socket\<close>

definition chownToGroup :: "admin_io \<Rightarrow> gostring \<Rightarrow> gostring \<Rightarrow> file_tree \<Rightarrow> goerror \<times> file_tree" where
  "chownToGroup io socketPath groupName fs =
     (case ai_lookup_group io groupName of
        Inl e \<Rightarrow> (Some (''lookup group '' @ goQuote groupName @ '': '' @ e), fs)
      | Inr gid \<Rightarrow>
          (case atoi gid of
             None \<Rightarrow> (Some (''parse gid '' @ goQuote gid @ '': invalid''), fs)
           | Some g \<Rightarrow>
               (case ai_chown io socketPath of
                  Some e \<Rightarrow> (Some (''chown socket: '' @ e), fs)
                | None \<Rightarrow>
                    (let fs1 = setGroupOf socketPath g fs in
                     case ai_chown io (pathDir socketPath) of
                       Some e \<Rightarrow> (Some (''chown socket dir: '' @ e), fs1)
                     | None \<Rightarrow> (None, setGroupOf (pathDir socketPath) g fs1)))))"

text \<open>\<open>Start\<close>: its error, the warning it logs, and the files; 0750 and 0660.\<close>

definition startAdmin :: "admin_io \<Rightarrow> gostring \<Rightarrow> gostring \<Rightarrow> file_tree \<Rightarrow> goerror \<times> goerror \<times> file_tree" where
  "startAdmin io socketPath adminGroup fs =
     (let fs1 = osRemove io socketPath fs in
      case makeDirs io 0x1E8 (rev (parents socketPath)) fs1 of
        (Some e, fs2) \<Rightarrow> (Some (''create socket dir: '' @ e), None, fs2)
      | (None, fs2) \<Rightarrow>
          (case listenUnix io socketPath fs2 of
             (Some e, fs3) \<Rightarrow> (Some (''listen on '' @ socketPath @ '': '' @ e), None, fs3)
           | (None, fs3) \<Rightarrow>
               (case ai_chmod io of
                  Some e \<Rightarrow> (Some (''chmod socket: '' @ e), None, closeListener io socketPath fs3)
                | None \<Rightarrow>
                    (let fs4 = setModeOf socketPath 0x1B0 fs3 in
                     if adminGroup \<noteq> [] then
                       (case chownToGroup io socketPath adminGroup fs4 of (warn, fs5) \<Rightarrow> (None, warn, fs5))
                     else (None, None, fs4)))))"

text \<open>\<open>Shutdown\<close>: the HTTP server closes its listener and waits for the connections.\<close>

definition shutdownAdmin :: "admin_io \<Rightarrow> gostring \<Rightarrow> file_tree \<Rightarrow> goerror \<times> file_tree" where
  "shutdownAdmin io socketPath fs =
     (ai_http_shutdown io, osRemove io socketPath (closeListener io socketPath fs))"

section \<open>Who can connect\<close>

record unix_user =
  us_uid :: int
  us_groups :: "int list"

text \<open>Bit 0 of a class is search, bit 1 is write; the classes are owner, group and others.\<close>

definition permits :: "unix_user \<Rightarrow> file_node \<Rightarrow> nat \<Rightarrow> bool" where
  "permits u nd k \<longleftrightarrow>
     us_uid u = 0
     \<or> bit (nd_mode nd) (if nd_owner nd = us_uid u then 6 + k else if nd_group nd \<in> set (us_groups u) then 3 + k else k)"

definition canSearch :: "unix_user \<Rightarrow> file_tree \<Rightarrow> gostring \<Rightarrow> bool" where
  "canSearch u fs d \<longleftrightarrow> (case fs d of None \<Rightarrow> False | Some nd \<Rightarrow> permits u nd 0)"

definition connectError :: "unix_user \<Rightarrow> file_tree \<Rightarrow> gostring \<Rightarrow> goerror" where
  "connectError u fs p =
     (if \<not> list_all (canSearch u fs) (parents p) then Some ''connect: permission denied''
      else (case fs p of
              None \<Rightarrow> Some ''connect: no such file or directory''
            | Some nd \<Rightarrow>
                if \<not> permits u nd 1 then Some ''connect: permission denied''
                else if nd_kind nd = SocketFile True then None else Some ''connect: connection refused''))"

section \<open>The client\<close>

text \<open>What carries a request over the socket and brings the answer, or the error of the dialer.\<close>

type_synonym 'w sender = "api_request \<Rightarrow> 'w \<Rightarrow> (gostring + api_response) \<times> 'w"

definition overSocket :: "unix_user \<Rightarrow> file_tree \<Rightarrow> gostring \<Rightarrow> 'w api_config \<Rightarrow> 'w sender" where
  "overSocket u fs p ac rq w =
     (case connectError u fs p of
        Some e \<Rightarrow> (Inl (''dial unix '' @ p @ '': '' @ e), w)
      | None \<Rightarrow> (case serveApi ac rq w of (r, w') \<Rightarrow> (Inr r, w')))"

definition dialErr :: "gostring \<Rightarrow> gostring \<Rightarrow> gostring" where
  "dialErr socket e =
     ''daemon not reachable at '' @ socket @ '': '' @ e @ [CHR 0x0A] @ ''  Is the daemon running? Run: deeplo health''"

definition clientDo :: "'w sender \<Rightarrow> gostring \<Rightarrow> gostring \<Rightarrow> gostring \<Rightarrow> 'w \<Rightarrow> (gostring + api_response) \<times> 'w" where
  "clientDo send socket httpMethod path w =
     (case send (requestTo httpMethod path) w of
        (Inl e, w') \<Rightarrow> (Inl (dialErr socket e), w')
      | (Inr r, w') \<Rightarrow> (Inr r, w'))"

definition clientGet :: "'w sender \<Rightarrow> gostring \<Rightarrow> gostring \<Rightarrow> 'w \<Rightarrow> (gostring + api_body) \<times> 'w" where
  "clientGet send socket path w =
     (case clientDo send socket ''GET'' path w of
        (Inl e, w') \<Rightarrow> (Inl e, w')
      | (Inr r, w') \<Rightarrow> (decodeResponse r, w'))"

definition clientPost :: "'w sender \<Rightarrow> gostring \<Rightarrow> gostring \<Rightarrow> 'w \<Rightarrow> (gostring + api_body) \<times> 'w" where
  "clientPost send socket path w =
     (case clientDo send socket ''POST'' path w of
        (Inl e, w') \<Rightarrow> (Inl e, w')
      | (Inr r, w') \<Rightarrow> (decodeResponse r, w'))"

definition clientHealth :: "'w sender \<Rightarrow> gostring \<Rightarrow> 'w \<Rightarrow> (gostring + api_body) \<times> 'w" where
  "clientHealth send socket = clientGet send socket ''/api/v1/health''"

definition clientDeployments :: "'w sender \<Rightarrow> gostring \<Rightarrow> 'w \<Rightarrow> (gostring + api_body) \<times> 'w" where
  "clientDeployments send socket = clientGet send socket ''/api/v1/deployments''"

definition clientRefresh :: "'w sender \<Rightarrow> gostring \<Rightarrow> 'w \<Rightarrow> (gostring + api_body) \<times> 'w" where
  "clientRefresh send socket = clientPost send socket ''/api/v1/refresh''"

definition clientProbe :: "'w sender \<Rightarrow> gostring \<Rightarrow> 'w \<Rightarrow> (gostring + api_body) \<times> 'w" where
  "clientProbe send socket = clientPost send socket ''/api/v1/probe''"

definition clientReload :: "'w sender \<Rightarrow> gostring \<Rightarrow> 'w \<Rightarrow> (gostring + api_body) \<times> 'w" where
  "clientReload send socket = clientPost send socket ''/api/v1/reload''"

text \<open>An answer reaches the health check of \<open>daemonReachable\<close> in its two seconds or not at all.\<close>

definition daemonReachable :: "'w sender \<Rightarrow> gostring \<Rightarrow> 'w \<Rightarrow> bool \<times> 'w" where
  "daemonReachable send socket w = (case clientHealth send socket w of (r, w') \<Rightarrow> (\<not> isl r, w'))"

section \<open>The laws of the socket\<close>

lemma makeDirs_at:
  "makeDirs io m ds fs = (e, fs') \<Longrightarrow> fs' p = fs p \<or> (p \<in> set ds \<and> fs p = None
     \<and> fs' p = Some \<lparr>nd_kind = Directory, nd_mode = m AND NOT (ai_umask io), nd_owner = ai_uid io, nd_group = ai_gid io\<rparr>)"
proof (induction ds arbitrary: fs)
  case (Cons d ds)
  let ?nd = "\<lparr>nd_kind = Directory, nd_mode = m AND NOT (ai_umask io), nd_owner = ai_uid io, nd_group = ai_gid io\<rparr>"
  consider (old) "fs' = fs" | (next') "makeDirs io m ds fs = (e, fs')" | (new) "fs d = None" "makeDirs io m ds (fs(d \<mapsto> ?nd)) = (e, fs')"
    using Cons.prems by (auto split: option.splits if_splits)
  then show ?case
  proof cases
    case new
    from Cons.IH [OF new(2)] show ?thesis using new(1) by (cases "p = d") auto
  qed (use Cons.IH in auto)
qed simp

lemma makeDirs_keep: "makeDirs io m ds fs = (e, fs') \<Longrightarrow> fs p = Some nd \<Longrightarrow> fs' p = Some nd"
  using makeDirs_at [of io m ds fs e fs' p] by auto

lemma makeDirs_all:
  "makeDirs io m ds fs = (None, fs') \<Longrightarrow> d \<in> set ds \<Longrightarrow> \<exists>nd. fs' d = Some nd \<and> nd_kind nd = Directory"
proof (induction ds arbitrary: fs)
  case (Cons d' ds)
  obtain g where g: "makeDirs io m ds g = (None, fs')" "\<exists>nd. g d' = Some nd \<and> nd_kind nd = Directory"
    using Cons.prems(1) by (fastforce split: option.splits if_splits)
  then have "\<exists>nd. fs' d' = Some nd \<and> nd_kind nd = Directory" using makeDirs_keep by blast
  then show ?case using Cons.IH [OF g(1)] Cons.prems(2) by auto
qed simp

text \<open>How a start ends.\<close>

lemma startAdmin_cases:
  assumes "startAdmin io p g fs = (err, warn, fs')"
  obtains (dir) e where "makeDirs io 0x1E8 (rev (parents p)) (osRemove io p fs) = (Some e, fs')" "err \<noteq> None"
    | (listen) "makeDirs io 0x1E8 (rev (parents p)) (osRemove io p fs) = (None, fs')" "err \<noteq> None"
    | (chmod) fs2 where "makeDirs io 0x1E8 (rev (parents p)) (osRemove io p fs) = (None, fs2)" "fs2 p = None" "err \<noteq> None"
        "fs' = closeListener io p (fs2(p \<mapsto> \<lparr>nd_kind = SocketFile True, nd_mode = 0x1FF AND NOT (ai_umask io),
             nd_owner = ai_uid io, nd_group = ai_gid io\<rparr>))"
    | (listening) fs2 where "makeDirs io 0x1E8 (rev (parents p)) (osRemove io p fs) = (None, fs2)" "fs2 p = None" "err = None"
        "(warn, fs') = (if g \<noteq> [] then chownToGroup io p g (fs2(p \<mapsto> \<lparr>nd_kind = SocketFile True, nd_mode = 0x1B0,
             nd_owner = ai_uid io, nd_group = ai_gid io\<rparr>))
           else (None, fs2(p \<mapsto> \<lparr>nd_kind = SocketFile True, nd_mode = 0x1B0, nd_owner = ai_uid io, nd_group = ai_gid io\<rparr>)))"
proof -
  obtain e2 fs2 where m: "makeDirs io 0x1E8 (rev (parents p)) (osRemove io p fs) = (e2, fs2)" by (rule prod.exhaust)
  show ?thesis
  proof (cases e2)
    case (Some e)
    then show ?thesis using assms m by (intro dir [of e]) (auto simp: startAdmin_def)
  next
    case e2: None
    show ?thesis
    proof (cases "fs2 p = None \<and> ai_listen io = None")
      case False
      then show ?thesis using assms m e2
        by (intro listen) (auto simp: startAdmin_def listenUnix_def split: option.splits if_splits)
    next
      case True
      show ?thesis
      proof (cases "ai_chmod io")
        case (Some e)
        then show ?thesis using assms m e2 True by (intro chmod [of fs2]) (auto simp: startAdmin_def listenUnix_def)
      next
        case None
        then show ?thesis using assms m e2 True
          by (intro listening [of fs2]) (auto simp: startAdmin_def listenUnix_def setModeOf_def Let_def split: prod.splits if_splits)
      qed
    qed
  qed
qed

text \<open>The group that the name of the configuration stands for.\<close>

definition resolvedGroup :: "admin_io \<Rightarrow> gostring \<Rightarrow> int option" where
  "resolvedGroup io g = (case ai_lookup_group io g of Inl e \<Rightarrow> None | Inr s \<Rightarrow> atoi s)"

lemma chownToGroup_at:
  assumes "chownToGroup io p g fs = (warn, fs')"
  shows "fs' q = fs q
    \<or> (\<exists>gid. resolvedGroup io g = Some gid \<and> (q = p \<or> q = pathDir p) \<and> fs' q = map_option (\<lambda>nd. nd\<lparr>nd_group := gid\<rparr>) (fs q))"
  using assms
  by (auto simp: chownToGroup_def resolvedGroup_def setGroupOf_def Let_def option.map_comp comp_def
      split: sum.splits option.splits if_splits)

lemma chownToGroup_done:
  assumes "chownToGroup io p g fs = (None, fs')" "q = p \<or> q = pathDir p"
  shows "\<exists>gid. resolvedGroup io g = Some gid \<and> fs' q = map_option (\<lambda>nd. nd\<lparr>nd_group := gid\<rparr>) (fs q)"
  using assms
  by (auto simp: chownToGroup_def resolvedGroup_def setGroupOf_def Let_def option.map_comp comp_def
      split: sum.splits option.splits if_splits)

lemma mode_bits:
  "bit (0x1B0 :: 12 word) 7" "bit (0x1B0 :: 12 word) 4" "\<not> bit (0x1B0 :: 12 word) 1" "bit (0x1E8 :: 12 word) 3"
  by simp_all

text \<open>The socket of a server that started.\<close>

lemma startAdmin_socket:
  assumes "startAdmin io p g fs = (None, warn, fs')"
  shows "\<exists>nd. fs' p = Some nd \<and> nd_kind nd = SocketFile True \<and> nd_mode nd = 0x1B0 \<and> nd_owner nd = ai_uid io
     \<and> (nd_group nd = ai_gid io \<or> g \<noteq> [] \<and> resolvedGroup io g = Some (nd_group nd))
     \<and> (g \<noteq> [] \<and> warn = None \<longrightarrow> resolvedGroup io g = Some (nd_group nd))"
  using assms
proof (cases rule: startAdmin_cases)
  case (listening fs2)
  let ?nd = "\<lparr>nd_kind = SocketFile True, nd_mode = 0x1B0, nd_owner = ai_uid io, nd_group = ai_gid io\<rparr>"
  show ?thesis
  proof (cases "g = []")
    case True
    then show ?thesis using listening(4) by simp
  next
    case False
    then have c: "chownToGroup io p g (fs2(p \<mapsto> ?nd)) = (warn, fs')" using listening(4) by simp
    show ?thesis
    proof (cases warn)
      case None
      then show ?thesis using chownToGroup_done [OF c [unfolded None], of p] False by auto
    next
      case (Some e)
      then show ?thesis using chownToGroup_at [OF c, of p] False by auto
    qed
  qed
qed simp_all

lemma startAdmin_dir:
  assumes "startAdmin io p g fs = (None, None, fs')" and "g \<noteq> []" and "fs (pathDir p) = None" and "pathDir p \<noteq> p"
  shows "\<exists>nd. fs' (pathDir p) = Some nd \<and> nd_mode nd = 0x1E8 AND NOT (ai_umask io) \<and> nd_owner nd = ai_uid io
     \<and> resolvedGroup io g = Some (nd_group nd)"
  using assms(1)
proof (cases rule: startAdmin_cases)
  case (listening fs2)
  have "pathDir p \<in> set (rev (parents p))" using assms(4) by (simp add: parents_def Let_def)
  then have "\<exists>nd. fs2 (pathDir p) = Some nd" using makeDirs_all [OF listening(1)] by blast
  moreover have "osRemove io p fs (pathDir p) = None" using assms(3,4) by (simp add: osRemove_def)
  ultimately have d: "fs2 (pathDir p) = Some \<lparr>nd_kind = Directory, nd_mode = 0x1E8 AND NOT (ai_umask io),
      nd_owner = ai_uid io, nd_group = ai_gid io\<rparr>"
    using makeDirs_at [OF listening(1), of "pathDir p"] by auto
  obtain c where "chownToGroup io p g (fs2(p \<mapsto> c)) = (None, fs')" using listening(4) assms(2) by auto
  from chownToGroup_done [OF this, of "pathDir p"] show ?thesis using d assms(4) by auto
qed simp_all

text \<open>
  C22. Only those whom the operator let in reach the administration API: after a start, the socket has the
  mode 0660, and whoever can connect is root, the user of the daemon, or a member of its group or of the
  configured administration group; and if no warning was logged, every member of the administration
  group who can enter the directories above the socket can connect, and can enter the directory of the socket
  if the start made it and the umask does not forbid it.
\<close>

theorem admin_socket_access:
  assumes "startAdmin io p g fs = (None, warn, fs')"
  shows "(\<exists>nd. fs' p = Some nd \<and> nd_kind nd = SocketFile True \<and> nd_mode nd = 0x1B0)
    \<and> (connectError u fs' p = None \<longrightarrow>
         us_uid u = 0 \<or> us_uid u = ai_uid io
         \<or> (\<exists>x\<in>set (us_groups u). x = ai_gid io \<or> g \<noteq> [] \<and> resolvedGroup io g = Some x))
    \<and> (g \<noteq> [] \<and> warn = None \<and> resolvedGroup io g = Some gid \<and> gid \<in> set (us_groups u)
         \<and> list_all (canSearch u fs') (parents p) \<longrightarrow> connectError u fs' p = None)
    \<and> (g \<noteq> [] \<and> warn = None \<and> resolvedGroup io g = Some gid \<and> gid \<in> set (us_groups u) \<and> us_uid u \<noteq> ai_uid io
         \<and> fs (pathDir p) = None \<and> pathDir p \<noteq> p \<and> \<not> bit (ai_umask io) 3 \<longrightarrow> canSearch u fs' (pathDir p))"
proof -
  obtain nd where nd: "fs' p = Some nd" "nd_kind nd = SocketFile True" "nd_mode nd = 0x1B0" "nd_owner nd = ai_uid io"
    "nd_group nd = ai_gid io \<or> g \<noteq> [] \<and> resolvedGroup io g = Some (nd_group nd)"
    "g \<noteq> [] \<and> warn = None \<longrightarrow> resolvedGroup io g = Some (nd_group nd)"
    using startAdmin_socket [OF assms] by blast
  have p: "permits u nd 1 \<longleftrightarrow> us_uid u = 0 \<or> us_uid u = ai_uid io \<or> nd_group nd \<in> set (us_groups u)"
    using mode_bits by (simp add: permits_def nd(3,4))
  have c: "connectError u fs' p = None \<longleftrightarrow> list_all (canSearch u fs') (parents p) \<and> permits u nd 1"
    using nd(1,2) by (simp add: connectError_def)
  have d: "canSearch u fs' (pathDir p)"
    if "g \<noteq> []" "warn = None" "resolvedGroup io g = Some gid" "gid \<in> set (us_groups u)" "us_uid u \<noteq> ai_uid io"
      "fs (pathDir p) = None" "pathDir p \<noteq> p" "\<not> bit (ai_umask io) 3"
    using startAdmin_dir [of io p g fs fs'] assms that mode_bits(4)
    by (auto simp: canSearch_def permits_def bit_and_iff bit_not_iff)
  show ?thesis unfolding c p using nd d by auto
qed

definition demoTree :: file_tree where
  "demoTree = [''/'' \<mapsto> \<lparr>nd_kind = Directory, nd_mode = 0x1ED, nd_owner = 0, nd_group = 0\<rparr>,
     ''/run'' \<mapsto> \<lparr>nd_kind = Directory, nd_mode = 0x1ED, nd_owner = 0, nd_group = 0\<rparr>]"

definition demoAdmin :: admin_io where
  "demoAdmin = \<lparr>ai_uid = 999, ai_gid = 998, ai_umask = 0x12, ai_remove_fails = (\<lambda>p. False), ai_mkdir = (\<lambda>p. None),
     ai_listen = None, ai_chmod = None, ai_lookup_group = (\<lambda>g. if g = ''ops'' then Inr ''1001'' else Inl ''unknown group''),
     ai_chown = (\<lambda>p. None), ai_http_shutdown = None\<rparr>"

definition demoSocket :: gostring where "demoSocket = ''/run/deeplo/deeplo.sock''"

definition demoOperator :: unix_user where "demoOperator = \<lparr>us_uid = 1000, us_groups = [1000, 1001]\<rparr>"
definition demoOutsider :: unix_user where "demoOutsider = \<lparr>us_uid = 1002, us_groups = [1002]\<rparr>"

lemma demo_parents: "parents demoSocket = [''/run/deeplo'', ''/run'', ''/'']" "pathDir demoSocket = ''/run/deeplo''"
  "demoSocket \<notin> set (parents demoSocket)"
  by code_simp+

lemma demo_admin_start: "\<exists>fs'. startAdmin demoAdmin demoSocket ''ops'' demoTree = (None, None, fs')"
proof -
  have a: "atoi ''1001'' = Some 1001" by code_simp
  show ?thesis
    unfolding startAdmin_def demo_parents chownToGroup_def
    by (simp add: demoAdmin_def demoTree_def osRemove_def listenUnix_def a Let_def) (simp add: demoSocket_def)
qed

lemma admin_socket_access_witness:
  "\<exists>fs'. startAdmin demoAdmin demoSocket ''ops'' demoTree = (None, None, fs') \<and> connectError demoOutsider fs' demoSocket \<noteq> None"
proof -
  obtain fs' where s: "startAdmin demoAdmin demoSocket ''ops'' demoTree = (None, None, fs')" using demo_admin_start by blast
  have "resolvedGroup demoAdmin ''ops'' = Some 1001" unfolding resolvedGroup_def demoAdmin_def by code_simp
  then show ?thesis using s admin_socket_access [OF s, of demoOutsider]
    by (auto simp: demoOutsider_def demoAdmin_def)
qed

text \<open>A failed start leaves no listener of its own.\<close>

lemma startAdmin_failed:
  assumes "startAdmin io p g fs = (Some e, warn, fs')" and "fs' p = Some nd" and "nd_kind nd = SocketFile True"
  shows "fs p = Some nd"
  using assms(1)
proof (cases rule: startAdmin_cases)
  case dir
  then show ?thesis using makeDirs_at [OF dir(1), of p] assms(2,3) by (auto simp: osRemove_def split: if_splits)
next
  case listen
  then show ?thesis using makeDirs_at [OF listen(1), of p] assms(2,3) by (auto simp: osRemove_def split: if_splits)
next
  case (chmod fs2)
  then show ?thesis using assms(2,3) by (auto simp: closeListener_def osRemove_def split: if_splits)
qed simp

text \<open>
  A daemon can be started where another one died: whatever file stands at the path of the socket, a
  start succeeds with a listener of its own if the file can be removed and the system calls succeed;
  and the shutdown leaves no file at the path and no other file changed than the directories above it.
\<close>

theorem admin_socket_replaced:
  assumes "\<not> ai_remove_fails io p" and "ai_listen io = None" and "ai_chmod io = None" and "p \<notin> set (parents p)"
    and "\<forall>d\<in>set (parents p). case fs d of None \<Rightarrow> ai_mkdir io d = None | Some nd \<Rightarrow> nd_kind nd = Directory"
  shows "\<exists>warn fs' nd. startAdmin io p g fs = (None, warn, fs') \<and> fs' p = Some nd \<and> nd_kind nd = SocketFile True
    \<and> (\<exists>fs''. shutdownAdmin io p fs' = (ai_http_shutdown io, fs'') \<and> fs'' p = None
         \<and> (\<forall>q. q \<noteq> p \<and> q \<notin> set (parents p) \<longrightarrow> fs'' q = fs q))"
proof -
  have mk: "\<exists>fs2. makeDirs io m ds h = (None, fs2)"
    if "\<forall>d\<in>set ds. case h d of None \<Rightarrow> ai_mkdir io d = None | Some nd \<Rightarrow> nd_kind nd = Directory" for m ds h
    using that by (induction io m ds h rule: makeDirs.induct) (auto split: option.splits)
  have "\<forall>d\<in>set (rev (parents p)). case osRemove io p fs d of None \<Rightarrow> ai_mkdir io d = None | Some nd \<Rightarrow> nd_kind nd = Directory"
    using assms(1,4,5) by (auto simp: osRemove_def)
  from mk [OF this] obtain fs2 where m: "makeDirs io 0x1E8 (rev (parents p)) (osRemove io p fs) = (None, fs2)" by blast
  have p2: "fs2 p = None" using makeDirs_at [OF m, of p] assms(1,4) by (simp add: osRemove_def)
  have "fst (startAdmin io p g fs) = None"
    using m p2 assms(2,3) by (simp add: startAdmin_def listenUnix_def Let_def split: prod.split)
  then obtain warn fs' where s: "startAdmin io p g fs = (None, warn, fs')" by (metis prod.collapse)
  obtain nd where nd: "fs' p = Some nd" "nd_kind nd = SocketFile True" using startAdmin_socket [OF s] by blast
  have other: "fs' q = fs q" if "q \<noteq> p" "q \<notin> set (parents p)" for q
    using s
  proof (cases rule: startAdmin_cases)
    case (listening fs3)
    have q: "q \<noteq> pathDir p" using that by (auto simp: parents_def Let_def split: if_splits)
    have "fs3 q = fs q" using makeDirs_at [OF listening(1), of q] that by (auto simp: osRemove_def)
    then show ?thesis using listening(4) that(1) q
      by (auto split: if_splits dest: chownToGroup_at [where q = q, OF sym])
  qed simp_all
  then have "\<forall>q. q \<noteq> p \<and> q \<notin> set (parents p) \<longrightarrow> snd (shutdownAdmin io p fs') q = fs q"
    using nd by (simp add: shutdownAdmin_def closeListener_def osRemove_def)
  moreover have "snd (shutdownAdmin io p fs') p = None" using assms(1) by (simp add: shutdownAdmin_def osRemove_def)
  ultimately show ?thesis using s nd by (metis (no_types, lifting) shutdownAdmin_def snd_conv)
qed

lemma admin_socket_replaced_witness:
  "\<exists>warn fs' nd. startAdmin demoAdmin demoSocket ''ops''
       (demoTree(demoSocket \<mapsto> \<lparr>nd_kind = SocketFile False, nd_mode = 0x1B0, nd_owner = 999, nd_group = 1001\<rparr>)) = (None, warn, fs')
     \<and> fs' demoSocket = Some nd \<and> nd_kind nd = SocketFile True"
proof -
  let ?fs = "demoTree(demoSocket \<mapsto> \<lparr>nd_kind = SocketFile False, nd_mode = 0x1B0, nd_owner = 999, nd_group = 1001\<rparr>)"
  have "\<forall>d\<in>set (parents demoSocket). case ?fs d of None \<Rightarrow> ai_mkdir demoAdmin d = None | Some nd \<Rightarrow> nd_kind nd = Directory"
    unfolding demo_parents by (simp add: demoTree_def demoAdmin_def demoSocket_def)
  then show ?thesis
    using admin_socket_replaced [of demoAdmin demoSocket ?fs "''ops''"] demo_parents(3) by (auto simp: demoAdmin_def)
qed

section \<open>The laws of the client\<close>

lemma clientGet_over:
  assumes "connectError u fs p = None" and "CHR ''?'' \<notin> set path"
  shows "clientGet (overSocket u fs p ac) socket path w =
     (case serveApi ac \<lparr>rq_method = ''GET'', rq_path = path, rq_query = []\<rparr> w of (r, w') \<Rightarrow> (decodeResponse r, w'))"
  using assms by (simp add: clientGet_def clientDo_def overSocket_def requestTo_def strCut_char_none [THEN iffD2] split: prod.split)

lemma clientPost_over:
  assumes "connectError u fs p = None" and "CHR ''?'' \<notin> set path"
  shows "clientPost (overSocket u fs p ac) socket path w =
     (case serveApi ac \<lparr>rq_method = ''POST'', rq_path = path, rq_query = []\<rparr> w of (r, w') \<Rightarrow> (decodeResponse r, w'))"
  using assms by (simp add: clientPost_def clientDo_def overSocket_def requestTo_def strCut_char_none [THEN iffD2] split: prod.split)

lemma clientGet_refused:
  "connectError u fs p = Some e \<Longrightarrow>
   clientGet (overSocket u fs p ac) socket path w = (Inl (dialErr socket (''dial unix '' @ p @ '': '' @ e)), w)"
  by (simp add: clientGet_def clientDo_def overSocket_def)

lemma clientPost_refused:
  "connectError u fs p = Some e \<Longrightarrow>
   clientPost (overSocket u fs p ac) socket path w = (Inl (dialErr socket (''dial unix '' @ p @ '': '' @ e)), w)"
  by (simp add: clientPost_def clientDo_def overSocket_def)

text \<open>The error text of an operation, as the client reports it.\<close>

abbreviation reported :: "nat \<Rightarrow> gostring \<Rightarrow> gostring" where
  "reported status e \<equiv> (if e \<noteq> [] then e else ''server returned '' @ httpStatus status)"

text \<open>
  What the operator's commands do through the socket is what the daemon does: for a user who can
  connect, health, reload, refresh and probe are the daemon's own operations with their results, their
  errors and their effects, and a user who cannot connect changes nothing and is told that the daemon is
  not reachable.
\<close>

theorem client_over_socket:
  assumes "ac_reload ac = Some reloadOp" and "ac_refresh ac = Some refreshOp" and "ac_probe ac = Some probeOp"
  shows "(connectError u fs p = None \<longrightarrow>
        clientHealth (overSocket u fs p ac) p w = (Inr (HealthBody (ac_version ac) (ac_uptime ac)), w)
        \<and> clientReload (overSocket u fs p ac) p w =
            (case reloadOp w of (Some e, w') \<Rightarrow> (Inl (reported 500 e), w') | (None, w') \<Rightarrow> (Inr (ReloadBody ''config reloaded''), w'))
        \<and> clientRefresh (overSocket u fs p ac) p w = (case refreshOp w of (hs, w') \<Rightarrow> (Inr (RefreshBody hs), w'))
        \<and> clientProbe (overSocket u fs p ac) p w = (case probeOp w of (hs, w') \<Rightarrow> (Inr (ProbeBody hs), w')))
    \<and> (\<forall>e. connectError u fs p = Some e \<longrightarrow>
        list_all (\<lambda>call. call w = (Inl (dialErr p (''dial unix '' @ p @ '': '' @ e)), w))
          [clientHealth (overSocket u fs p ac) p, clientDeployments (overSocket u fs p ac) p,
           clientRefresh (overSocket u fs p ac) p, clientProbe (overSocket u fs p ac) p,
           clientReload (overSocket u fs p ac) p]
        \<and> daemonReachable (overSocket u fs p ac) p w = (False, w))"
proof -
  note defs = clientHealth_def clientDeployments_def clientRefresh_def clientProbe_def clientReload_def
  have r: "clientHealth (overSocket u fs p ac) p w = (Inr (HealthBody (ac_version ac) (ac_uptime ac)), w)"
      "clientReload (overSocket u fs p ac) p w =
            (case reloadOp w of (Some e, w') \<Rightarrow> (Inl (reported 500 e), w') | (None, w') \<Rightarrow> (Inr (ReloadBody ''config reloaded''), w'))"
      "clientRefresh (overSocket u fs p ac) p w = (case refreshOp w of (hs, w') \<Rightarrow> (Inr (RefreshBody hs), w'))"
      "clientProbe (overSocket u fs p ac) p w = (case probeOp w of (hs, w') \<Rightarrow> (Inr (ProbeBody hs), w'))"
    if "connectError u fs p = None"
    using assms that
    by (cases "reloadOp w"; cases "fst (reloadOp w)"; cases "refreshOp w"; cases "probeOp w";
        simp add: defs clientGet_over clientPost_over serveApi_def routeOf_def handleHealth_def handleReload_def
          handleRefresh_def handleProbe_def decodeResponse_def)+
  show ?thesis using r by (simp add: defs clientGet_refused clientPost_refused daemonReachable_def)
qed

lemma client_over_socket_witness:
  "clientReload (overSocket demoOperator Map.empty demoSocket
       (demoApi\<lparr>ac_reload := Some (\<lambda>w. (None, w)), ac_refresh := Some (\<lambda>w. ([], w)), ac_probe := Some (\<lambda>w. ([], w))\<rparr>)) demoSocket ()
   = (Inl (dialErr demoSocket (''dial unix '' @ demoSocket @ '': connect: permission denied'')), ())"
proof -
  have "connectError demoOperator Map.empty demoSocket = Some ''connect: permission denied''"
    by (simp add: connectError_def demo_parents canSearch_def)
  then show ?thesis
    using client_over_socket [of "demoApi\<lparr>ac_reload := Some (\<lambda>w. (None, w)), ac_refresh := Some (\<lambda>w. ([], w)),
        ac_probe := Some (\<lambda>w. ([], w))\<rparr>"] by simp
qed

end

