(* ===== verification/Cli_Commands.thy ===== *)
theory Cli_Commands
  imports Cli_System Admin_Server
begin

text \<open>
  The commands of \<open>internal/cli\<close> as a whole: the tree of commands with its help, and what each command
  prints and returns, over the client of the administration socket and the machine of \<open>Cli_System\<close>. The
  parsing of flags is the library's; a command gets its arguments and flags.
\<close>

section \<open>The tree of commands\<close>

datatype cli_command =
  Command (cmd_name: gostring) (cmd_group: gostring) (cmd_hidden: bool) (cmd_help_hidden: bool) (cmd_subs: "cli_command list")

abbreviation leaf :: "gostring \<Rightarrow> cli_command" where
  "leaf n \<equiv> Command n [] False False []"

definition inGroup :: "gostring \<Rightarrow> cli_command \<Rightarrow> cli_command" where
  "inGroup g c = Command (cmd_name c) g (cmd_hidden c) (cmd_help_hidden c) (cmd_subs c)"

definition hiddenCommand :: "cli_command \<Rightarrow> cli_command" where
  "hiddenCommand c = Command (cmd_name c) (cmd_group c) True (cmd_help_hidden c) (cmd_subs c)"

definition deploysTree :: cli_command where
  "deploysTree = Command ''deploys'' [] False False (map leaf [''state'', ''containers'', ''history'', ''logs''])"

definition configTree :: cli_command where
  "configTree = Command ''config'' [] False False (map leaf [''path'', ''edit'', ''check'', ''reload''])"

definition envTree :: cli_command where
  "envTree = Command ''env'' [] False False (map leaf [''path'', ''edit'', ''check''])"

definition serviceTree :: cli_command where
  "serviceTree = Command ''service'' [] False False
     (map leaf [''status'', ''start'', ''stop'', ''restart'', ''enable'', ''disable'', ''logs''])"

definition completionTree :: cli_command where
  "completionTree = Command ''completion'' [] False False (map leaf [''bash'', ''zsh'', ''fish''])"

fun hideHelpFlags :: "cli_command \<Rightarrow> cli_command" where
  "hideHelpFlags (Command n g h f subs) = Command n g h True (map hideHelpFlags subs)"

definition addCommands :: "cli_command list" where
  "addCommands =
     map (inGroup ''inspect'') [deploysTree, leaf ''health'', leaf ''version'']
     @ map (inGroup ''manage'') [leaf ''authorize'', configTree, leaf ''deploy'', leaf ''probe'']
     @ map (inGroup ''system'') [leaf ''daemon'', envTree, serviceTree, leaf ''uninstall'', leaf ''update'']"

text \<open>The library adds its help command; it is hidden as the completion is.\<close>

definition configureHelp :: "cli_command list \<Rightarrow> cli_command list" where
  "configureHelp subs =
     map (\<lambda>c. if cmd_name c = ''help'' then inGroup ''system'' (hiddenCommand c) else c)
       (subs @ [hiddenCommand completionTree, leaf ''help''])"

definition newRootCmd :: cli_command where
  "newRootCmd = hideHelpFlags (Command ''deeplo'' [] False False (configureHelp addCommands))"

text \<open>\<open>strings.NewReplacer\<close>: at each position the first pair whose old text stands there.\<close>

fun replaceAny :: "(gostring \<times> gostring) list \<Rightarrow> nat \<Rightarrow> gostring \<Rightarrow> gostring" where
  "replaceAny ps k [] = []"
| "replaceAny ps (Suc k) (c # cs) = replaceAny ps k cs"
| "replaceAny ps 0 (c # cs) =
     (case find (\<lambda>(old, new). hasPrefix (c # cs) old) ps of
        Some (old, new) \<Rightarrow> new @ replaceAny ps (length old - 1) cs
      | None \<Rightarrow> c # replaceAny ps 0 cs)"

definition usageRewrites :: "(gostring \<times> gostring) list" where
  "usageRewrites =
     [(''Usage:'', ''USAGE:''), (''Aliases:'', ''ALIASES:''), (''Examples:'', ''EXAMPLES:''),
      (''Available Commands:'', ''AVAILABLE COMMANDS:''), (''Additional Commands:'', ''ADDITIONAL COMMANDS:''),
      (''Global Flags:'', ''GLOBAL FLAGS:''), (''Flags:'', ''FLAGS:''),
      (''Additional help topics:'', ''ADDITIONAL HELP TOPICS:''),
      (''{{.CommandPath}} [command]{{end}}'', ''{{.CommandPath}} [flags] <subcommand> [command flags]{{end}}''),
      (''(or .IsAvailableCommand (eq .Name '' @ goQuote ''help'' @ ''))'', ''.IsAvailableCommand''),
      (''Use '' @ [CHR 0x22] @ ''{{.CommandPath}} [command] --help'' @ [CHR 0x22] @ '' for more information about a command.'',
       ''For help on a subcommand, run '' @ [CHR 0x22] @ ''{{.CommandPath}} <subcommand> --help'' @ [CHR 0x22] @ ''.'')]"

definition rewriteUsageTemplate :: "gostring \<Rightarrow> gostring" where
  "rewriteUsageTemplate template = replaceAny usageRewrites 0 template"

section \<open>What the commands work with\<close>

text \<open>A command: what it printed, its error, and the world after it.\<close>

type_synonym 'w command_run = "(cli_output list \<times> goerror) \<times> 'w"

definition prints :: "cli_output list \<Rightarrow> 'w \<Rightarrow> 'w command_run" where
  "prints out w = ((out, None), w)"

definition fails :: "gostring \<Rightarrow> 'w \<Rightarrow> 'w command_run" where
  "fails e w = (([], Some e), w)"

datatype open_result = OpenOk | OpenDenied gostring | OpenFailed gostring

record 'w cli_env =
  ce_getenv :: "gostring \<rightharpoonup> gostring" \<comment> \<open>of the process, before the native file\<close>
  ce_native_file :: "(gostring \<rightharpoonup> gostring) option"
  ce_machine :: "'w machine"
  ce_send :: "gostring \<Rightarrow> 'w sender" \<comment> \<open>over the socket at this path\<close>
  ce_can_open :: "gostring \<Rightarrow> 'w \<Rightarrow> open_result"
  ce_writable :: "gostring \<Rightarrow> 'w \<Rightarrow> bool"
  ce_load_config :: "gostring \<Rightarrow> 'w \<Rightarrow> parse_error + config"
  ce_read_env :: "gostring \<Rightarrow> 'w \<Rightarrow> gostring option \<times> bool" \<comment> \<open>content, or whether the file is missing\<close>
  ce_parse_duration :: "gostring \<Rightarrow> gotime option"
  ce_format_date :: "gotime \<Rightarrow> gostring"
  ce_now :: gotime
  ce_version :: gostring

text \<open>The environment after \<open>PersistentPreRun\<close>; \<open>os.Getenv\<close> gives the empty text for a missing variable.\<close>

definition cliGetenv :: "'w cli_env \<Rightarrow> gostring \<Rightarrow> gostring" where
  "cliGetenv ce k = (case loadNativeEnvFile (ce_native_file ce) (ce_getenv ce) k of None \<Rightarrow> [] | Some v \<Rightarrow> v)"

definition cliEnv :: "'w cli_env \<Rightarrow> env_config" where
  "cliEnv ce = loadEnvFrom (ce_parse_duration ce) (cliGetenv ce)"

definition adminSocket :: "'w cli_env \<Rightarrow> gostring" where
  "adminSocket ce = unixSocketPath (cliGetenv ce)"

definition daemonClient :: "'w cli_env \<Rightarrow> 'w sender" where
  "daemonClient ce = ce_send ce (adminSocket ce)"

definition nativeEnvFile :: gostring where "nativeEnvFile = ''/etc/deeplo/deeplo.env''"
definition nativeServiceUser :: gostring where "nativeServiceUser = ''deeplo''"

section \<open>Commands that ask the daemon\<close>

text \<open>A body of another kind than the answer's would decode to the empty answer.\<close>

definition deploysStateCmd :: "'w cli_env \<Rightarrow> 'w \<Rightarrow> 'w command_run" where
  "deploysStateCmd ce w =
     (case clientDeployments (daemonClient ce) (adminSocket ce) w of
        (Inl e, w') \<Rightarrow> fails e w'
      | (Inr body, w') \<Rightarrow>
          prints [deploysStateTable (ce_format_date ce) (ce_now ce)
                    (case body of DeploymentsBody ds \<Rightarrow> ds | _ \<Rightarrow> [])] w')"

text \<open>Its tables, then the lines on standard error.\<close>

definition deploysContainersCmd :: "'w cli_env \<Rightarrow> 'w \<Rightarrow> 'w command_run" where
  "deploysContainersCmd ce w =
     (case clientRefresh (daemonClient ce) (adminSocket ce) w of
        (Inl e, w') \<Rightarrow> fails e w'
      | (Inr body, w') \<Rightarrow>
          (case deploysContainers (case body of RefreshBody hs \<Rightarrow> hs | _ \<Rightarrow> []) of
             (out, errs, e) \<Rightarrow> (([out] @ (if errs \<noteq> [] then [Lines errs] else []), e), w')))"

definition clientRequest :: "'w sender \<Rightarrow> gostring \<Rightarrow> api_request \<Rightarrow> 'w \<Rightarrow> (gostring + api_response) \<times> 'w" where
  "clientRequest send socket rq w =
     (case send rq w of (Inl e, w') \<Rightarrow> (Inl (dialErr socket e), w') | (Inr r, w') \<Rightarrow> (Inr r, w'))"

definition deploysHistoryCmd :: "'w cli_env \<Rightarrow> gostring \<Rightarrow> gostring \<Rightarrow> int \<Rightarrow> 'w \<Rightarrow> 'w command_run" where
  "deploysHistoryCmd ce projectName hostName limit w =
     (case clientRequest (daemonClient ce) (adminSocket ce) (runsRequest projectName hostName limit) w of
        (Inl e, w') \<Rightarrow> fails e w'
      | (Inr r, w') \<Rightarrow>
          (case decodeResponse r of
             Inl e \<Rightarrow> fails e w'
           | Inr body \<Rightarrow> prints [historyTable (ce_format_date ce) (ce_now ce) (case body of RunsBody ds \<Rightarrow> ds | _ \<Rightarrow> [])] w'))"

definition deploysLogsCmd :: "'w cli_env \<Rightarrow> gostring list \<Rightarrow> 'w \<Rightarrow> 'w command_run" where
  "deploysLogsCmd ce args w =
     (case exactArg ''run-id'' (''see '' @ [CHR 0x27] @ ''deeplo deploys history'' @ [CHR 0x27] @ '' for run IDs'')
             ''deeplo deploys logs <run-id>'' args of
        Some e \<Rightarrow> fails e w
      | None \<Rightarrow>
          (case clientRequest (daemonClient ce) (adminSocket ce) (runLogRequest (hd args)) w of
             (Inl e, w') \<Rightarrow> fails e w'
           | (Inr r, w') \<Rightarrow>
               if as_status r = 404 then fails (''run log not found: '' @ hd args) w'
               else if as_status r \<noteq> 200 then fails (''server error: '' @ httpStatus (as_status r)) w'
               else prints [Lines [case as_body r of LogBody c \<Rightarrow> c | _ \<Rightarrow> []]] w'))"

definition deployCmd :: "'w cli_env \<Rightarrow> gostring list \<Rightarrow> gostring \<Rightarrow> 'w \<Rightarrow> 'w command_run" where
  "deployCmd ce args hostName w =
     (case exactArg ''project'' ''see your config for project names'' ''deeplo deploy <project> [flags]'' args of
        Some e \<Rightarrow> fails e w
      | None \<Rightarrow>
          (case clientRequest (daemonClient ce) (adminSocket ce) (deployRequest (hd args) hostName) w of
             (Inl e, w') \<Rightarrow> fails e w'
           | (Inr r, w') \<Rightarrow>
               (case decodeResponse r of
                  Inl e \<Rightarrow> fails e w'
                | Inr body \<Rightarrow> prints [Lines [queuedLine (case body of DeployBody ts \<Rightarrow> ts | _ \<Rightarrow> [])]] w')))"

definition probeCmd :: "'w cli_env \<Rightarrow> 'w \<Rightarrow> 'w command_run" where
  "probeCmd ce w =
     (case clientProbe (daemonClient ce) (adminSocket ce) w of
        (Inl e, w') \<Rightarrow> fails e w'
      | (Inr body, w') \<Rightarrow>
          (case printProbeResults (case body of ProbeBody hs \<Rightarrow> hs | _ \<Rightarrow> []) of
             (out, e) \<Rightarrow> (([Lines out], e), w')))"

definition configReloadCmd :: "'w cli_env \<Rightarrow> 'w \<Rightarrow> 'w command_run" where
  "configReloadCmd ce w =
     (case clientReload (daemonClient ce) (adminSocket ce) w of
        (Inl e, w') \<Rightarrow> fails e w'
      | (Inr body, w') \<Rightarrow> prints [Lines [case body of ReloadBody m \<Rightarrow> m | _ \<Rightarrow> []]] w')"

definition healthPingDaemon :: "'w cli_env \<Rightarrow> 'w \<Rightarrow> (gostring \<times> gostring) option \<times> 'w" where
  "healthPingDaemon ce w =
     (case clientHealth (daemonClient ce) (adminSocket ce) w of
        (Inl e, w') \<Rightarrow> (None, w')
      | (Inr body, w') \<Rightarrow> (Some (case body of HealthBody v u \<Rightarrow> (v, u) | _ \<Rightarrow> ([], [])), w'))"

definition versionCmd :: "'w cli_env \<Rightarrow> 'w \<Rightarrow> 'w command_run" where
  "versionCmd ce w = prints [Lines [''deeplo '' @ ce_version ce]] w"

section \<open>The configuration and environment files\<close>

definition configPathCmd :: "'w cli_env \<Rightarrow> 'w \<Rightarrow> 'w command_run" where
  "configPathCmd ce w = prints [Lines [env_config_file (cliEnv ce)]] w"

text \<open>The report lines, and the error.\<close>

definition configCheckCmd :: "'w cli_env \<Rightarrow> 'w \<Rightarrow> config_line list \<times> goerror" where
  "configCheckCmd ce w =
     (case loadAndReportConfig (ce_load_config ce (env_config_file (cliEnv ce)) w) of
        Inl (out, e) \<Rightarrow> (out, Some e)
      | Inr (out, c) \<Rightarrow> (out, None))"

definition runEditor :: "'w machine \<Rightarrow> gostring \<Rightarrow> gostring \<Rightarrow> 'w \<Rightarrow> goerror \<times> 'w" where
  "runEditor ma editor path = ma_exec ma [editor, path]"

definition runSudoEdit :: "'w machine \<Rightarrow> gostring \<Rightarrow> 'w \<Rightarrow> goerror \<times> 'w" where
  "runSudoEdit ma path = ma_exec ma [''sudo'', ''-e'', path]"

definition configEditCmd :: "'w cli_env \<Rightarrow> 'w \<Rightarrow> 'w command_run" where
  "configEditCmd ce w =
     (let path = env_config_file (cliEnv ce); ma = ce_machine ce in
      if \<not> ma_stat ma path w
      then fails (''config file not found: '' @ path @ newline @ ''  set DEEPLO_CONFIG_FILE or create the file'') w
      else
        (let writable = ce_writable ce path w; editor = resolveEditor (cliGetenv ce);
             opening = ''Opening '' @ path @ '' with '' @ (if writable then editor else ''sudoedit'') @ ''...''
         in case (if writable then runEditor ma editor path w else runSudoEdit ma path w) of
              (Some e, w') \<Rightarrow> (([Lines [opening]], Some (''editor exited with error: '' @ e)), w')
            | (None, w') \<Rightarrow>
                (([Lines [opening, ''Edited '' @ path,
                    ''Run '' @ [CHR 0x27] @ ''deeplo config check'' @ [CHR 0x27] @ '' to validate, then '' @ [CHR 0x27]
                      @ ''deeplo config reload'' @ [CHR 0x27] @ '' to apply.'']], None), w')))"

definition envPathCmd :: "'w cli_env \<Rightarrow> 'w \<Rightarrow> 'w command_run" where
  "envPathCmd ce w =
     (case checkNativeInstall (ce_machine ce) w of
        Some e \<Rightarrow> fails e w
      | None \<Rightarrow> prints [Lines [nativeEnvFile]] w)"

definition envEditCmd :: "'w cli_env \<Rightarrow> 'w \<Rightarrow> 'w command_run" where
  "envEditCmd ce w =
     (case checkNativeInstall (ce_machine ce) w of
        Some e \<Rightarrow> fails e w
      | None \<Rightarrow>
          if \<not> ma_stat (ce_machine ce) nativeEnvFile w then fails (''env file not found: '' @ nativeEnvFile) w
          else
            (let opening = ''Opening '' @ nativeEnvFile @ '' with sudoedit...'' in
             case runSudoEdit (ce_machine ce) nativeEnvFile w of
               (Some e, w') \<Rightarrow> (([Lines [opening]], Some (''sudoedit exited with error: '' @ e)), w')
             | (None, w') \<Rightarrow>
                 (([Lines [opening, ''Edited '' @ nativeEnvFile,
                     ''Run '' @ [CHR 0x27] @ ''deeplo env check'' @ [CHR 0x27] @ '' to validate, then '' @ [CHR 0x27]
                       @ ''deeplo service restart'' @ [CHR 0x27] @ '' to apply.'']], None), w')))"

text \<open>Whether the service can read a file: by opening it oneself, else by asking as the service's user.\<close>

definition serviceCanReadFile :: "'w cli_env \<Rightarrow> gostring \<Rightarrow> 'w \<Rightarrow> (gostring + bool) \<times> 'w" where
  "serviceCanReadFile ce path w =
     (case ce_can_open ce path w of
        OpenOk \<Rightarrow> (Inr True, w)
      | OpenFailed e \<Rightarrow> (Inl e, w)
      | OpenDenied e \<Rightarrow>
          if \<not> ma_look_path (ce_machine ce) ''sudo'' then (Inl e, w)
          else (case ma_exec (ce_machine ce) [''sudo'', ''-u'', nativeServiceUser, ''test'', ''-r'', path] w of
                  (err, w') \<Rightarrow> (Inr (err = None), w')))"

text \<open>The test changes nothing, so that the check sees each file in the same world.\<close>

definition envCheckCmd :: "'w cli_env \<Rightarrow> 'w \<Rightarrow> gostring list \<times> goerror" where
  "envCheckCmd ce w =
     (case checkNativeInstall (ce_machine ce) w of
        Some e \<Rightarrow> ([], Some e)
      | None \<Rightarrow>
          (case ce_read_env ce nativeEnvFile w of
             (content, missing) \<Rightarrow>
               runEnvCheck (ce_parse_duration ce) (\<lambda>p. fst (serviceCanReadFile ce p w)) nativeEnvFile missing content))"

section \<open>Installing the deploy key\<close>

text \<open>The public key: read, or through sudo where it may not be; the last argument is the output of that.\<close>

definition readPublicKey ::
  "'w machine \<Rightarrow> gostring + gostring \<Rightarrow> bool \<Rightarrow> (gostring list \<Rightarrow> 'w \<Rightarrow> (gostring + gostring) \<times> 'w) \<Rightarrow> gostring \<Rightarrow> 'w
   \<Rightarrow> (gostring + gostring) \<times> 'w" where
  "readPublicKey ma content denied sudoOutput path w =
     (case content of
        Inr key \<Rightarrow> (Inr key, w)
      | Inl e \<Rightarrow>
          if \<not> denied then (Inl e, w)
          else if \<not> ma_look_path ma ''sudo'' then (Inl e, w)
          else sudoOutput [''sudo'', ''cat'', path] w)"

text \<open>
  The script that \<open>ssh\<close> runs on the host, for commands that succeed: the mode of \<open>.ssh\<close>, and the content and
  the mode of \<open>authorized_keys\<close>. A command substitution drops the newlines at its end, and \<open>grep -qxF\<close> looks
  for a line that equals one of the lines of its pattern.
\<close>

abbreviation nl :: char where "nl \<equiv> CHR 0x0A"

definition stripNewlines :: "gostring \<Rightarrow> gostring" where
  "stripNewlines s = rev (dropWhile (\<lambda>c. c = nl) (rev s))"

definition fileLines :: "gostring \<Rightarrow> gostring list" where
  "fileLines s = (let ls = splitOn nl s in if last ls = [] then butlast ls else ls)"

definition grepExact :: "gostring \<Rightarrow> gostring \<Rightarrow> bool" where
  "grepExact pat content \<longleftrightarrow> list_ex (\<lambda>l. l \<in> set (splitOn nl pat)) (fileLines content)"

record ssh_home =
  sh_dir_mode :: "nat option"
  sh_keys :: "(gostring \<times> nat) option"

definition authorizeScript :: "gostring \<Rightarrow> ssh_home \<Rightarrow> ssh_home" where
  "authorizeScript input h =
     (let content = (case sh_keys h of None \<Rightarrow> [] | Some (c, m) \<Rightarrow> c);
          key = stripNewlines input;
          content' = (if grepExact key content then content
                      else (if content \<noteq> [] \<and> last content \<noteq> nl then content @ [nl] else content) @ key @ [nl])
      in \<lparr>sh_dir_mode = Some 448, sh_keys = Some (content', 384)\<rparr>)"

lemma fileLines_terminated: "fileLines (s @ [nl]) = splitOn nl s"
  by (simp add: fileLines_def splitOn_append)

lemma splitOn_snoc:
  "c \<noteq> sep \<Longrightarrow> splitOn sep (s @ [c]) = butlast (splitOn sep s) @ [last (splitOn sep s) @ [c]]"
proof (induction s)
  case (Cons d s)
  obtain p ps where s: "splitOn sep s = p # ps" by (cases "splitOn sep s") simp_all
  show ?case using Cons s by (cases ps) simp_all
qed simp

lemma splitOn_last: "last (splitOn nl s) = [] \<longleftrightarrow> s = [] \<or> last s = nl"
proof (cases s rule: rev_cases)
  case (snoc s' c)
  then show ?thesis by (cases "c = nl") (simp_all add: splitOn_append splitOn_snoc)
qed simp

lemma fileLines_append:
  "fileLines ((if s \<noteq> [] \<and> last s \<noteq> nl then s @ [nl] else s) @ key @ [nl]) = fileLines s @ splitOn nl key"
proof -
  consider "s = []" | "s \<noteq> []" "last s \<noteq> nl" | s' where "s = s' @ [nl]" by (cases s rule: rev_cases) auto
  then show ?thesis
  proof cases
    case 1
    then show ?thesis using fileLines_terminated [of key] by (simp add: fileLines_def)
  next
    case 2
    then have "fileLines s = splitOn nl s" by (simp add: fileLines_def splitOn_last)
    then show ?thesis using 2 fileLines_terminated [of "s @ nl # key"] by (simp add: splitOn_append)
  next
    case 3
    then show ?thesis using fileLines_terminated [of "s' @ nl # key"] fileLines_terminated [of s'] by (simp add: splitOn_append)
  qed
qed

text \<open>
  C40. Authorizing a host keeps its other keys and can be repeated: after the script, the lines of
  \<open>authorized_keys\<close> are those that were there, followed by the lines of the key unless one of them was there
  already; a line of the key is there; the directory and the file are closed to others; and a second run
  changes nothing.
\<close>

theorem authorize_idempotent:
  assumes "authorizeScript key h = h'"
  shows "\<exists>content. sh_keys h' = Some (content, 384) \<and> sh_dir_mode h' = Some 448
    \<and> fileLines content = fileLines (case sh_keys h of None \<Rightarrow> [] | Some (c, m) \<Rightarrow> c)
        @ (if grepExact (stripNewlines key) (case sh_keys h of None \<Rightarrow> [] | Some (c, m) \<Rightarrow> c) then []
           else splitOn nl (stripNewlines key))
    \<and> grepExact (stripNewlines key) content
    \<and> (nl \<notin> set (stripNewlines key) \<longrightarrow> stripNewlines key \<in> set (fileLines content))
    \<and> authorizeScript key h' = h'"
proof -
  let ?c = "case sh_keys h of None \<Rightarrow> [] | Some (c, m) \<Rightarrow> c" and ?k = "stripNewlines key"
  obtain content where c: "sh_keys h' = Some (content, 384)" "sh_dir_mode h' = Some 448"
    "content = (if grepExact ?k ?c then ?c else (if ?c \<noteq> [] \<and> last ?c \<noteq> nl then ?c @ [nl] else ?c) @ ?k @ [nl])"
    using assms by (auto simp: authorizeScript_def Let_def)
  have l: "fileLines content = fileLines ?c @ (if grepExact ?k ?c then [] else splitOn nl ?k)"
    using fileLines_append [of ?c ?k] by (simp add: c(3))
  have hd: "hd (splitOn nl ?k) \<in> set (splitOn nl ?k)" by simp
  have g: "grepExact ?k content"
  proof (cases "grepExact ?k ?c")
    case False
    then have "set (splitOn nl ?k) \<subseteq> set (fileLines content)" using l by simp
    then show ?thesis unfolding grepExact_def list_ex_iff using hd by blast
  qed (simp add: c(3))
  have "authorizeScript key h' = h'"
    using c(1,2) g by (cases h') (simp add: authorizeScript_def Let_def)
  moreover have "?k \<in> set (fileLines content)" if "nl \<notin> set ?k"
    using g splitOn_no_sep [OF that] by (auto simp: grepExact_def list_ex_iff)
  ultimately show ?thesis using c l g by blast
qed

lemma authorize_idempotent_witness:
  "\<exists>content. sh_keys (authorizeScript (''ssh-rsa A'' @ [nl]) \<lparr>sh_dir_mode = None, sh_keys = Some (''ssh-rsa B'', 420)\<rparr>)
     = Some (content, 384) \<and> fileLines content = [''ssh-rsa B'', ''ssh-rsa A'']"
proof -
  let ?h = "\<lparr>sh_dir_mode = None, sh_keys = Some (''ssh-rsa B'', 420)\<rparr>"
  have s: "stripNewlines (''ssh-rsa A'' @ [nl]) = ''ssh-rsa A''" "fileLines ''ssh-rsa B'' = [''ssh-rsa B'']"
    "grepExact ''ssh-rsa A'' ''ssh-rsa B'' = False" "splitOn nl ''ssh-rsa A'' = [''ssh-rsa A'']" by code_simp+
  from authorize_idempotent [of "''ssh-rsa A'' @ [nl]" ?h, OF refl] s show ?thesis by auto
qed

section \<open>Commands and the daemon\<close>

text \<open>A user who can connect, and the daemon behind the socket.\<close>

definition connected :: "'w cli_env \<Rightarrow> 'w api_config \<Rightarrow> bool" where
  "connected ce ac \<longleftrightarrow>
     (\<exists>u fs p. daemonClient ce = overSocket u fs p ac \<and> connectError u fs p = None)"

lemma connected_request:
  "connected ce ac \<Longrightarrow>
   clientRequest (daemonClient ce) socket rq w = (case serveApi ac rq w of (r, w') \<Rightarrow> (Inr r, w'))"
  by (auto simp: connected_def clientRequest_def overSocket_def split: prod.split)

lemma deployCmd_connected:
  assumes "connected ce ac" "ac_deploy ac = Some f" "list_all urlByte p" "list_all urlByte h" "p \<noteq> []"
  shows "deployCmd ce [p] h w =
     (case f p h w of
        (Inl e, w') \<Rightarrow> fails (reported 400 e) w'
      | (Inr ts, w') \<Rightarrow> prints [Lines [queuedLine ts]] w')"
proof -
  obtain q where q: "deployRequest p h = \<lparr>rq_method = ''POST'', rq_path = ''/api/v1/deploy'', rq_query = q\<rparr>"
    "queryGet q ''project'' = p" "queryGet q ''host'' = h"
    using deployRequest_plain [OF assms(3,4)] by (elim exE conjE)
  have "serveApi ac (deployRequest p h) w = handleDeploy ac q w" by (simp add: q(1) serveApi_def routeOf_def)
  then show ?thesis
    using assms(2,5) q(2,3)
    by (cases "f p h w"; cases "fst (f p h w)")
       (simp_all add: deployCmd_def exactArg_def connected_request [OF assms(1)] handleDeploy_def decodeResponse_def)
qed

text \<open>The deployment that the daemon gives to its server; the world keeps the events handed to \<open>deployHandler\<close>.\<close>

definition manualErrorText :: "gostring \<Rightarrow> manual_error \<Rightarrow> gostring" where
  "manualErrorText projectName e =
     (case e of
        NoSuchProject p \<Rightarrow> ''project '' @ goQuote p @ '' not found''
      | NoSuchRepo r \<Rightarrow> ''repo '' @ goQuote r @ '' not found for project '' @ goQuote projectName
      | NotATarget h p \<Rightarrow> ''host '' @ goQuote h @ '' is not a target of project '' @ goQuote p
      | NoTargets p \<Rightarrow> ''project '' @ goQuote p @ '' has no configured targets''
      | NoKnownCommit r \<Rightarrow> ''no known commit for repo '' @ goQuote r @ ''; push a commit first'')"

definition onDeploy ::
  "gostring \<Rightarrow> ('v \<Rightarrow> disk) \<Rightarrow> (gostring \<Rightarrow> gostring \<Rightarrow> 'v \<Rightarrow> (gostring \<times> bool) \<times> 'v) \<Rightarrow> config
   \<Rightarrow> gostring \<Rightarrow> gostring \<Rightarrow> 'v \<times> repo_event list \<Rightarrow> (gostring + gostring list) \<times> 'v \<times> repo_event list" where
  "onDeploy dp diskOf mirrorHead c p h = (\<lambda>(v, evs).
     (case manualDeploy dp (diskOf v) mirrorHead c p h v of
        ((res, out), v') \<Rightarrow>
          (map_sum (manualErrorText p) id res, v', evs @ (case out of None \<Rightarrow> [] | Some ev \<Rightarrow> [ev]))))"

text \<open>
  C19. The deploy command deploys what it says: when a user who can connect runs it for a project and
  perhaps a host, the daemon takes one event whose jobs, planned at whatever moment, are the targets
  of the plan for this project and host at the head of the mirror, and the command prints exactly
  these targets; when there is no such target or no known commit, nothing is dispatched and the
  command fails.
\<close>

theorem deploy_command_end_to_end:
  assumes "connected ce ac" and "ac_deploy ac = Some (onDeploy dp diskOf mirrorHead c)"
    and "list_all urlByte p" and "list_all urlByte h" and "p \<noteq> []" and "wfConfig c"
    and "ts = manualSelection c p h"
  shows "if ts = [] \<or> fst (manualSha dp (diskOf v) mirrorHead (t_repo (hd ts)) v) = None
    then \<exists>e v'. deployCmd ce [p] h (v, evs) = fails e (v', evs)
    else \<exists>ev v'. deployCmd ce [p] h (v, evs)
             = prints [Lines [queuedLine (map (\<lambda>t. p @ ''/'' @ host_name (t_host t)) ts)]] (v', evs @ [ev])
         \<and> (\<forall>cfg dp d. map pj_target (pushJobs cfg dp d ev) = ts)
         \<and> Some (ev_commit_sha ev) = fst (manualSha dp (diskOf v) mirrorHead (t_repo (hd ts)) v)"
proof -
  obtain res out v' where m: "manualDeploy dp (diskOf v) mirrorHead c p h v = ((res, out), v')" by (metis prod.exhaust)
  note ex = manualDeploy_exact [OF assms(6) m assms(7)] and cmd = deployCmd_connected [OF assms(1-5), of "(v, evs)"]
  have no: "deployCmd ce [p] h (v, evs) = fails (reported 400 (manualErrorText p e)) (v', evs)" if "res = Inl e" "out = None" for e
    using that m cmd by (simp add: onDeploy_def)
  have yes: "deployCmd ce [p] h (v, evs) = prints [Lines [queuedLine names]] (v', evs @ [ev])"
    if "res = Inr names" "out = Some ev" for names ev
    using that m cmd by (simp add: onDeploy_def)
  show ?thesis
  proof (cases "ts = [] \<or> fst (manualSha dp (diskOf v) mirrorHead (t_repo (hd ts)) v) = None")
    case True
    then have "(\<exists>e. res = Inl e) \<and> out = None" using ex by auto
    then show ?thesis using True no by auto
  next
    case False
    then show ?thesis using ex yes by fastforce
  qed
qed

definition demoDeployApi :: "(unit \<times> repo_event list) api_config" where
  "demoDeployApi =
     \<lparr>ac_version = ''1'', ac_uptime = ''1s'', ac_data_path = ''/data'', ac_runs_dir = ''/data/runs'',
      ac_disk = (\<lambda>w. emptyDisk), ac_open = (\<lambda>p w. LogMissing), ac_store_error = (\<lambda>e. ''store''),
      ac_list_errors = (\<lambda>e. ''files''), ac_reload = None, ac_refresh = None, ac_probe = None,
      ac_deploy = Some (onDeploy ''/data'' (\<lambda>_. emptyDisk) (\<lambda>u b w. ((''abc'', True), w)) demoConfig)\<rparr>"

definition demoRunTree :: file_tree where
  "demoRunTree = demoTree(''/run/deeplo'' \<mapsto> \<lparr>nd_kind = Directory, nd_mode = 0x1E8, nd_owner = 999, nd_group = 1001\<rparr>,
     demoSocket \<mapsto> \<lparr>nd_kind = SocketFile True, nd_mode = 0x1B0, nd_owner = 999, nd_group = 1001\<rparr>)"

definition demoCli :: "(unit \<times> repo_event list) cli_env" where
  "demoCli =
     \<lparr>ce_getenv = Map.empty, ce_native_file = None,
      ce_machine = \<lparr>ma_root = True, ma_look_path = (\<lambda>_. True), ma_stat = (\<lambda>_ _. True), ma_exec = (\<lambda>_ w. (None, w))\<rparr>,
      ce_send = (\<lambda>p. overSocket demoOperator demoRunTree p demoDeployApi),
      ce_can_open = (\<lambda>_ _. OpenOk), ce_writable = (\<lambda>_ _. True), ce_load_config = (\<lambda>_ _. Inr demoConfig),
      ce_read_env = (\<lambda>_ _. (None, True)), ce_parse_duration = (\<lambda>_. None), ce_format_date = (\<lambda>_. []), ce_now = 0,
      ce_version = ''1''\<rparr>"

lemma demo_connected: "connected demoCli demoDeployApi"
proof -
  have "adminSocket demoCli = demoSocket"
    by (simp add: adminSocket_def cliGetenv_def loadNativeEnvFile_def demoCli_def unixSocketPath_def defaultUnixSocket_def demoSocket_def)
  then have "daemonClient demoCli = overSocket demoOperator demoRunTree demoSocket demoDeployApi"
    by (simp add: daemonClient_def demoCli_def)
  moreover have "connectError demoOperator demoRunTree demoSocket = None"
    unfolding connectError_def demo_parents
    by (simp add: canSearch_def permits_def demoRunTree_def demoTree_def demoOperator_def demoSocket_def)
  ultimately show ?thesis unfolding connected_def by blast
qed

lemma deploy_command_end_to_end_witness:
  "\<exists>ev v'. deployCmd demoCli [''web''] [] ((), []) = prints [Lines [queuedLine [''web/h1'']]] (v', [ev])
     \<and> ev_commit_sha ev = ''abc''"
proof -
  have "manualSelection demoConfig ''web'' [] = [demoTarget]" by code_simp
  moreover have "ac_deploy demoDeployApi = Some (onDeploy ''/data'' (\<lambda>_. emptyDisk) (\<lambda>u b w. ((''abc'', True), w)) demoConfig)"
    by (simp add: demoDeployApi_def)
  moreover have "list_all urlByte ''web''" "list_all urlByte []" by code_simp+
  moreover have "host_name (t_host demoTarget) = ''h1''" by (simp add: demoTarget_def demoHost_def)
  moreover have "fst (manualSha ''/data'' emptyDisk (\<lambda>u b (w::unit). ((''abc'', True), w)) r ()) = Some ''abc''" for r
    by (simp add: manualSha_def)
  ultimately show ?thesis
    using deploy_command_end_to_end [OF demo_connected, of "''/data''" "\<lambda>_. emptyDisk" "\<lambda>u b w. ((''abc'', True), w)" demoConfig
        "''web''" "[]" "[demoTarget]" "()" "[]"] demoConfig_wf by auto
qed

section \<open>Help and checks\<close>

fun allHelpHidden :: "cli_command \<Rightarrow> bool" where
  "allHelpHidden (Command n g h f subs) \<longleftrightarrow> f \<and> list_all allHelpHidden subs"

lemma hideHelpFlags_all: "allHelpHidden (hideHelpFlags c)"
  by (induction c) (simp add: list_all_iff)

lemma hideHelpFlags_name: "cmd_name (hideHelpFlags c) = cmd_name c"
  by (cases c) simp

lemma root_commands:
  "distinct (map cmd_name (cmd_subs newRootCmd))"
  "list_all (\<lambda>c. cmd_hidden c \<longleftrightarrow> cmd_name c \<in> {''completion'', ''help''}) (cmd_subs newRootCmd)"
  "list_all (\<lambda>c. cmd_hidden c \<or> cmd_group c \<in> {''inspect'', ''manage'', ''system''}) (cmd_subs newRootCmd)"
  by code_simp+

lemma replaceAny_absent:
  "\<forall>(old, new)\<in>set ps. \<forall>a b. s \<noteq> a @ old @ b \<Longrightarrow> replaceAny ps 0 s = s"
proof (induction s)
  case (Cons c cs)
  have "find (\<lambda>(old, new). hasPrefix (c # cs) old) ps = None"
  proof (rule ccontr)
    assume "find (\<lambda>(old, new). hasPrefix (c # cs) old) ps \<noteq> None"
    then obtain old new where "(old, new) \<in> set ps" "hasPrefix (c # cs) old" by (auto simp: find_None_iff)
    then have "c # cs = [] @ old @ drop (length old) (c # cs)"
      unfolding hasPrefix_def by (metis append_Nil append_take_drop_id)
    with Cons.prems \<open>(old, new) \<in> set ps\<close> show False by blast
  qed
  moreover have "\<forall>(old, new)\<in>set ps. \<forall>a b. cs \<noteq> a @ old @ b" 
  proof (clarify)
    fix old new a b
    assume "(old, new) \<in> set ps" "cs = a @ old @ b"
    then have "c # cs = (c # a) @ old @ b" by simp
    with Cons.prems \<open>(old, new) \<in> set ps\<close> show False by blast
  qed
  ultimately show ?case using Cons.IH by simp
qed simp

text \<open>The check opens a file with the rights of its caller first: for root, every file counts as readable by the service.\<close>

lemma env_check_own_rights:
  "ce_can_open ce path w = OpenOk \<Longrightarrow> serviceCanReadFile ce path w = (Inr True, w)"
  by (simp add: serviceCanReadFile_def)

text \<open>Otherwise it is the service's user that is asked.\<close>

lemma env_check_asks:
  assumes "ce_can_open ce path w = OpenDenied e" and "ma_look_path (ce_machine ce) ''sudo''"
    and "ma_exec (ce_machine ce) [''sudo'', ''-u'', ''deeplo'', ''test'', ''-r'', path] w = (err, w')"
  shows "serviceCanReadFile ce path w = (Inr (err = None), w')"
  using assms by (simp add: serviceCanReadFile_def nativeServiceUser_def)

end

