(* ===== verification/Local_Watch.thy ===== *)
theory Local_Watch
  imports Reload
begin

text \<open>
  The watcher of a local configuration file (\<open>internal/daemon/reloader.go\<close>: \<open>StartLocal\<close>): its start and its
  loop over what the select takes, in the order taken. A file event carries what the configuration file
  holds when the reload of the event reads it.
\<close>

section \<open>The loop\<close>

datatype local_signal =
    FileEvent fs_event "gostring file_state" | EventsClosed | WatchError gostring | ErrorsClosed | IntakeDone

record 'w local_watch =
  lw_running :: bool
  lw_cache :: "'w cache_state"
  lw_config :: config
  lw_reloads :: "(config \<times> config) list" \<comment> \<open>the calls of \<open>onReload\<close>\<close>

text \<open>\<open>fsnotify.NewWatcher\<close> and \<open>Add\<close>: without the watcher there is no loop.\<close>

definition startLocal :: "goerror \<Rightarrow> goerror \<Rightarrow> 'w cache_state \<Rightarrow> config \<Rightarrow> 'w local_watch" where
  "startLocal newWatcher addDir st c =
     \<lparr>lw_running = (newWatcher = None \<and> addDir = None), lw_cache = st, lw_config = c, lw_reloads = []\<rparr>"

fun localStep :: "'w loader \<Rightarrow> env_config \<Rightarrow> local_signal \<Rightarrow> 'w local_watch \<Rightarrow> 'w local_watch" where
  "localStep ld env (FileEvent e content) s =
     (if \<not> lw_running s \<or> \<not> localEventReloads (env_config_file env) e then s
      else (case fetchAndApply ld env content (lw_cache s, lw_config s) of
              (r, st, c) \<Rightarrow>
                s\<lparr>lw_cache := st, lw_config := c, lw_reloads := lw_reloads s @ (case r of None \<Rightarrow> [] | Some oc \<Rightarrow> [oc])\<rparr>))"
| "localStep ld env (WatchError e) s = s"
| "localStep ld env EventsClosed s = s\<lparr>lw_running := False\<rparr>"
| "localStep ld env ErrorsClosed s = s\<lparr>lw_running := False\<rparr>"
| "localStep ld env IntakeDone s = s\<lparr>lw_running := False\<rparr>"

definition localLoop :: "'w loader \<Rightarrow> env_config \<Rightarrow> local_signal list \<Rightarrow> 'w local_watch \<Rightarrow> 'w local_watch" where
  "localLoop ld env sigs s = fold (localStep ld env) sigs s"

section \<open>Laws\<close>

definition stops :: "local_signal \<Rightarrow> bool" where
  "stops g \<longleftrightarrow> g = EventsClosed \<or> g = ErrorsClosed \<or> g = IntakeDone"

text \<open>
  The edits of the configuration file among the signals, stated over the events themselves: an event under
  the file's base name that writes, creates or renames it, with the configuration it then holds, where
  that parses and has no blocking issue.
\<close>

fun goodEdits :: "'w loader \<Rightarrow> env_config \<Rightarrow> local_signal list \<Rightarrow> config list" where
  "goodEdits ld env [] = []"
| "goodEdits ld env (g # sigs) =
     (case g of
        FileEvent e (FileHolds data) \<Rightarrow>
          (if pathBase (fe_name e) = pathBase (env_config_file env) \<and> (fe_write e \<or> fe_create e \<or> fe_rename e)
           then (case ld_parse ld data of
                   Inr c \<Rightarrow> if blockingIssues c = [] then [c] else []
                 | Inl err \<Rightarrow> [])
           else [])
      | _ \<Rightarrow> []) @ goodEdits ld env sigs"

text \<open>The changes from one configuration to the next, where they differ.\<close>

fun changes :: "config \<Rightarrow> config list \<Rightarrow> (config \<times> config) list" where
  "changes c [] = []"
| "changes c (d # ds) = (if d = c then [] else [(c, d)]) @ changes d ds"

lemma localLoop_Cons: "localLoop ld env (g # sigs) s = localLoop ld env sigs (localStep ld env g s)"
  by (simp add: localLoop_def)

lemma localLoop_stopped: "\<not> lw_running s \<Longrightarrow> localLoop ld env sigs s = s"
proof (induction sigs)
  case (Cons g sigs)
  then have "localStep ld env g s = s" by (cases g) simp_all
  then show ?case using Cons by (simp add: localLoop_def)
qed (simp add: localLoop_def)

lemma localStep_edit:
  assumes "env_source env = SourceLocal" "lw_running s" "\<not> stops g"
  shows "lw_running (localStep ld env g s)
    \<and> lw_config (localStep ld env g s) = last (lw_config s # goodEdits ld env [g])
    \<and> lw_reloads (localStep ld env g s) = lw_reloads s @ changes (lw_config s) (goodEdits ld env [g])"
proof (cases g)
  case (FileEvent e content)
  have loc: "localEventReloads (env_config_file env) e \<longleftrightarrow>
      pathBase (fe_name e) = pathBase (env_config_file env) \<and> (fe_write e \<or> fe_create e \<or> fe_rename e)"
    by (simp add: localEventReloads_def)
  show ?thesis
  proof (cases content)
    case (FileHolds data)
    then show ?thesis using assms(1,2) FileEvent
      by (cases "ld_parse ld data")
         (auto simp: loc fetchAndApply_def loadConfig_def applyConfigChange_def loadLocalConfig_def Let_def)
  qed (use assms(1,2) FileEvent in \<open>auto simp: fetchAndApply_def loadConfig_def loadLocalConfig_def\<close>)
qed (use assms(2,3) in \<open>auto simp: stops_def\<close>)

lemma changes_append: "changes c (ds @ es) = changes c ds @ changes (last (c # ds)) es"
  by (induction ds arbitrary: c) auto

lemma goodEdits_Cons: "goodEdits ld env (g # sigs) = goodEdits ld env [g] @ goodEdits ld env sigs"
  by simp

lemma last_append_Cons: "last (c # xs @ ys) = last (last (c # xs) # ys)"
  by (cases ys) auto

lemma localLoop_edits:
  assumes "env_source env = SourceLocal"
  shows "lw_running s \<Longrightarrow> (let edits = goodEdits ld env (takeWhile (\<lambda>g. \<not> stops g) sigs); s' = localLoop ld env sigs s in
      lw_config s' = last (lw_config s # edits) \<and> lw_reloads s' = lw_reloads s @ changes (lw_config s) edits)"
proof (induction sigs arbitrary: s)
  case Nil
  then show ?case by (simp add: localLoop_def)
next
  case (Cons g sigs)
  show ?case
  proof (cases "stops g")
    case True
    then have "\<not> lw_running (localStep ld env g s)" "lw_config (localStep ld env g s) = lw_config s"
      "lw_reloads (localStep ld env g s) = lw_reloads s" by (auto simp: stops_def)
    then show ?thesis using True by (simp add: localLoop_Cons localLoop_stopped)
  next
    case False
    note st = localStep_edit [OF assms Cons.prems False, of ld]
    have tw: "goodEdits ld env (takeWhile (\<lambda>g. \<not> stops g) (g # sigs))
        = goodEdits ld env [g] @ goodEdits ld env (takeWhile (\<lambda>g. \<not> stops g) sigs)"
      using False goodEdits_Cons [of ld env g "takeWhile (\<lambda>g. \<not> stops g) sigs"] by (simp del: goodEdits.simps)
    show ?thesis
      using Cons.IH [OF conjunct1 [OF st]] st
      unfolding tw localLoop_Cons by (simp add: changes_append last_append_Cons Let_def del: goodEdits.simps localStep.simps last.simps)
  qed
qed

text \<open>
  C28. A watched local configuration is followed edit by edit: in whatever order events, errors and the end
  of the intake reach the loop, the configuration in use is the one that the last good edit before the
  end left in the file, or that of the start when there was none. Every event under the file's name
  counts that writes, creates or renames it, so an editor that replaces the file is followed like one that
  writes in place, and an edit that cannot be read, does not parse or has a blocking issue is passed
  over. \<open>onReload\<close> is called exactly for each change between successive good edits, with the two
  configurations; and when the file watcher could not be set up, nothing is ever reloaded.
\<close>

theorem local_watch_follows:
  assumes "env_source env = SourceLocal"
  shows "lw_config (localLoop ld env sigs (startLocal None None st c0))
      = last (c0 # goodEdits ld env (takeWhile (\<lambda>g. \<not> stops g) sigs))
    \<and> lw_reloads (localLoop ld env sigs (startLocal None None st c0))
      = changes c0 (goodEdits ld env (takeWhile (\<lambda>g. \<not> stops g) sigs))
    \<and> (newWatcher \<noteq> None \<or> addDir \<noteq> None \<longrightarrow>
         lw_config (localLoop ld env sigs (startLocal newWatcher addDir st c0)) = c0
         \<and> lw_reloads (localLoop ld env sigs (startLocal newWatcher addDir st c0)) = [])"
  using localLoop_edits [OF assms, of "startLocal None None st c0" ld sigs]
    localLoop_stopped [of "startLocal newWatcher addDir st c0" ld env sigs]
  by (auto simp: startLocal_def Let_def simp del: last.simps)

definition localEnv :: env_config where
  "localEnv = demoEnv\<lparr>env_source := SourceLocal\<rparr>"

definition editorRename :: fs_event where
  "editorRename = \<lparr>fe_name = ''/etc/deeplo/config.yml'', fe_write = False, fe_create = True, fe_rename = False\<rparr>"

lemma local_watch_follows_witness:
  "lw_config (localLoop demoLoader localEnv
      [WatchError ''overflow'', FileEvent editorRename (FileHolds demoSha), FileEvent editorRename FileMissing, IntakeDone,
       FileEvent editorRename (FileHolds [])] (startLocal None None demoCache otherConfig)) = demoConfig"
proof -
  have e: "env_source localEnv = SourceLocal" by (simp add: localEnv_def)
  have b: "blockingIssues demoConfig = []" "pathBase ''/etc/deeplo/config.yml'' = pathBase (env_config_file localEnv)" by code_simp+
  have p: "ld_parse demoLoader demoSha = Inr demoConfig" by (simp add: demoLoader_def)
  show ?thesis
    unfolding local_watch_follows [OF e, THEN conjunct1]
    using b by (simp add: stops_def editorRename_def p)
qed

end
