(* ===== verification/Runner.thy ===== *)
theory Runner
  imports Prelude
begin

text \<open>
  The job runner (\<open>internal/runner/runner.go\<close>, \<open>keyed_mutex.go\<close>) as a transition system. A state
  holds the channels and semaphores of \<open>Runner\<close> and, for every submitted job, the point its goroutine
  has reached; an action is one channel operation of one goroutine, so all interleavings of the Go
  program are sequences of actions. A select with several ready cases is several enabled actions.
\<close>

section \<open>Semaphores and locks\<close>

text \<open>A buffered channel used as a semaphore is the number of its tokens.\<close>

definition takeSlot :: "nat \<Rightarrow> unit \<Rightarrow> nat \<Rightarrow> nat option" where
  "takeSlot workers u n = (if n < workers then Some (Suc n) else None)"

definition freeSlot :: "unit \<Rightarrow> nat \<Rightarrow> nat" where
  "freeSlot u n = n - 1"

text \<open>\<open>hostSemaphores\<close>: a semaphore per host, made at its first use.\<close>

definition getHostSemaphore :: "gostring \<Rightarrow> (gostring \<rightharpoonup> nat) \<Rightarrow> (gostring \<rightharpoonup> nat)" where
  "getHostSemaphore h m = (case m h of None \<Rightarrow> m(h \<mapsto> 0) | Some n \<Rightarrow> m)"

definition hostUsed :: "(gostring \<rightharpoonup> nat) \<Rightarrow> gostring \<Rightarrow> nat" where
  "hostUsed m h = (case m h of None \<Rightarrow> 0 | Some n \<Rightarrow> n)"

definition takeHost :: "nat \<Rightarrow> gostring \<Rightarrow> (gostring \<rightharpoonup> nat) \<Rightarrow> (gostring \<rightharpoonup> nat) option" where
  "takeHost limit h m = (if hostUsed m h < limit then Some (m(h \<mapsto> Suc (hostUsed m h))) else None)"

definition freeHost :: "gostring \<Rightarrow> (gostring \<rightharpoonup> nat) \<Rightarrow> (gostring \<rightharpoonup> nat)" where
  "freeHost h m = m(h \<mapsto> hostUsed m h - 1)"

text \<open>\<open>KeyedMutex\<close>: per key a channel that holds the token when the key is free.\<close>

definition getOrCreate :: "gostring \<Rightarrow> (gostring \<rightharpoonup> bool) \<Rightarrow> (gostring \<rightharpoonup> bool)" where
  "getOrCreate k m = (case m k of None \<Rightarrow> m(k \<mapsto> True) | Some token \<Rightarrow> m)"

definition lockUsed :: "(gostring \<rightharpoonup> bool) \<Rightarrow> gostring \<Rightarrow> nat" where
  "lockUsed m k = (if m k = Some False then 1 else 0)"

definition lockKeyed :: "gostring \<Rightarrow> (gostring \<rightharpoonup> bool) \<Rightarrow> (gostring \<rightharpoonup> bool) option" where
  "lockKeyed k m = (if m k \<noteq> Some False then Some (m(k \<mapsto> False)) else None)"

definition unlockKeyed :: "gostring \<Rightarrow> (gostring \<rightharpoonup> bool) \<Rightarrow> (gostring \<rightharpoonup> bool)" where
  "unlockKeyed k m = m(k \<mapsto> True)"

text \<open>What the runner relies on, for each of the three: a counter per key with a capacity.\<close>

definition cnt :: "('j \<Rightarrow> bool) \<Rightarrow> 'j list \<Rightarrow> nat" where
  "cnt P xs = length (filter P xs)"

lemma cnt_append [simp]: "cnt P (xs @ ys) = cnt P xs + cnt P ys"
  by (simp add: cnt_def)

lemma cnt_simps [simp]: "cnt P [] = 0" "cnt P (x # xs) = (if P x then Suc (cnt P xs) else cnt P xs)"
  by (simp_all add: cnt_def)

lemma cnt_update:
  "i < length xs \<Longrightarrow> cnt P (xs[i := y]) + of_bool (P (xs ! i)) = cnt P xs + of_bool (P y)"
proof (induction xs arbitrary: i)
  case (Cons x xs)
  then show ?case by (cases i) (auto split: if_splits)
qed simp

lemma cnt_pos: "i < length xs \<Longrightarrow> P (xs ! i) \<Longrightarrow> 0 < cnt P xs"
  by (auto simp: cnt_def filter_empty_conv)

lemma cnt_zero: "cnt P xs = 0 \<longleftrightarrow> (\<forall>i < length xs. \<not> P (xs ! i))"
  by (auto simp: cnt_def filter_empty_conv in_set_conv_nth dest: nth_mem)

lemma cnt_one:
  assumes "cnt P xs \<le> 1" "i < length xs" "k < length xs" "P (xs ! i)" "P (xs ! k)"
  shows "i = k"
proof -
  have "finite {i. i < length xs \<and> P (xs ! i)}" by simp
  moreover have "card {i. i < length xs \<and> P (xs ! i)} \<le> Suc 0"
    using assms(1) by (simp add: cnt_def length_filter_conv_card)
  ultimately show ?thesis using assms(2-5) by (auto simp: card_le_Suc0_iff_eq)
qed

definition accounts :: "('s \<Rightarrow> 'k \<Rightarrow> nat) \<Rightarrow> ('k \<Rightarrow> nat) \<Rightarrow> ('k \<Rightarrow> 'j \<Rightarrow> bool) \<Rightarrow> 'j list \<Rightarrow> 's \<Rightarrow> bool" where
  "accounts used cap hold xs s \<longleftrightarrow> (\<forall>k. cnt (hold k) xs = used s k) \<and> (\<forall>k. used s k \<le> cap k)"

locale semaphore =
  fixes used :: "'s \<Rightarrow> 'k \<Rightarrow> nat"
    and cap :: "'k \<Rightarrow> nat"
    and acquire :: "'k \<Rightarrow> 's \<Rightarrow> 's option"
    and release :: "'k \<Rightarrow> 's \<Rightarrow> 's"
  assumes acquire_Some: "acquire k s = Some s' \<Longrightarrow> used s k < cap k \<and> (\<forall>q. used s' q = (if q = k then Suc (used s k) else used s q))"
    and acquire_None: "acquire k s = None \<Longrightarrow> cap k \<le> used s k"
    and release: "used (release k s) q = (if q = k then used s k - 1 else used s q)"
begin

lemma accounts_acquire:
  assumes "accounts used cap hold xs s" "i < length xs" "acquire k s = Some s'"
    and "\<And>q. \<not> hold q (xs ! i)" "\<And>q. hold q y \<longleftrightarrow> q = k"
  shows "accounts used cap hold (xs[i := y]) s'"
proof -
  have "cnt (hold q) (xs[i := y]) = used s' q \<and> used s' q \<le> cap q" for q
    using assms(1,4,5) acquire_Some [OF assms(3)] cnt_update [OF assms(2), of "hold q" y]
    by (auto simp: accounts_def Suc_le_eq)
  then show ?thesis by (simp add: accounts_def)
qed

lemma accounts_release:
  assumes "accounts used cap hold xs s" "i < length xs" "\<And>q. \<not> hold q y" "\<And>q. hold q (xs ! i) \<longleftrightarrow> q = k"
  shows "accounts used cap hold (xs[i := y]) (release k s)"
proof -
  have "cnt (hold q) (xs[i := y]) = used (release k s) q \<and> used (release k s) q \<le> cap q" for q
    using assms(1,3,4) release [of k s q] cnt_update [OF assms(2), of "hold q" y] le_trans [OF diff_le_self]
    by (auto simp: accounts_def)
  then show ?thesis by (simp add: accounts_def)
qed

lemma accounts_keep:
  assumes "accounts used cap hold xs s" "i < length xs" "\<And>q. hold q y \<longleftrightarrow> hold q (xs ! i)" "\<And>q. used s' q = used s q"
  shows "accounts used cap hold (xs[i := y]) s'"
proof -
  have "cnt (hold q) (xs[i := y]) = cnt (hold q) xs" for q
    using assms(3) cnt_update [OF assms(2), of "hold q" y] by simp
  then show ?thesis using assms(1,4) by (simp add: accounts_def)
qed

lemma accounts_move:
  assumes "accounts used cap hold xs s" "i < length xs"
    and "\<And>q. hold q (xs ! i) \<longleftrightarrow> was \<and> q = k" "\<And>q. hold q y \<longleftrightarrow> now \<and> q = k"
    and "(\<not> was \<and> now \<and> acquire k s = Some s') \<or> (was \<and> \<not> now \<and> s' = release k s)
      \<or> (was = now \<and> (\<forall>q. used s' q = used s q))"
  shows "accounts used cap hold (xs[i := y]) s'"
  using assms(5)
proof (elim disjE conjE)
  assume "\<not> was" now "acquire k s = Some s'"
  then show ?thesis using accounts_acquire [OF assms(1,2), of k s' y] assms(3,4) by simp
next
  assume was "\<not> now" "s' = release k s"
  then show ?thesis using accounts_release [OF assms(1,2), of y k] assms(3,4) by simp
next
  assume "was = now" "\<forall>q. used s' q = used s q"
  then show ?thesis using accounts_keep [OF assms(1,2), of y s'] assms(3,4) by simp
qed

lemma accounts_add:
  assumes "accounts used cap hold xs s" "\<And>q. \<not> hold q y"
  shows "accounts used cap hold (xs @ [y]) s"
  using assms by (simp add: accounts_def)

text \<open>A full semaphore has a holder, so waiting on it is waiting for one.\<close>

lemma blocked_holder:
  assumes "accounts used cap hold xs s" "acquire k s = None" "0 < cap k"
  shows "\<exists>i < length xs. hold k (xs ! i)"
proof (rule ccontr)
  assume "\<not> ?thesis"
  then have "cnt (hold k) xs = 0" by (simp add: cnt_zero)
  then show False using assms acquire_None [OF assms(2)] by (auto simp: accounts_def)
qed

lemma exclusive:
  assumes "accounts used cap hold xs s" "cap k = 1" "i < length xs" "i' < length xs" "hold k (xs ! i)" "hold k (xs ! i')"
  shows "i = i'"
  using assms cnt_one [of "hold k" xs i i'] by (metis accounts_def)

end

interpretation slots: semaphore "\<lambda>n u. n" "\<lambda>u. w" "takeSlot w" freeSlot for w
  by unfold_locales (auto simp: takeSlot_def freeSlot_def split: if_splits)

interpretation hosts: semaphore hostUsed "\<lambda>h. limit" "takeHost limit" freeHost for limit
  by unfold_locales (auto simp: takeHost_def freeHost_def hostUsed_def split: if_splits)

interpretation locks: semaphore lockUsed "\<lambda>k. 1" lockKeyed unlockKeyed
  by unfold_locales (auto simp: lockKeyed_def unlockKeyed_def lockUsed_def split: if_splits)

lemma hostUsed_get [simp]: "hostUsed (getHostSemaphore h m) q = hostUsed m q"
  by (simp add: hostUsed_def getHostSemaphore_def split: option.split)

lemma lockUsed_get [simp]: "lockUsed (getOrCreate k m) q = lockUsed m q"
  by (simp add: lockUsed_def getOrCreate_def split: option.split)

section \<open>State and actions\<close>

definition jobBuffer :: nat where "jobBuffer = 512"

record runner_limits =
  lim_workers :: nat
  lim_host :: nat

text \<open>\<open>New\<close> and \<open>getHostSemaphore\<close>: the limits of a configuration on a machine with \<open>cores\<close> cores.\<close>

definition runnerLimits :: "nat \<Rightarrow> int \<Rightarrow> int \<Rightarrow> runner_limits" where
  "runnerLimits cores maxWorkers maxHostConcurrency =
     \<lparr>lim_workers = (if maxWorkers \<le> 0 then cores else nat maxWorkers),
      lim_host = (if maxHostConcurrency \<le> 0 then 1 else nat maxHostConcurrency)\<rparr>"

record runner_job =
  rj_id :: gostring
  rj_project :: gostring
  rj_host :: gostring

definition lockKey :: "runner_job \<Rightarrow> gostring" where
  "lockKey j = rj_project j @ [CHR 0x00] @ rj_host j"

datatype outcome = JobOk | JobErr gostring

text \<open>
  The points of \<open>Submit\<close> and \<open>execute\<close>: the number in \<open>Finishing\<close>, \<open>Reporting\<close> and \<open>Releasing\<close> says
  how many of the deferred releases (global slot, host slot, lock) are pending.
\<close>

datatype phase =
    Submitting | Rejected | Queued | Dropped
  | Pending | WaitGlobal | WaitHost | WaitLock | Locked | Running
  | Finishing outcome nat | Reporting outcome nat | Releasing outcome nat | Ended outcome

datatype stop_stage = Active | FlagSet | ChannelClosed | Drained

record runner_state =
  r_jobs :: "(runner_job \<times> phase) list"
  r_queue :: "nat list" \<comment> \<open>\<open>jobChannel\<close>\<close>
  r_global :: nat
  r_hosts :: "gostring \<rightharpoonup> nat"
  r_locks :: "gostring \<rightharpoonup> bool"
  r_results :: nat \<comment> \<open>the results in the buffer\<close>
  r_completed :: "(nat \<times> outcome) list" \<comment> \<open>the calls of \<open>OnComplete\<close>\<close>
  r_cancelled :: "nat list" \<comment> \<open>the jobs whose context is done\<close>
  r_wait :: nat \<comment> \<open>\<open>waitGroup\<close>\<close>
  r_dispatching :: bool
  r_stop :: stop_stage

text \<open>After \<open>New\<close> and \<open>Start\<close>.\<close>

definition startRunner :: runner_state where
  "startRunner =
     \<lparr>r_jobs = [], r_queue = [], r_global = 0, r_hosts = Map.empty, r_locks = Map.empty, r_results = 0,
      r_completed = [], r_cancelled = [], r_wait = 1, r_dispatching = True, r_stop = Active\<rparr>"

definition stopClosed :: "runner_state \<Rightarrow> bool" where
  "stopClosed s \<longleftrightarrow> r_stop s = ChannelClosed \<or> r_stop s = Drained"

definition ctxDone :: "nat \<Rightarrow> runner_state \<Rightarrow> bool" where
  "ctxDone i s \<longleftrightarrow> i \<in> set (r_cancelled s)"

definition stoppedError :: gostring where "stoppedError = ''runner stopped''"

definition ctxError :: gostring where "ctxError = ''context canceled''"

text \<open>The moves of a goroutine: the main case of its select, the stop case, the context case.\<close>

datatype move = Proceed | OnStop | OnCtx | Return outcome

definition onlyOn :: "move \<Rightarrow> move \<Rightarrow> (phase \<times> runner_state) option \<Rightarrow> (phase \<times> runner_state) option" where
  "onlyOn wanted m r = (if m = wanted then r else None)"

text \<open>The two other cases of a select, while holding \<open>n\<close> resources.\<close>

definition giveUp :: "move \<Rightarrow> nat \<Rightarrow> nat \<Rightarrow> runner_state \<Rightarrow> (phase \<times> runner_state) option" where
  "giveUp m i n s =
     (if m = OnStop \<and> stopClosed s then Some (Finishing (JobErr stoppedError) n, s)
      else if m = OnCtx \<and> ctxDone i s then Some (Finishing (JobErr ctxError) n, s)
      else None)"

fun jobStep ::
  "runner_limits \<Rightarrow> nat \<Rightarrow> runner_job \<Rightarrow> phase \<Rightarrow> move \<Rightarrow> runner_state \<Rightarrow> (phase \<times> runner_state) option" where
  "jobStep c i j Submitting m s =
     (if m = Proceed \<and> length (r_queue s) < jobBuffer
      then Some (Queued, s\<lparr>r_queue := r_queue s @ [i]\<rparr>)
      else if m = OnStop \<and> stopClosed s \<or> m = OnCtx \<and> ctxDone i s then Some (Rejected, s)
      else None)"
| "jobStep c i j Pending m s =
     onlyOn Proceed m
       (Some (if ctxDone i s then Finishing (JobErr ctxError) 0 else WaitGlobal, s))"
| "jobStep c i j WaitGlobal m s =
     (if m = Proceed
      then (case takeSlot (lim_workers c) () (r_global s) of
              None \<Rightarrow> None
            | Some g \<Rightarrow> Some (WaitHost, s\<lparr>r_global := g, r_hosts := getHostSemaphore (rj_host j) (r_hosts s)\<rparr>))
      else giveUp m i 0 s)"
| "jobStep c i j WaitHost m s =
     (if m = Proceed
      then (case takeHost (lim_host c) (rj_host j) (r_hosts s) of
              None \<Rightarrow> None
            | Some hs \<Rightarrow> Some (WaitLock, s\<lparr>r_hosts := hs, r_locks := getOrCreate (lockKey j) (r_locks s)\<rparr>))
      else giveUp m i 1 s)"
| "jobStep c i j WaitLock m s =
     (if m = Proceed
      then (case lockKeyed (lockKey j) (r_locks s) of
              None \<Rightarrow> None
            | Some ls \<Rightarrow> Some (Locked, s\<lparr>r_locks := ls\<rparr>))
      else if m = OnCtx \<and> ctxDone i s
      then Some (Finishing (JobErr (''acquire project lock: '' @ ctxError)) 2, s)
      else None)"
| "jobStep c i j Locked m s =
     onlyOn Proceed m (Some (if ctxDone i s then Finishing (JobErr ctxError) 3 else Running, s))"
| "jobStep c i j Running m s = (case m of Return res \<Rightarrow> Some (Finishing res 3, s) | _ \<Rightarrow> None)"
| "jobStep c i j (Finishing res n) m s =
     onlyOn Proceed m (Some (Reporting res n, s\<lparr>r_completed := r_completed s @ [(i, res)]\<rparr>))"
| "jobStep c i j (Reporting res n) m s =
     (if m = Proceed \<and> r_results s < jobBuffer
      then Some (Releasing res n, s\<lparr>r_results := Suc (r_results s)\<rparr>)
      else if m = OnStop \<and> stopClosed s then Some (Releasing res n, s)
      else None)"
| "jobStep c i j (Releasing res n) m s =
     onlyOn Proceed m
       (if n = 3 then Some (Releasing res 2, s\<lparr>r_locks := unlockKeyed (lockKey j) (r_locks s)\<rparr>)
        else if n = 2 then Some (Releasing res 1, s\<lparr>r_hosts := freeHost (rj_host j) (r_hosts s)\<rparr>)
        else if n = 1 then Some (Releasing res 0, s\<lparr>r_global := freeSlot () (r_global s)\<rparr>)
        else Some (Ended res, s\<lparr>r_wait := r_wait s - 1\<rparr>))"
| "jobStep c i j Rejected m s = None"
| "jobStep c i j Queued m s = None"
| "jobStep c i j Dropped m s = None"
| "jobStep c i j (Ended res) m s = None"

definition setPhase :: "nat \<Rightarrow> phase \<Rightarrow> runner_state \<Rightarrow> runner_state" where
  "setPhase i ph s = s\<lparr>r_jobs := (r_jobs s)[i := (fst (r_jobs s ! i), ph)]\<rparr>"

datatype action =
    Submit runner_job \<comment> \<open>\<open>Submit\<close> past its first check\<close>
  | Move nat move \<comment> \<open>a goroutine's next operation\<close>
  | Dispatch \<comment> \<open>\<open>dispatch\<close> takes a job and starts its goroutine\<close>
  | StopDispatch
  | Drain \<comment> \<open>a reader takes a result\<close>
  | Cancel nat
  | SetStopped \<comment> \<open>the steps of \<open>Stop\<close>\<close>
  | CloseStop
  | DropQueue

fun perform :: "runner_limits \<Rightarrow> action \<Rightarrow> runner_state \<Rightarrow> runner_state option" where
  "perform c (Submit j) s =
     (if r_stop s \<noteq> Active then None else Some (s\<lparr>r_jobs := r_jobs s @ [(j, Submitting)]\<rparr>))"
| "perform c (Move i m) s =
     (if i < length (r_jobs s)
      then (case jobStep c i (fst (r_jobs s ! i)) (snd (r_jobs s ! i)) m s of
              None \<Rightarrow> None
            | Some (ph, s') \<Rightarrow> Some (setPhase i ph s'))
      else None)"
| "perform c Dispatch s =
     (case r_queue s of
        [] \<Rightarrow> None
      | i # q \<Rightarrow>
          if r_dispatching s then Some (setPhase i Pending (s\<lparr>r_queue := q, r_wait := Suc (r_wait s)\<rparr>)) else None)"
| "perform c StopDispatch s =
     (if r_dispatching s \<and> stopClosed s then Some (s\<lparr>r_dispatching := False, r_wait := r_wait s - 1\<rparr>) else None)"
| "perform c Drain s = (if 0 < r_results s then Some (s\<lparr>r_results := r_results s - 1\<rparr>) else None)"
| "perform c (Cancel i) s = (if i < length (r_jobs s) then Some (s\<lparr>r_cancelled := i # r_cancelled s\<rparr>) else None)"
| "perform c SetStopped s = (if r_stop s = Active then Some (s\<lparr>r_stop := FlagSet\<rparr>) else None)"
| "perform c CloseStop s = (if r_stop s = FlagSet then Some (s\<lparr>r_stop := ChannelClosed\<rparr>) else None)"
| "perform c DropQueue s =
     (if r_stop s = ChannelClosed \<and> r_wait s = 0
      then Some (s\<lparr>r_stop := Drained, r_queue := [],
                   r_jobs := map (\<lambda>(j, ph). (j, if ph = Queued then Dropped else ph)) (r_jobs s)\<rparr>)
      else None)"

inductive reachable :: "runner_limits \<Rightarrow> runner_state \<Rightarrow> bool" for c where
  start: "reachable c startRunner"
| act: "reachable c s \<Longrightarrow> perform c a s = Some s' \<Longrightarrow> reachable c s'"

inductive_cases reachable_startE: "reachable c s"

fun performs :: "runner_limits \<Rightarrow> action list \<Rightarrow> runner_state \<Rightarrow> runner_state option" where
  "performs c [] s = Some s"
| "performs c (a # as) s = (case perform c a s of None \<Rightarrow> None | Some s' \<Rightarrow> performs c as s')"

lemma reachable_performs: "reachable c s \<Longrightarrow> performs c as s = Some s' \<Longrightarrow> reachable c s'"
  by (induction as arbitrary: s) (auto split: option.splits intro: reachable.act)

end
