(* ===== verification/Runner_Laws.thy ===== *)
theory Runner_Laws
  imports Runner
begin

text \<open>
  Correctness of the runner: its invariant over all interleavings, mutual exclusion and limits,
  exactly-once completion, and progress: nothing deadlocks and every started job ends.
\<close>

section \<open>The invariant\<close>

fun held :: "phase \<Rightarrow> nat" where
  "held WaitHost = 1" | "held WaitLock = 2" | "held Locked = 3" | "held Running = 3"
| "held (Finishing res n) = n" | "held (Reporting res n) = n" | "held (Releasing res n) = n"
| "held ph = 0"

fun inFlight :: "phase \<Rightarrow> bool" where
  "inFlight Submitting = False" | "inFlight Rejected = False" | "inFlight Queued = False"
| "inFlight Dropped = False" | "inFlight (Ended res) = False" | "inFlight ph = True"

fun told :: "phase \<Rightarrow> outcome option" where
  "told (Reporting res n) = Some res" | "told (Releasing res n) = Some res" | "told (Ended res) = Some res"
| "told ph = None"

definition holdsSlot :: "unit \<Rightarrow> runner_job \<times> phase \<Rightarrow> bool" where
  "holdsSlot u e \<longleftrightarrow> 1 \<le> held (snd e)"

definition holdsHost :: "gostring \<Rightarrow> runner_job \<times> phase \<Rightarrow> bool" where
  "holdsHost h e \<longleftrightarrow> 2 \<le> held (snd e) \<and> rj_host (fst e) = h"

definition holdsLock :: "gostring \<Rightarrow> runner_job \<times> phase \<Rightarrow> bool" where
  "holdsLock k e \<longleftrightarrow> 3 \<le> held (snd e) \<and> lockKey (fst e) = k"

abbreviation slotsOk :: "runner_limits \<Rightarrow> (runner_job \<times> phase) list \<Rightarrow> nat \<Rightarrow> bool" where
  "slotsOk c \<equiv> accounts (\<lambda>n u. n) (\<lambda>u. lim_workers c) holdsSlot"

abbreviation hostsOk :: "runner_limits \<Rightarrow> (runner_job \<times> phase) list \<Rightarrow> (gostring \<rightharpoonup> nat) \<Rightarrow> bool" where
  "hostsOk c \<equiv> accounts hostUsed (\<lambda>h. lim_host c) holdsHost"

abbreviation locksOk :: "(runner_job \<times> phase) list \<Rightarrow> (gostring \<rightharpoonup> bool) \<Rightarrow> bool" where
  "locksOk \<equiv> accounts lockUsed (\<lambda>k. 1) holdsLock"

definition flightOk :: "runner_state \<Rightarrow> bool" where
  "flightOk s \<longleftrightarrow>
     r_wait s = cnt (\<lambda>e. inFlight (snd e)) (r_jobs s) + of_bool (r_dispatching s)
     \<and> (\<not> r_dispatching s \<longrightarrow> stopClosed s) \<and> (r_stop s = Drained \<longrightarrow> r_wait s = 0)
     \<and> list_all (\<lambda>e. held (snd e) \<le> 3) (r_jobs s)"

definition queueOk :: "runner_state \<Rightarrow> bool" where
  "queueOk s \<longleftrightarrow> distinct (r_queue s)
     \<and> (\<forall>i. i \<in> set (r_queue s) \<longleftrightarrow> i < length (r_jobs s) \<and> snd (r_jobs s ! i) = Queued)"

definition completedOk :: "runner_state \<Rightarrow> bool" where
  "completedOk s \<longleftrightarrow> distinct (map fst (r_completed s))
     \<and> (\<forall>i res. (i, res) \<in> set (r_completed s) \<longleftrightarrow> i < length (r_jobs s) \<and> told (snd (r_jobs s ! i)) = Some res)"

definition runnerInv :: "runner_limits \<Rightarrow> runner_state \<Rightarrow> bool" where
  "runnerInv c s \<longleftrightarrow>
     slotsOk c (r_jobs s) (r_global s) \<and> hostsOk c (r_jobs s) (r_hosts s) \<and> locksOk (r_jobs s) (r_locks s)
     \<and> flightOk s \<and> queueOk s \<and> completedOk s"

lemma runnerInv_start: "runnerInv c startRunner"
  by (simp add: runnerInv_def startRunner_def accounts_def hostUsed_def lockUsed_def flightOk_def queueOk_def
      completedOk_def)

section \<open>What one step of a goroutine does\<close>

lemmas step_defs = onlyOn_def giveUp_def

lemma jobStep_frame:
  assumes "jobStep c i j ph m s = Some (ph', s')"
  shows "r_jobs s' = r_jobs s" "r_stop s' = r_stop s" "r_dispatching s' = r_dispatching s"
    "r_cancelled s' = r_cancelled s" "ph \<noteq> Queued"
  using assms by (cases ph; auto simp: step_defs split: if_splits option.splits move.splits)+

lemma jobStep_slots:
  assumes "jobStep c i j ph m s = Some (ph', s')" "held ph \<le> 3"
  shows "(\<not> 1 \<le> held ph \<and> 1 \<le> held ph' \<and> takeSlot (lim_workers c) () (r_global s) = Some (r_global s'))
    \<or> (1 \<le> held ph \<and> \<not> 1 \<le> held ph' \<and> r_global s' = freeSlot () (r_global s))
    \<or> ((1 \<le> held ph \<longleftrightarrow> 1 \<le> held ph') \<and> r_global s' = r_global s)"
  using assms by (cases ph) (auto simp: step_defs split: if_splits option.splits move.splits)

lemma jobStep_hosts:
  assumes "jobStep c i j ph m s = Some (ph', s')" "held ph \<le> 3"
  shows "(\<not> 2 \<le> held ph \<and> 2 \<le> held ph' \<and> takeHost (lim_host c) (rj_host j) (r_hosts s) = Some (r_hosts s'))
    \<or> (2 \<le> held ph \<and> \<not> 2 \<le> held ph' \<and> r_hosts s' = freeHost (rj_host j) (r_hosts s))
    \<or> ((2 \<le> held ph \<longleftrightarrow> 2 \<le> held ph') \<and> (\<forall>h. hostUsed (r_hosts s') h = hostUsed (r_hosts s) h))"
  using assms by (cases ph) (auto simp: step_defs split: if_splits option.splits move.splits)

lemma jobStep_locks:
  assumes "jobStep c i j ph m s = Some (ph', s')" "held ph \<le> 3"
  shows "(\<not> 3 \<le> held ph \<and> 3 \<le> held ph' \<and> lockKeyed (lockKey j) (r_locks s) = Some (r_locks s'))
    \<or> (3 \<le> held ph \<and> \<not> 3 \<le> held ph' \<and> r_locks s' = unlockKeyed (lockKey j) (r_locks s))
    \<or> ((3 \<le> held ph \<longleftrightarrow> 3 \<le> held ph') \<and> (\<forall>k. lockUsed (r_locks s') k = lockUsed (r_locks s) k))"
  using assms by (cases ph) (auto simp: step_defs split: if_splits option.splits move.splits)

lemma jobStep_flight:
  assumes "jobStep c i j ph m s = Some (ph', s')"
  shows "held ph \<le> 3 \<longrightarrow> held ph' \<le> 3" "inFlight ph' \<longrightarrow> inFlight ph"
    "r_wait s' = (if inFlight ph \<and> \<not> inFlight ph' then r_wait s - 1 else r_wait s)"
  using assms by (cases ph; auto simp: step_defs split: if_splits option.splits move.splits)+

lemma jobStep_queue:
  assumes "jobStep c i j ph m s = Some (ph', s')"
  shows "r_queue s' = (if ph' = Queued then r_queue s @ [i] else r_queue s)" "ph' = Queued \<longrightarrow> ph = Submitting"
  using assms by (cases ph; auto simp: step_defs split: if_splits option.splits move.splits)+

lemma jobStep_completed:
  assumes "jobStep c i j ph m s = Some (ph', s')"
  shows "(told ph' = told ph \<and> r_completed s' = r_completed s)
    \<or> (\<exists>res. told ph = None \<and> told ph' = Some res \<and> r_completed s' = r_completed s @ [(i, res)])"
  using assms by (cases ph) (auto simp: step_defs split: if_splits option.splits move.splits)

section \<open>Preservation\<close>

lemma slotsOk_Move:
  assumes "slotsOk c xs (r_global s)" "i < length xs" "xs ! i = (j, ph)" "jobStep c i j ph m s = Some (ph', s')" "held ph \<le> 3"
  shows "slotsOk c (xs[i := (j, ph')]) (r_global s')"
  by (rule slots.accounts_move [where was = "1 \<le> held ph" and now = "1 \<le> held ph'" and k = "()", OF assms(1,2)])
     (use jobStep_slots [OF assms(4,5)] assms(3) in \<open>simp_all add: holdsSlot_def\<close>)

lemma hostsOk_Move:
  assumes "hostsOk c xs (r_hosts s)" "i < length xs" "xs ! i = (j, ph)" "jobStep c i j ph m s = Some (ph', s')" "held ph \<le> 3"
  shows "hostsOk c (xs[i := (j, ph')]) (r_hosts s')"
  by (rule hosts.accounts_move [where was = "2 \<le> held ph" and now = "2 \<le> held ph'" and k = "rj_host j", OF assms(1,2)])
     (use jobStep_hosts [OF assms(4,5)] assms(3) in \<open>auto simp: holdsHost_def\<close>)

lemma locksOk_Move:
  assumes "locksOk xs (r_locks s)" "i < length xs" "xs ! i = (j, ph)" "jobStep c i j ph m s = Some (ph', s')" "held ph \<le> 3"
  shows "locksOk (xs[i := (j, ph')]) (r_locks s')"
  by (rule locks.accounts_move [where was = "3 \<le> held ph" and now = "3 \<le> held ph'" and k = "lockKey j", OF assms(1,2)])
     (use jobStep_locks [OF assms(4,5)] assms(3) in \<open>auto simp: holdsLock_def\<close>)

lemma setPhase_fields [simp]:
  "r_jobs (setPhase i ph s) = (r_jobs s)[i := (fst (r_jobs s ! i), ph)]" "r_queue (setPhase i ph s) = r_queue s"
  "r_global (setPhase i ph s) = r_global s" "r_hosts (setPhase i ph s) = r_hosts s"
  "r_locks (setPhase i ph s) = r_locks s" "r_results (setPhase i ph s) = r_results s"
  "r_completed (setPhase i ph s) = r_completed s" "r_wait (setPhase i ph s) = r_wait s"
  "r_dispatching (setPhase i ph s) = r_dispatching s" "r_stop (setPhase i ph s) = r_stop s"
  "r_cancelled (setPhase i ph s) = r_cancelled s" "stopClosed (setPhase i ph s) = stopClosed s"
  by (simp_all add: setPhase_def stopClosed_def)

lemma flightOk_Move:
  assumes "flightOk s" "i < length (r_jobs s)" "r_jobs s ! i = (j, ph)" "jobStep c i j ph m s = Some (ph', s')"
  shows "flightOk (setPhase i ph' s')"
proof -
  note f = jobStep_frame [OF assms(4)] jobStep_flight [OF assms(4)]
  have u: "cnt (\<lambda>e. inFlight (snd e)) ((r_jobs s)[i := (j, ph')]) + of_bool (inFlight ph)
      = cnt (\<lambda>e. inFlight (snd e)) (r_jobs s) + of_bool (inFlight ph')"
    using cnt_update [OF assms(2), of "\<lambda>e. inFlight (snd e)" "(j, ph')"] assms(3) by simp
  have p: "inFlight ph \<Longrightarrow> 0 < cnt (\<lambda>e. inFlight (snd e)) (r_jobs s)"
    by (rule cnt_pos [OF assms(2)]) (simp add: assms(3))
  have h: "held ph \<le> 3" using assms(1-3) by (force simp: flightOk_def list_all_iff in_set_conv_nth)
  have l: "list_all (\<lambda>e. held (snd e) \<le> 3) ((r_jobs s)[i := (j, ph')])"
    using assms(1,2) f(6) h by (auto simp: flightOk_def list_all_iff dest!: set_update_subset_insert [THEN subsetD])
  show ?thesis
    using assms(1,3) f u p l by (cases "inFlight ph"; cases "inFlight ph'") (auto simp: flightOk_def stopClosed_def)
qed

lemma queueOk_Move:
  assumes "queueOk s" "i < length (r_jobs s)" "r_jobs s ! i = (j, ph)" "jobStep c i j ph m s = Some (ph', s')"
  shows "queueOk (setPhase i ph' s')"
proof -
  note f = jobStep_frame [OF assms(4)] jobStep_queue [OF assms(4)]
  have ni: "i \<notin> set (r_queue s)" using assms(1,3) f(5) by (simp add: queueOk_def)
  have q: "k \<in> set (r_queue s) \<longleftrightarrow> k < length (r_jobs s) \<and> snd (r_jobs s ! k) = Queued" for k
    using assms(1) by (simp add: queueOk_def)
  have "k \<in> set (r_queue s') \<longleftrightarrow> k < length (r_jobs s) \<and> snd (((r_jobs s)[i := (j, ph')]) ! k) = Queued" for k
    using q [of k] ni f(5,6) assms(2,3) by (cases "k = i") auto
  moreover have "distinct (r_queue s')" using ni f(6) assms(1) by (simp add: queueOk_def)
  ultimately show ?thesis using f(1) assms(3) by (simp add: queueOk_def)
qed

lemma completedOk_Move:
  assumes "completedOk s" "i < length (r_jobs s)" "r_jobs s ! i = (j, ph)" "jobStep c i j ph m s = Some (ph', s')"
  shows "completedOk (setPhase i ph' s')"
proof -
  note f = jobStep_frame [OF assms(4)]
  have q: "(k, res) \<in> set (r_completed s) \<longleftrightarrow> k < length (r_jobs s) \<and> told (snd (r_jobs s ! k)) = Some res" for k res
    using assms(1) by (simp add: completedOk_def)
  have d: "distinct (map fst (r_completed s))" using assms(1) by (simp add: completedOk_def)
  let ?new = "(r_jobs s)[i := (j, ph')]"
  have "distinct (map fst (r_completed s'))
      \<and> (\<forall>k res. (k, res) \<in> set (r_completed s') \<longleftrightarrow> k < length (r_jobs s) \<and> told (snd (?new ! k)) = Some res)"
    using jobStep_completed [OF assms(4)]
  proof (elim disjE exE conjE)
    assume a: "told ph' = told ph" "r_completed s' = r_completed s"
    have "told (snd (?new ! k)) = told (snd (r_jobs s ! k))" for k
      using a(1) assms(2,3) by (cases "k = i") auto
    then show ?thesis using a(2) d q by simp
  next
    fix res assume a: "told ph = None" "told ph' = Some res" "r_completed s' = r_completed s @ [(i, res)]"
    have ni: "i \<notin> fst ` set (r_completed s)" using q a(1) assms(3) by (auto simp: image_iff)
    have "(k, o') \<in> set (r_completed s') \<longleftrightarrow> k < length (r_jobs s) \<and> told (snd (?new ! k)) = Some o'" for k o'
      using a(2,3) q [of k o'] ni assms(2) by (cases "k = i") (auto simp: image_iff)
    then show ?thesis using ni d a(3) by simp
  qed
  then show ?thesis using f(1) assms(3) by (simp add: completedOk_def)
qed

lemma runnerInv_Move:
  assumes "runnerInv c s" "perform c (Move i m) s = Some s''"
  shows "runnerInv c s''"
proof -
  from assms(2) obtain j ph ph' s' where m: "i < length (r_jobs s)" "r_jobs s ! i = (j, ph)"
    "jobStep c i j ph m s = Some (ph', s')" "s'' = setPhase i ph' s'"
    by (cases "r_jobs s ! i") (auto split: if_splits option.splits)
  have h: "held ph \<le> 3"
    using assms(1) m(1,2) by (force simp: runnerInv_def flightOk_def list_all_iff in_set_conv_nth)
  show ?thesis
    unfolding runnerInv_def m(4)
    using assms(1) [unfolded runnerInv_def] m(1-3) h jobStep_frame(1) [OF m(3)]
      slotsOk_Move [OF _ m(1-3) h] hostsOk_Move [OF _ m(1-3) h] locksOk_Move [OF _ m(1-3) h]
      flightOk_Move [OF _ m(1-3)] queueOk_Move [OF _ m(1-3)] completedOk_Move [OF _ m(1-3)]
    by simp
qed

lemma runnerInv_idle:
  assumes "runnerInv c s" "r_jobs s' = r_jobs s" "r_global s' = r_global s" "r_hosts s' = r_hosts s" "r_locks s' = r_locks s"
    "r_queue s' = r_queue s" "r_completed s' = r_completed s" "flightOk s'"
  shows "runnerInv c s'"
  using assms by (simp add: runnerInv_def queueOk_def completedOk_def)

lemma told_alive [simp]: "told Queued = None" "told Pending = None" "held Queued = 0"
  by simp_all

lemma cnt_same:
  assumes "i < length xs" "P y \<longleftrightarrow> P (xs ! i)"
  shows "cnt P (xs[i := y]) = cnt P xs"
  using cnt_update [OF assms(1), of P y] assms(2) by simp

lemma runnerInv_Dispatch:
  assumes "runnerInv c s" "perform c Dispatch s = Some s'"
  shows "runnerInv c s'"
proof -
  from assms(2) obtain i q where q: "r_queue s = i # q" "r_dispatching s"
    "s' = setPhase i Pending (s\<lparr>r_queue := q, r_wait := Suc (r_wait s)\<rparr>)"
    by (auto split: list.splits if_splits)
  note inv = assms(1) [unfolded runnerInv_def]
  have "i \<in> set (r_queue s)" using q(1) by simp
  then obtain j where j: "i < length (r_jobs s)" "r_jobs s ! i = (j, Queued)"
    using inv by (cases "r_jobs s ! i") (auto simp: queueOk_def)
  have l: "list_all (\<lambda>e. held (snd e) \<le> 3) ((r_jobs s)[i := (j, Pending)])"
    using inv j by (auto simp: flightOk_def list_all_iff dest!: set_update_subset_insert [THEN subsetD])
  have "cnt (\<lambda>e. inFlight (snd e)) ((r_jobs s)[i := (j, Pending)]) = Suc (cnt (\<lambda>e. inFlight (snd e)) (r_jobs s))"
    using cnt_update [OF j(1), of "\<lambda>e. inFlight (snd e)" "(j, Pending)"] j(2) by simp
  moreover have "r_stop s \<noteq> Drained" using inv q(2) by (auto simp: flightOk_def)
  ultimately have "flightOk s'" using inv q j(2) l by (simp add: flightOk_def stopClosed_def)
  moreover have "queueOk s'"
  proof -
    have d: "distinct (r_queue s)" and mem: "k \<in> set (r_queue s) \<longleftrightarrow> k < length (r_jobs s) \<and> snd (r_jobs s ! k) = Queued" for k
      using inv by (simp_all add: queueOk_def)
    have "k \<in> set q \<longleftrightarrow> k < length (r_jobs s) \<and> snd ((r_jobs s)[i := (j, Pending)] ! k) = Queued" for k
      using d mem [of k] q(1) j(1) by (cases "k = i") auto
    then show ?thesis using d q(1,3) j(2) by (simp add: queueOk_def)
  qed
  moreover have "completedOk s'"
  proof -
    have "told (snd ((r_jobs s)[i := (j, Pending)] ! k)) = told (snd (r_jobs s ! k))" for k
      using j by (cases "k = i") auto
    then show ?thesis using inv q(3) j(2) by (simp add: completedOk_def)
  qed
  moreover have "slotsOk c (r_jobs s') (r_global s')"
    unfolding q(3) using inv j by (auto intro!: slots.accounts_keep simp: holdsSlot_def)
  moreover have "hostsOk c (r_jobs s') (r_hosts s')"
    unfolding q(3) using inv j by (auto intro!: hosts.accounts_keep simp: holdsHost_def)
  moreover have "locksOk (r_jobs s') (r_locks s')"
    unfolding q(3) setPhase_fields by (rule locks.accounts_keep) (use inv j in \<open>auto simp: holdsLock_def\<close>)
  ultimately show ?thesis by (simp add: runnerInv_def)
qed

lemma cnt_map: "(\<And>x. P (f x) \<longleftrightarrow> P x) \<Longrightarrow> cnt P (map f xs) = cnt P xs"
  by (induction xs) auto

lemma runnerInv_Submit:
  assumes "runnerInv c s" "perform c (Submit j) s = Some s'"
  shows "runnerInv c s'"
proof -
  note inv = assms(1) [unfolded runnerInv_def]
  have s': "s' = s\<lparr>r_jobs := r_jobs s @ [(j, Submitting)]\<rparr>" and act: "r_stop s = Active"
    using assms(2) by (auto split: if_splits)
  have "flightOk s'" using inv act by (simp add: s' flightOk_def stopClosed_def)
  moreover have "queueOk s'" using inv by (auto simp: s' queueOk_def nth_append less_Suc_eq)
  moreover have "completedOk s'" using inv by (auto simp: s' completedOk_def nth_append less_Suc_eq)
  moreover have "slotsOk c (r_jobs s') (r_global s')"
    unfolding s' using inv by (auto intro!: slots.accounts_add simp: holdsSlot_def)
  moreover have "hostsOk c (r_jobs s') (r_hosts s')"
    unfolding s' using inv by (auto intro!: hosts.accounts_add simp: holdsHost_def)
  moreover have "locksOk (r_jobs s') (r_locks s')"
  proof -
    have "locksOk (r_jobs s @ [(j, Submitting)]) (r_locks s)"
      by (rule locks.accounts_add) (use inv in \<open>auto simp: holdsLock_def\<close>)
    then show ?thesis by (simp add: s')
  qed
  ultimately show ?thesis by (simp add: runnerInv_def)
qed

definition dropPhase :: "runner_job \<times> phase \<Rightarrow> runner_job \<times> phase" where
  "dropPhase = (\<lambda>(j, ph). (j, if ph = Queued then Dropped else ph))"

lemma dropPhase_facts [simp]:
  "held (snd (dropPhase e)) = held (snd e)" "inFlight (snd (dropPhase e)) = inFlight (snd e)"
  "told (snd (dropPhase e)) = told (snd e)" "fst (dropPhase e) = fst e" "snd (dropPhase e) \<noteq> Queued"
  by (cases e; cases "snd e"; simp add: dropPhase_def)+

lemma accounts_map:
  "(\<And>q e. hold q (f e) \<longleftrightarrow> hold q e) \<Longrightarrow> accounts used cap hold (map f xs) s \<longleftrightarrow> accounts used cap hold xs s"
  by (simp add: accounts_def cnt_map)

lemma runnerInv_DropQueue:
  assumes "runnerInv c s" "perform c DropQueue s = Some s'"
  shows "runnerInv c s'"
proof -
  note inv = assms(1) [unfolded runnerInv_def]
  have g: "r_wait s = 0" "r_stop s = ChannelClosed"
    and s': "s' = s\<lparr>r_stop := Drained, r_queue := [], r_jobs := map dropPhase (r_jobs s)\<rparr>"
    using assms(2) by (auto simp: dropPhase_def split: if_splits)
  have "flightOk s'" using inv g by (simp add: s' flightOk_def stopClosed_def cnt_map list_all_iff)
  moreover have "queueOk s'" by (auto simp: s' queueOk_def)
  moreover have "completedOk s'" using inv by (auto simp: s' completedOk_def)
  moreover have "slotsOk c (r_jobs s') (r_global s')" "hostsOk c (r_jobs s') (r_hosts s')"
    using inv by (simp_all add: s' accounts_map holdsSlot_def holdsHost_def)
  moreover have "locksOk (map dropPhase (r_jobs s)) (r_locks s)"
    by (subst accounts_map) (use inv in \<open>simp_all add: holdsLock_def\<close>)
  ultimately show ?thesis by (simp add: runnerInv_def s')
qed

lemma runnerInv_perform:
  assumes "runnerInv c s" "perform c a s = Some s'"
  shows "runnerInv c s'"
proof -
  have f: "flightOk s" using assms(1) by (simp add: runnerInv_def)
  show ?thesis
  proof (cases a)
    case StopDispatch
    then show ?thesis
      using assms(2) f by (intro runnerInv_idle [OF assms(1)]) (auto simp: flightOk_def stopClosed_def split: if_splits)
  next
    case Drain
    then show ?thesis
      using assms(2) f by (intro runnerInv_idle [OF assms(1)]) (auto simp: flightOk_def stopClosed_def split: if_splits)
  next
    case (Cancel i)
    then show ?thesis
      using assms(2) f by (intro runnerInv_idle [OF assms(1)]) (auto simp: flightOk_def stopClosed_def split: if_splits)
  next
    case SetStopped
    then show ?thesis
      using assms(2) f by (intro runnerInv_idle [OF assms(1)]) (auto simp: flightOk_def stopClosed_def split: if_splits)
  next
    case CloseStop
    then show ?thesis
      using assms(2) f by (intro runnerInv_idle [OF assms(1)]) (auto simp: flightOk_def stopClosed_def split: if_splits)
  qed (use assms runnerInv_Move runnerInv_Dispatch runnerInv_Submit runnerInv_DropQueue in blast)+
qed

lemma reachable_inv: "reachable c s \<Longrightarrow> runnerInv c s"
  by (induction rule: reachable.induct) (auto intro: runnerInv_start runnerInv_perform)

section \<open>Properties\<close>

lemma cnt_mono: "(\<And>e. P e \<Longrightarrow> Q e) \<Longrightarrow> cnt P xs \<le> cnt Q xs"
  by (induction xs) (auto intro: le_SucI)

text \<open>Running jobs hold a slot, one of their host and their lock.\<close>

lemma running_limits:
  assumes "runnerInv c s"
  shows "cnt (\<lambda>e. snd e = Running) (r_jobs s) \<le> lim_workers c"
    and "cnt (\<lambda>e. snd e = Running \<and> rj_host (fst e) = h) (r_jobs s) \<le> lim_host c"
proof -
  have b: "cnt (holdsSlot ()) (r_jobs s) \<le> lim_workers c" "cnt (holdsHost h) (r_jobs s) \<le> lim_host c"
    using assms by (simp_all add: runnerInv_def accounts_def)
  have "cnt (\<lambda>e. snd e = Running) (r_jobs s) \<le> cnt (holdsSlot ()) (r_jobs s)" by (rule cnt_mono) (simp add: holdsSlot_def)
  then show "cnt (\<lambda>e. snd e = Running) (r_jobs s) \<le> lim_workers c" using b(1) by simp
  have "cnt (\<lambda>e. snd e = Running \<and> rj_host (fst e) = h) (r_jobs s) \<le> cnt (holdsHost h) (r_jobs s)"
    by (rule cnt_mono) (simp add: holdsHost_def)
  then show "cnt (\<lambda>e. snd e = Running \<and> rj_host (fst e) = h) (r_jobs s) \<le> lim_host c" using b(2) by simp
qed

lemma running_apart:
  assumes "runnerInv c s" "i < length (r_jobs s)" "k < length (r_jobs s)" "i \<noteq> k"
    and "snd (r_jobs s ! i) = Running" "snd (r_jobs s ! k) = Running"
  shows "(rj_project (fst (r_jobs s ! i)), rj_host (fst (r_jobs s ! i)))
      \<noteq> (rj_project (fst (r_jobs s ! k)), rj_host (fst (r_jobs s ! k)))"
proof
  assume "(rj_project (fst (r_jobs s ! i)), rj_host (fst (r_jobs s ! i)))
      = (rj_project (fst (r_jobs s ! k)), rj_host (fst (r_jobs s ! k)))"
  then have "holdsLock (lockKey (fst (r_jobs s ! i))) (r_jobs s ! i)" "holdsLock (lockKey (fst (r_jobs s ! i))) (r_jobs s ! k)"
    using assms(5,6) by (simp_all add: holdsLock_def lockKey_def)
  moreover have "locksOk (r_jobs s) (r_locks s)" using assms(1) by (simp add: runnerInv_def)
  ultimately have "i = k" by (intro locks.exclusive [OF _ refl assms(2,3)])
  then show False using assms(4) by simp
qed

text \<open>
  C2. No two deployments of one project on one host ever overlap, and the limits hold in every
  interleaving: in any state the runner can reach, two running jobs have different projects or
  different hosts, at most \<open>MaxHostConcurrency\<close> jobs run on a host, at most \<open>MaxWorkers\<close> run at
  all, and the waits of the semaphores and locks equal the jobs that hold them, so none leaks.
\<close>

theorem runner_exclusive:
  assumes "reachable c s" and "i < length (r_jobs s)" "k < length (r_jobs s)" "i \<noteq> k"
    and "snd (r_jobs s ! i) = Running" "snd (r_jobs s ! k) = Running"
  shows "(rj_project (fst (r_jobs s ! i)), rj_host (fst (r_jobs s ! i)))
          \<noteq> (rj_project (fst (r_jobs s ! k)), rj_host (fst (r_jobs s ! k)))
    \<and> cnt (\<lambda>e. snd e = Running) (r_jobs s) \<le> lim_workers c
    \<and> (\<forall>h. cnt (\<lambda>e. snd e = Running \<and> rj_host (fst e) = h) (r_jobs s) \<le> lim_host c)
    \<and> r_global s = cnt (\<lambda>e. 1 \<le> held (snd e)) (r_jobs s)"
proof -
  note inv = reachable_inv [OF assms(1)]
  have "cnt (holdsSlot ()) (r_jobs s) = cnt (\<lambda>e. 1 \<le> held (snd e)) (r_jobs s)"
    by (rule arg_cong2 [where f = cnt]) (auto simp: holdsSlot_def)
  moreover have "cnt (holdsSlot ()) (r_jobs s) = r_global s" using inv by (simp add: runnerInv_def accounts_def)
  ultimately show ?thesis using running_apart [OF inv assms(2-6)] running_limits [OF inv] by auto
qed

definition demoLimits :: runner_limits where "demoLimits = \<lparr>lim_workers = 4, lim_host = 2\<rparr>"

definition demoRunnerJob :: "gostring \<Rightarrow> runner_job" where
  "demoRunnerJob p = \<lparr>rj_id = p, rj_project = p, rj_host = ''h1''\<rparr>"

definition demoActions :: "action list" where
  "demoActions =
     [Submit (demoRunnerJob ''a''), Submit (demoRunnerJob ''b''), Move 0 Proceed, Move 1 Proceed, Dispatch, Dispatch]
     @ replicate 5 (Move 0 Proceed) @ replicate 5 (Move 1 Proceed)"

definition demoRunning :: runner_state where
  "demoRunning = the (performs demoLimits demoActions startRunner)"

lemma demoRunning_some: "performs demoLimits demoActions startRunner = Some demoRunning"
proof -
  have "(case performs demoLimits demoActions startRunner of None \<Rightarrow> False | Some s \<Rightarrow> True)" by code_simp
  then show ?thesis by (auto simp: demoRunning_def split: option.splits)
qed

lemma demoRunning_reachable: "reachable demoLimits demoRunning"
  by (rule reachable_performs [OF reachable.start demoRunning_some])

lemma demoRunning_jobs:
  "length (r_jobs demoRunning) = 2" "snd (r_jobs demoRunning ! 0) = Running" "snd (r_jobs demoRunning ! 1) = Running"
  by code_simp+

lemma runner_exclusive_witness: "cnt (\<lambda>e. snd e = Running) (r_jobs demoRunning) \<le> 4"
  using runner_exclusive [OF demoRunning_reachable, of 0 1] demoRunning_jobs by (simp add: demoLimits_def)

text \<open>
  A job is reported exactly once, with the result of its own run, and the results channel is never
  used after it was closed: in any reachable state \<open>OnComplete\<close> was called at most once per job, namely
  for those jobs that passed the end of their execution and with the outcome they ended with; a job
  refused, dropped or still queued was not reported; and once the queue was dropped and the results
  channel closed, no job is left between its dispatch and its end.
\<close>

theorem runner_reports_once:
  assumes "reachable c s"
  shows "distinct (map fst (r_completed s))
    \<and> (\<forall>i res. (i, res) \<in> set (r_completed s) \<longleftrightarrow> i < length (r_jobs s) \<and> told (snd (r_jobs s ! i)) = Some res)
    \<and> (\<forall>i < length (r_jobs s). snd (r_jobs s ! i) \<in> {Submitting, Rejected, Queued, Dropped} \<longrightarrow> i \<notin> fst ` set (r_completed s))
    \<and> (r_stop s = Drained \<longrightarrow> (\<forall>i < length (r_jobs s). \<not> inFlight (snd (r_jobs s ! i))))"
proof -
  note inv = reachable_inv [OF assms, unfolded runnerInv_def]
  have c: "distinct (map fst (r_completed s))"
    "(i, res) \<in> set (r_completed s) \<longleftrightarrow> i < length (r_jobs s) \<and> told (snd (r_jobs s ! i)) = Some res" for i res
    using inv by (simp_all add: completedOk_def)
  have "cnt (\<lambda>e. inFlight (snd e)) (r_jobs s) = 0" if "r_stop s = Drained"
    using inv that by (simp add: flightOk_def)
  then show ?thesis using c by (auto simp: cnt_zero)
qed

lemma runner_reports_once_witness:
  "distinct (map fst (r_completed demoRunning)) \<and> (0, JobOk) \<notin> set (r_completed demoRunning)"
  using runner_reports_once [OF demoRunning_reachable] demoRunning_jobs(2) by simp

section \<open>Progress\<close>

definition inner :: "runner_state \<Rightarrow> action \<Rightarrow> bool" where
  "inner s a \<longleftrightarrow> a = Drain \<or> (\<exists>i m. a = Move i m \<and> i < length (r_jobs s) \<and> inFlight (snd (r_jobs s ! i)))"

fun waiting :: "phase \<Rightarrow> bool" where
  "waiting WaitGlobal = True" | "waiting WaitHost = True" | "waiting WaitLock = True" | "waiting ph = False"

lemma Move_enabled:
  assumes "i < length (r_jobs s)" "inFlight (snd (r_jobs s ! i))"
    and "jobStep c i (fst (r_jobs s ! i)) (snd (r_jobs s ! i)) m s \<noteq> None"
  shows "\<exists>a s'. inner s a \<and> perform c a s = Some s'"
  using assms by (intro exI [of _ "Move i m"]) (auto simp: inner_def)

lemma ready_enabled:
  assumes "i < length (r_jobs s)" "inFlight (snd (r_jobs s ! i))" "\<not> waiting (snd (r_jobs s ! i))"
  shows "\<exists>a s'. inner s a \<and> perform c a s = Some s'"
proof (cases "snd (r_jobs s ! i)")
  case Running
  then show ?thesis by (intro Move_enabled [OF assms(1,2), of c "Return JobOk"]) simp
next
  case (Reporting res n)
  show ?thesis
  proof (cases "r_results s < jobBuffer")
    case True
    then show ?thesis using Reporting by (intro Move_enabled [OF assms(1,2), of c Proceed]) simp
  next
    case False
    then show ?thesis by (intro exI [of _ Drain]) (simp add: inner_def jobBuffer_def)
  qed
qed (use assms Move_enabled [OF assms(1,2), of c Proceed] in \<open>auto simp: step_defs\<close>)

lemma runner_enabled:
  assumes inv: "runnerInv c s" and lim: "0 < lim_workers c" "0 < lim_host c"
    and flying: "i < length (r_jobs s)" "inFlight (snd (r_jobs s ! i))"
  shows "\<exists>a s'. inner s a \<and> perform c a s = Some s'"
proof (rule ccontr)
  assume no: "\<not> ?thesis"
  have w: "waiting (snd (r_jobs s ! k))" if "k < length (r_jobs s)" "inFlight (snd (r_jobs s ! k))" for k
    using ready_enabled [OF that] no by blast
  have stuck: "jobStep c k (fst (r_jobs s ! k)) (snd (r_jobs s ! k)) Proceed s = None"
    if "k < length (r_jobs s)" "inFlight (snd (r_jobs s ! k))" for k
    using Move_enabled [OF that] no by blast
  have fly: "inFlight ph" if "0 < held ph" for ph using that by (cases ph) auto
  have low: "held ph \<le> 2" if "waiting ph" for ph using that by (cases ph) auto
  have noLock: "snd (r_jobs s ! k) \<noteq> WaitLock" if k: "k < length (r_jobs s)" for k
  proof
    assume p: "snd (r_jobs s ! k) = WaitLock"
    then have "lockKeyed (lockKey (fst (r_jobs s ! k))) (r_locks s) = None"
      using stuck [OF k] by (auto split: option.splits)
    then obtain q where q: "q < length (r_jobs s)" "holdsLock (lockKey (fst (r_jobs s ! k))) (r_jobs s ! q)"
      using locks.blocked_holder [of holdsLock "r_jobs s" "r_locks s"] inv by (auto simp: runnerInv_def)
    then have "3 \<le> held (snd (r_jobs s ! q))" by (simp add: holdsLock_def)
    then show False using low [OF w [OF q(1)]] fly by fastforce
  qed
  have noHost: "snd (r_jobs s ! k) \<noteq> WaitHost" if k: "k < length (r_jobs s)" for k
  proof
    assume p: "snd (r_jobs s ! k) = WaitHost"
    then have "takeHost (lim_host c) (rj_host (fst (r_jobs s ! k))) (r_hosts s) = None"
      using stuck [OF k] by (auto split: option.splits)
    then obtain q where q: "q < length (r_jobs s)" "holdsHost (rj_host (fst (r_jobs s ! k))) (r_jobs s ! q)"
      using hosts.blocked_holder [of "lim_host c" holdsHost "r_jobs s" "r_hosts s"] inv lim by (auto simp: runnerInv_def)
    then have h: "2 \<le> held (snd (r_jobs s ! q))" by (simp add: holdsHost_def)
    then have "waiting (snd (r_jobs s ! q))" using w [OF q(1)] fly by fastforce
    then show False using h noLock [OF q(1)] by (cases "snd (r_jobs s ! q)") auto
  qed
  have p: "snd (r_jobs s ! i) = WaitGlobal"
    using w [OF flying] noLock [OF flying(1)] noHost [OF flying(1)] by (cases "snd (r_jobs s ! i)") auto
  then have "takeSlot (lim_workers c) () (r_global s) = None"
    using stuck [OF flying] by (auto split: option.splits)
  then obtain q where q: "q < length (r_jobs s)" "holdsSlot () (r_jobs s ! q)"
    using slots.blocked_holder [of "lim_workers c" holdsSlot "r_jobs s" "r_global s"] inv lim by (auto simp: runnerInv_def)
  then have h: "1 \<le> held (snd (r_jobs s ! q))" by (simp add: holdsSlot_def)
  then have "waiting (snd (r_jobs s ! q))" using w [OF q(1)] fly by fastforce
  then show False using h noLock [OF q(1)] noHost [OF q(1)] by (cases "snd (r_jobs s ! q)") auto
qed

text \<open>Every operation of a goroutine brings it closer to its end.\<close>

fun rank :: "phase \<Rightarrow> nat" where
  "rank Pending = 12" | "rank WaitGlobal = 11" | "rank WaitHost = 10" | "rank WaitLock = 9" | "rank Locked = 8"
| "rank Running = 7" | "rank (Finishing res n) = n + 3" | "rank (Reporting res n) = n + 2"
| "rank (Releasing res n) = n + 1" | "rank ph = 0"

definition potential :: "runner_state \<Rightarrow> nat" where
  "potential s = 2 * sum_list (map (\<lambda>e. rank (snd e)) (r_jobs s)) + r_results s"

lemma jobStep_rank:
  assumes "jobStep c i j ph m s = Some (ph', s')" "inFlight ph" "held ph \<le> 3"
  shows "2 * rank ph' + r_results s' < 2 * rank ph + r_results s"
  using assms by (cases ph) (auto simp: step_defs split: if_splits option.splits move.splits)

lemma sum_list_set:
  "i < length xs \<Longrightarrow> sum_list (map f (xs[i := y])) + f (xs ! i) = sum_list (map f xs) + (f y :: nat)"
proof (induction xs arbitrary: i)
  case (Cons x xs)
  then show ?case by (cases i) (auto simp: add.assoc)
qed simp

lemma inner_decreases:
  assumes inv: "runnerInv c s" and a: "inner s a" "perform c a s = Some s'"
  shows "potential s' < potential s"
proof (cases "a = Drain")
  case True
  then show ?thesis using a by (auto simp: potential_def split: if_splits)
next
  case False
  then obtain i m where m: "a = Move i m" "i < length (r_jobs s)" "inFlight (snd (r_jobs s ! i))"
    using a(1) by (auto simp: inner_def)
  obtain ph' t where st: "jobStep c i (fst (r_jobs s ! i)) (snd (r_jobs s ! i)) m s = Some (ph', t)" "s' = setPhase i ph' t"
    using a(2) m by (auto split: option.splits)
  have "held (snd (r_jobs s ! i)) \<le> 3"
    using inv m(2) by (simp add: runnerInv_def flightOk_def list_all_length)
  from jobStep_rank [OF st(1) m(3) this] show ?thesis
    using sum_list_set [OF m(2), of "\<lambda>e. rank (snd e)" "(fst (r_jobs s ! i), ph')"] jobStep_frame(1) [OF st(1)]
    by (simp add: potential_def st(2))
qed

fun innerRun :: "runner_limits \<Rightarrow> action list \<Rightarrow> runner_state \<Rightarrow> bool" where
  "innerRun c [] s = True"
| "innerRun c (a # as) s = (inner s a \<and> (case perform c a s of None \<Rightarrow> False | Some s' \<Rightarrow> innerRun c as s'))"

lemma innerRun_bound:
  assumes "runnerInv c s" "innerRun c as s"
  shows "length as \<le> potential s"
  using assms
proof (induction as arbitrary: s)
  case (Cons a as)
  then obtain s' where s': "perform c a s = Some s'" "innerRun c as s'" "inner s a" by (auto split: option.splits)
  have "length as \<le> potential s'" using Cons.IH [OF runnerInv_perform [OF Cons.prems(1) s'(1)] s'(2)] .
  then show ?case using inner_decreases [OF Cons.prems(1) s'(3,1)] by simp
qed simp

lemma runner_finishes:
  assumes "runnerInv c s" "0 < lim_workers c" "0 < lim_host c"
  shows "\<exists>as t. innerRun c as s \<and> performs c as s = Some t \<and> (\<forall>i < length (r_jobs t). \<not> inFlight (snd (r_jobs t ! i)))"
  using assms(1)
proof (induction "potential s" arbitrary: s rule: less_induct)
  case less
  show ?case
  proof (cases "\<forall>i < length (r_jobs s). \<not> inFlight (snd (r_jobs s ! i))")
    case True
    then show ?thesis by (intro exI [of _ "[]"] exI [of _ s]) simp
  next
    case False
    then obtain i where i: "i < length (r_jobs s)" "inFlight (snd (r_jobs s ! i))" by blast
    obtain a s' where a: "inner s a" "perform c a s = Some s'"
      using runner_enabled [OF less.prems assms(2,3) i] by blast
    obtain as t where t: "innerRun c as s'" "performs c as s' = Some t"
      "\<forall>i < length (r_jobs t). \<not> inFlight (snd (r_jobs t ! i))"
      using less.hyps [OF inner_decreases [OF less.prems a] runnerInv_perform [OF less.prems a(2)]] by blast
    then show ?thesis using a by (intro exI [of _ "a # as"] exI [of _ t]) simp
  qed
qed

text \<open>
  C12. Nothing deadlocks and every dispatched job ends: from any reachable state of a runner with positive
  limits, as long as a job is between its dispatch and its end, one of the running jobs or the reader
  of the results can move; every sequence of such moves is shorter than a bound computed from the
  state; and one leads to a state where every dispatched job has ended.
\<close>

theorem runner_progress:
  assumes "reachable c s" and "0 < lim_workers c" and "0 < lim_host c"
  shows "(\<forall>i < length (r_jobs s). inFlight (snd (r_jobs s ! i)) \<longrightarrow> (\<exists>a s'. inner s a \<and> perform c a s = Some s'))
    \<and> (\<forall>as. innerRun c as s \<longrightarrow> length as \<le> potential s)
    \<and> (\<exists>as t. innerRun c as s \<and> performs c as s = Some t
          \<and> (\<forall>i < length (r_jobs t). \<not> inFlight (snd (r_jobs t ! i))))"
  using reachable_inv [OF assms(1)] assms(2,3) runner_enabled innerRun_bound runner_finishes by blast

lemma runner_progress_witness:
  "\<exists>as t. innerRun demoLimits as demoRunning \<and> performs demoLimits as demoRunning = Some t
      \<and> (\<forall>i < length (r_jobs t). \<not> inFlight (snd (r_jobs t ! i)))"
  using runner_progress [OF demoRunning_reachable] by (simp add: demoLimits_def)

end
