(* ===== verification/Runner_Refines.thy ===== *)
theory Runner_Refines
  imports Runner_Laws
begin

text \<open>
  What the runner (\<open>internal/runner\<close>) promises, as an abstract scheduler that knows neither channels nor
  goroutines: jobs wait, execute and are over, and a job may begin only where the limits leave room and
  no job of its project runs on its host. The runner refines it.
\<close>

section \<open>The abstract scheduler\<close>

datatype sched_phase = Waiting | Executing | Over "outcome option" \<comment> \<open>\<open>None\<close>: never executed nor reported\<close>

type_synonym sched = "(runner_job \<times> sched_phase) list"

definition mayExecute :: "runner_limits \<Rightarrow> sched \<Rightarrow> runner_job \<Rightarrow> bool" where
  "mayExecute c xs j \<longleftrightarrow>
     (\<forall>e\<in>set xs. snd e = Executing \<longrightarrow> (rj_project (fst e), rj_host (fst e)) \<noteq> (rj_project j, rj_host j))
     \<and> cnt (\<lambda>e. snd e = Executing) xs < lim_workers c
     \<and> cnt (\<lambda>e. snd e = Executing \<and> rj_host (fst e) = rj_host j) xs < lim_host c"

inductive sched_step :: "runner_limits \<Rightarrow> sched \<Rightarrow> sched \<Rightarrow> bool" for c where
  enter: "sched_step c xs (xs @ [(j, Waiting)])"
| execute: "\<lbrakk>i < length xs; xs ! i = (j, Waiting); mayExecute c xs j\<rbrakk> \<Longrightarrow> sched_step c xs (xs[i := (j, Executing)])"
| finish: "\<lbrakk>i < length xs; xs ! i = (j, Executing)\<rbrakk> \<Longrightarrow> sched_step c xs (xs[i := (j, Over (Some res))])"
| give_up: "\<lbrakk>i < length xs; xs ! i = (j, Waiting)\<rbrakk> \<Longrightarrow> sched_step c xs (xs[i := (j, Over (Some (JobErr e)))])"
| refuse: "\<lbrakk>length ys = length xs;
      \<forall>i < length xs. ys ! i = xs ! i \<or> snd (xs ! i) = Waiting \<and> ys ! i = (fst (xs ! i), Over None)\<rbrakk> \<Longrightarrow> sched_step c xs ys"

section \<open>The abstraction\<close>

fun absPhase :: "phase \<Rightarrow> sched_phase" where
  "absPhase Running = Executing"
| "absPhase (Finishing res n) = Over (Some res)" | "absPhase (Reporting res n) = Over (Some res)"
| "absPhase (Releasing res n) = Over (Some res)" | "absPhase (Ended res) = Over (Some res)"
| "absPhase Rejected = Over None" | "absPhase Dropped = Over None"
| "absPhase ph = Waiting"

definition absRunner :: "runner_state \<Rightarrow> sched" where
  "absRunner s = map (map_prod id absPhase) (r_jobs s)"

lemma absPhase_Executing: "absPhase ph = Executing \<longleftrightarrow> ph = Running"
  by (cases ph) simp_all

lemma jobStep_abs:
  assumes "jobStep c i j ph m s = Some (ph', s')"
  shows "absPhase ph' = absPhase ph \<or> absPhase ph = Waiting \<and> ph' = Rejected
    \<or> absPhase ph = Waiting \<and> (\<exists>e. absPhase ph' = Over (Some (JobErr e)))
    \<or> absPhase ph = Waiting \<and> ph' = Running \<or> ph = Running \<and> (\<exists>res. absPhase ph' = Over (Some res))"
  using assms by (cases ph; auto simp: step_defs split: if_splits option.splits move.splits)

section \<open>The refinement\<close>

lemma absRunner_nth [simp]:
  "length (absRunner s) = length (r_jobs s)"
  "i < length (r_jobs s) \<Longrightarrow> absRunner s ! i = (fst (r_jobs s ! i), absPhase (snd (r_jobs s ! i)))"
  by (simp_all add: absRunner_def prod_eq_iff)

lemma absRunner_set:
  "absRunner (setPhase i ph (s\<lparr>r_queue := q, r_wait := n\<rparr>)) = (absRunner s)[i := (fst (r_jobs s ! i), absPhase ph)]"
  "r_jobs s' = r_jobs s \<Longrightarrow> absRunner (setPhase i ph s') = (absRunner s)[i := (fst (r_jobs s ! i), absPhase ph)]"
  by (simp_all add: absRunner_def setPhase_def map_update)

lemma absRunner_frame: "r_jobs s' = r_jobs s \<Longrightarrow> absRunner s' = absRunner s"
  by (simp add: absRunner_def)

lemma cnt_absRunner:
  "cnt (\<lambda>e. snd e = Executing \<and> P (fst e)) (absRunner s) = cnt (\<lambda>e. snd e = Running \<and> P (fst e)) (r_jobs s)"
  by (simp add: absRunner_def cnt_def filter_map comp_def absPhase_Executing)

text \<open>A job that has just begun found room.\<close>

lemma began_mayExecute:
  assumes inv: "runnerInv c s'" and i: "i < length (r_jobs s)"
    and jobs: "r_jobs s' = (r_jobs s)[i := (fst (r_jobs s ! i), Running)]" and was: "absPhase (snd (r_jobs s ! i)) = Waiting"
  shows "mayExecute c (absRunner s) (fst (r_jobs s ! i))"
proof -
  let ?j = "fst (r_jobs s ! i)"
  have nr: "snd (r_jobs s ! i) \<noteq> Running" using was by auto
  have one: "Suc (cnt (\<lambda>e. snd e = Running \<and> P (fst e)) (r_jobs s)) = cnt (\<lambda>e. snd e = Running \<and> P (fst e)) (r_jobs s')" if "P ?j" for P
    using cnt_update [OF i, of "\<lambda>e. snd e = Running \<and> P (fst e)" "(?j, Running)"] nr that by (simp add: jobs)
  have "Suc (cnt (\<lambda>e. snd e = Running) (r_jobs s)) \<le> lim_workers c"
    "Suc (cnt (\<lambda>e. snd e = Running \<and> rj_host (fst e) = rj_host ?j) (r_jobs s)) \<le> lim_host c"
    using one [of "\<lambda>_. True"] one [of "\<lambda>j. rj_host j = rj_host ?j"] running_limits [OF inv] by simp_all
  moreover have "(rj_project (fst e), rj_host (fst e)) \<noteq> (rj_project ?j, rj_host ?j)"
    if "e \<in> set (absRunner s)" "snd e = Executing" for e
  proof -
    from that(1) obtain k where "k < length (absRunner s)" "absRunner s ! k = e" by (auto simp only: in_set_conv_nth)
    then have k: "k < length (r_jobs s)" "e = (fst (r_jobs s ! k), absPhase (snd (r_jobs s ! k)))" by simp_all
    then have "snd (r_jobs s ! k) = Running" "k \<noteq> i" using that(2) nr by (auto simp: absPhase_Executing)
    then show ?thesis using running_apart [OF inv, of k i] k i by (simp add: jobs)
  qed
  ultimately show ?thesis
    using cnt_absRunner [of "\<lambda>_. True" s] cnt_absRunner [of "\<lambda>j. rj_host j = rj_host ?j" s] by (simp add: mayExecute_def Suc_le_eq)
qed

lemma runner_simulates:
  assumes inv: "runnerInv c s" and a: "perform c a s = Some s'" and inv': "runnerInv c s'"
  shows "absRunner s' = absRunner s \<or> sched_step c (absRunner s) (absRunner s')"
proof (cases a)
  case (Submit j)
  then have "absRunner s' = absRunner s @ [(j, Waiting)]" using a by (auto simp: absRunner_def split: if_splits)
  then show ?thesis using sched_step.enter by simp
next
  case (Move i m)
  let ?j = "fst (r_jobs s ! i)" and ?ph = "snd (r_jobs s ! i)"
  obtain ph t where i: "i < length (r_jobs s)" and st: "jobStep c i ?j ?ph m s = Some (ph, t)" and s': "s' = setPhase i ph t"
    using a Move by (auto split: if_splits option.splits)
  have jobs: "r_jobs s' = (r_jobs s)[i := (?j, ph)]" using jobStep_frame(1) [OF st] by (simp add: s' setPhase_def)
  have abs: "absRunner s' = (absRunner s)[i := (?j, absPhase ph)]"
    unfolding s' by (rule absRunner_set(2) [OF jobStep_frame(1) [OF st]])
  have at: "absRunner s ! i = (?j, absPhase ?ph)" "i < length (absRunner s)" using i by simp_all
  consider (same) "absPhase ph = absPhase ?ph" | (rejected) "absPhase ?ph = Waiting" "ph = Rejected"
    | (failed) e where "absPhase ?ph = Waiting" "absPhase ph = Over (Some (JobErr e))"
    | (began) "absPhase ?ph = Waiting" "ph = Running" | (ended) res where "?ph = Running" "absPhase ph = Over (Some res)"
    using jobStep_abs [OF st] by blast
  then show ?thesis
  proof cases
    case same
    then show ?thesis using abs at by (metis list_update_id)
  next
    case rejected
    have "sched_step c (absRunner s) (absRunner s')"
      unfolding abs by (rule sched_step.refuse) (use rejected at in \<open>auto simp: nth_list_update\<close>)
    then show ?thesis ..
  next
    case failed
    then show ?thesis using abs at sched_step.give_up by simp
  next
    case began
    have "mayExecute c (absRunner s) ?j" by (rule began_mayExecute [OF inv' i _ began(1)]) (use jobs began in simp)
    then show ?thesis using abs at began sched_step.execute by simp
  next
    case ended
    then show ?thesis using abs at sched_step.finish by simp
  qed
next
  case Dispatch
  then obtain i q where q: "r_queue s = i # q" "s' = setPhase i Pending (s\<lparr>r_queue := q, r_wait := Suc (r_wait s)\<rparr>)"
    using a by (auto split: list.splits if_splits)
  then have "i < length (r_jobs s)" "snd (r_jobs s ! i) = Queued" using inv by (auto simp: runnerInv_def queueOk_def)
  then have "absRunner s ! i = (fst (r_jobs s ! i), Waiting)" by simp
  then have "absRunner s' = absRunner s" 
    unfolding q(2) absRunner_set(1) using list_update_id [of "absRunner s" i] by simp
  then show ?thesis ..
next
  case DropQueue
  then have jobs: "r_jobs s' = map (\<lambda>(j, ph). (j, if ph = Queued then Dropped else ph)) (r_jobs s)"
    using a by (auto split: if_splits)
  have "sched_step c (absRunner s) (absRunner s')"
    by (rule sched_step.refuse) (auto simp: jobs case_prod_beta)
  then show ?thesis ..
qed (use a in \<open>auto simp: absRunner_def split: if_splits\<close>)

text \<open>
  C11. The runner refines the abstract scheduler: in every interleaving of its goroutines, each operation
  on a channel, a semaphore or the lock is a step of the scheduler or changes nothing that it sees, so
  that every reachable state is one of the scheduler's; and every result given to \<open>OnComplete\<close> is the one
  with which the job is over there.
\<close>

theorem runner_refines_scheduler:
  assumes "reachable c s"
  shows "rtranclp (sched_step c) [] (absRunner s)
    \<and> (\<forall>a s'. perform c a s = Some s' \<longrightarrow> absRunner s' = absRunner s \<or> sched_step c (absRunner s) (absRunner s'))
    \<and> (\<forall>i res. (i, res) \<in> set (r_completed s) \<longrightarrow> i < length (absRunner s) \<and> snd (absRunner s ! i) = Over (Some res))"
proof (intro conjI allI impI)
  show "rtranclp (sched_step c) [] (absRunner s)"
    using assms
  proof (induction rule: reachable.induct)
    case start
    then show ?case by (simp add: absRunner_def startRunner_def)
  next
    case (act s a s')
    have "absRunner s' = absRunner s \<or> sched_step c (absRunner s) (absRunner s')"
      by (rule runner_simulates [OF reachable_inv [OF act(1)] act(2) reachable_inv [OF reachable.act [OF act(1,2)]]])
    then show ?case using act(3) by (auto intro: rtranclp.rtrancl_into_rtrancl)
  qed
  show "absRunner s' = absRunner s \<or> sched_step c (absRunner s) (absRunner s')" if "perform c a s = Some s'" for a s'
    by (rule runner_simulates [OF reachable_inv [OF assms] that reachable_inv [OF reachable.act [OF assms that]]])
  fix i res
  assume "(i, res) \<in> set (r_completed s)"
  then have i: "i < length (r_jobs s)" "told (snd (r_jobs s ! i)) = Some res"
    using reachable_inv [OF assms] by (simp_all add: runnerInv_def completedOk_def)
  then show "i < length (absRunner s)" by simp
  show "snd (absRunner s ! i) = Over (Some res)" using i by (cases "snd (r_jobs s ! i)") simp_all
qed

lemma runner_refines_scheduler_witness:
  "rtranclp (sched_step demoLimits) [] (absRunner demoRunning)"
  using runner_refines_scheduler [OF demoRunning_reachable] by blast

end
