(* ===== verification/Watcher.thy ===== *)
theory Watcher
  imports Poller
begin

text \<open>
  The goroutines of a repository watcher (\<open>internal/repowatcher/repowatcher.go\<close>: \<open>Start\<close>, \<open>Stop\<close>,
  \<open>runGroup\<close>, \<open>pollGroup\<close>) as a transition system: one goroutine per group, which polls at once and then
  at every tick until the watcher's context is cancelled. A fetch that begins after the cancellation
  fails, as a command of \<open>os/exec\<close> does whose context is done. A handler's call and its return are two
  steps, so that a stop may find it at work.
\<close>

section \<open>State and actions\<close>

text \<open>
  The points of \<open>runGroup\<close>: in \<open>remoteSha\<close>, with whether the context was live when the fetch began;
  before the call of the handler with the given number; in that call; in the select; after the return.
\<close>

datatype group_phase =
    GroupFetching bool | GroupHandling gostring nat | GroupCalling gostring nat | GroupWaiting | GroupEnded

record 'h watcher_state =
  wt_groups :: "('h poll_group \<times> group_phase) list"
  wt_cancelled :: bool
  wt_calls :: "(nat \<times> 'h \<times> gostring) list" \<comment> \<open>the calls of handlers, with their group\<close>

definition startWatcher :: "'h poll_group list \<Rightarrow> 'h watcher_state" where
  "startWatcher gs = \<lparr>wt_groups = map (\<lambda>g. (g, GroupFetching True)) gs, wt_cancelled = False, wt_calls = []\<rparr>"

datatype watcher_action =
    Fetched nat "gostring + gostring" \<comment> \<open>\<open>remoteSha\<close> returns\<close>
  | CallHandler nat
  | Returned nat \<comment> \<open>the handler returns\<close>
  | Tick nat \<comment> \<open>the select takes the tick\<close>
  | SeeDone nat \<comment> \<open>the select takes the cancellation\<close>
  | CancelWatch \<comment> \<open>\<open>Stop\<close> cancels, then waits for \<open>watchStopped\<close>\<close>

text \<open>One operation of a group's goroutine: its next point, and the handler it called.\<close>

definition nextHandler :: "'h poll_group \<Rightarrow> gostring \<Rightarrow> nat \<Rightarrow> group_phase" where
  "nextHandler g sha k = (if k < length (pg_handlers g) then GroupHandling sha k else GroupWaiting)"

fun groupFetched :: "'h poll_group \<Rightarrow> group_phase \<Rightarrow> gostring + gostring \<Rightarrow> group_phase option" where
  "groupFetched g (GroupFetching live) r =
     (case r of
        Inl e \<Rightarrow> Some GroupWaiting
      | Inr sha \<Rightarrow>
          if \<not> live then None
          else Some (if sha = [] then GroupWaiting else nextHandler g sha 0))"
| "groupFetched g ph r = None"

fun groupCalled :: "'h poll_group \<Rightarrow> group_phase \<Rightarrow> (group_phase \<times> 'h \<times> gostring) option" where
  "groupCalled g (GroupHandling sha k) =
     (if k < length (pg_handlers g) then Some (GroupCalling sha k, pg_handlers g ! k, sha) else None)"
| "groupCalled g ph = None"

fun groupReturned :: "'h poll_group \<Rightarrow> group_phase \<Rightarrow> group_phase option" where
  "groupReturned g (GroupCalling sha k) = Some (nextHandler g sha (Suc k))"
| "groupReturned g ph = None"

definition setGroup :: "nat \<Rightarrow> group_phase \<Rightarrow> 'h watcher_state \<Rightarrow> 'h watcher_state" where
  "setGroup i ph s = s\<lparr>wt_groups := (wt_groups s)[i := (fst (wt_groups s ! i), ph)]\<rparr>"

fun watch :: "watcher_action \<Rightarrow> 'h watcher_state \<Rightarrow> 'h watcher_state option" where
  "watch (Fetched i r) s =
     (if i < length (wt_groups s)
      then map_option (\<lambda>ph. setGroup i ph s) (groupFetched (fst (wt_groups s ! i)) (snd (wt_groups s ! i)) r)
      else None)"
| "watch (CallHandler i) s =
     (if i < length (wt_groups s)
      then (case groupCalled (fst (wt_groups s ! i)) (snd (wt_groups s ! i)) of
              None \<Rightarrow> None
            | Some (ph, h, sha) \<Rightarrow> Some (setGroup i ph (s\<lparr>wt_calls := wt_calls s @ [(i, h, sha)]\<rparr>)))
      else None)"
| "watch (Returned i) s =
     (if i < length (wt_groups s)
      then map_option (\<lambda>ph. setGroup i ph s) (groupReturned (fst (wt_groups s ! i)) (snd (wt_groups s ! i)))
      else None)"
| "watch (Tick i) s =
     (if i < length (wt_groups s) \<and> snd (wt_groups s ! i) = GroupWaiting
      then Some (setGroup i (GroupFetching (\<not> wt_cancelled s)) s) else None)"
| "watch (SeeDone i) s =
     (if i < length (wt_groups s) \<and> snd (wt_groups s ! i) = GroupWaiting \<and> wt_cancelled s
      then Some (setGroup i GroupEnded s) else None)"
| "watch CancelWatch s = Some (s\<lparr>wt_cancelled := True\<rparr>)"

text \<open>\<open>waitGroup.Wait\<close> of \<open>Stop\<close> returns.\<close>

definition watchStopped :: "'h watcher_state \<Rightarrow> bool" where
  "watchStopped s \<longleftrightarrow> wt_cancelled s \<and> list_all (\<lambda>e. snd e = GroupEnded) (wt_groups s)"

fun watches :: "watcher_action list \<Rightarrow> 'h watcher_state \<Rightarrow> 'h watcher_state option" where
  "watches [] s = Some s"
| "watches (a # as) s = (case watch a s of None \<Rightarrow> None | Some s' \<Rightarrow> watches as s')"

section \<open>Every poll calls every handler, in order\<close>

text \<open>The commits that the fetches of a group returned, in the order of the fetches.\<close>

fun commitsSeen :: "nat \<Rightarrow> watcher_action list \<Rightarrow> gostring list" where
  "commitsSeen i [] = []"
| "commitsSeen i (a # as) =
     (case a of
        Fetched j (Inr sha) \<Rightarrow> if j = i \<and> sha \<noteq> [] then sha # commitsSeen i as else commitsSeen i as
      | _ \<Rightarrow> commitsSeen i as)"

text \<open>The calls for one commit, the calls made by a group, and what is left of its current poll.\<close>

definition fullPoll :: "'h poll_group \<Rightarrow> gostring \<Rightarrow> ('h \<times> gostring) list" where
  "fullPoll g sha = map (\<lambda>h. (h, sha)) (pg_handlers g)"

definition callsOf :: "nat \<Rightarrow> 'h watcher_state \<Rightarrow> ('h \<times> gostring) list" where
  "callsOf i s = map snd (filter (\<lambda>c. fst c = i) (wt_calls s))"

fun callsDue :: "'h poll_group \<times> group_phase \<Rightarrow> ('h \<times> gostring) list" where
  "callsDue (g, GroupHandling sha k) = drop k (fullPoll g sha)"
| "callsDue (g, GroupCalling sha k) = drop (Suc k) (fullPoll g sha)"
| "callsDue (g, GroupFetching live) = []"
| "callsDue (g, GroupWaiting) = []"
| "callsDue (g, GroupEnded) = []"

fun phaseOk :: "'h poll_group \<Rightarrow> bool \<Rightarrow> group_phase \<Rightarrow> bool" where
  "phaseOk g cancelled (GroupHandling sha k) \<longleftrightarrow> k < length (pg_handlers g) \<and> sha \<noteq> []"
| "phaseOk g cancelled (GroupCalling sha k) \<longleftrightarrow> k < length (pg_handlers g) \<and> sha \<noteq> []"
| "phaseOk g cancelled (GroupFetching live) \<longleftrightarrow> live \<or> cancelled"
| "phaseOk g cancelled GroupWaiting \<longleftrightarrow> True"
| "phaseOk g cancelled GroupEnded \<longleftrightarrow> cancelled"

definition groupOk :: "'h watcher_state \<Rightarrow> nat \<Rightarrow> bool" where
  "groupOk s i \<longleftrightarrow> phaseOk (fst (wt_groups s ! i)) (wt_cancelled s) (snd (wt_groups s ! i))"

lemma callsOf_append: "callsOf i (s\<lparr>wt_calls := wt_calls s @ [(j, h, sha)]\<rparr>) = callsOf i s @ (if i = j then [(h, sha)] else [])"
  by (simp add: callsOf_def)

lemma setGroup_fields [simp]:
  "wt_groups (setGroup i ph s) = (wt_groups s)[i := (fst (wt_groups s ! i), ph)]"
  "wt_cancelled (setGroup i ph s) = wt_cancelled s" "wt_calls (setGroup i ph s) = wt_calls s"
  "callsOf j (setGroup i ph s) = callsOf j s"
  by (simp_all add: setGroup_def callsOf_def)

lemma length_fullPoll [simp]: "length (fullPoll g sha) = length (pg_handlers g)"
  by (simp add: fullPoll_def)

lemma nth_fullPoll: "k < length (pg_handlers g) \<Longrightarrow> fullPoll g sha ! k = (pg_handlers g ! k, sha)"
  by (simp add: fullPoll_def)

lemma callsDue_next: "callsDue (g, nextHandler g sha k) = drop k (fullPoll g sha)"
  by (simp add: nextHandler_def)

lemma groupFetched_cases:
  assumes "groupFetched g ph r = Some ph'"
  obtains (failed) live e where "ph = GroupFetching live" "r = Inl e" "ph' = GroupWaiting"
    | (empty) "ph = GroupFetching True" "r = Inr []" "ph' = GroupWaiting"
    | (commit) sha where "ph = GroupFetching True" "r = Inr sha" "sha \<noteq> []" "ph' = nextHandler g sha 0"
  using assms by (cases ph) (auto split: sum.splits if_splits)

lemma groupCalled_cases:
  assumes "groupCalled g ph = Some (ph', h, sha)"
  obtains k where "ph = GroupHandling sha k" "k < length (pg_handlers g)" "ph' = GroupCalling sha k" "h = pg_handlers g ! k"
  using assms by (cases ph) (auto split: if_splits)

lemma groupReturned_cases:
  assumes "groupReturned g ph = Some ph'"
  obtains sha k where "ph = GroupCalling sha k" "ph' = nextHandler g sha (Suc k)"
  using assms by (cases ph) auto

text \<open>A step changes one group's point, by one of the operations above.\<close>

lemma watch_cases:
  assumes "watch a s = Some s'"
  obtains (fetched) i r g ph ph' where "a = Fetched i r" "i < length (wt_groups s)" "wt_groups s ! i = (g, ph)"
      "groupFetched g ph r = Some ph'" "s' = setGroup i ph' s"
    | (called) i g ph ph' h sha where "a = CallHandler i" "i < length (wt_groups s)" "wt_groups s ! i = (g, ph)"
      "groupCalled g ph = Some (ph', h, sha)" "s' = setGroup i ph' (s\<lparr>wt_calls := wt_calls s @ [(i, h, sha)]\<rparr>)"
    | (returned) i g ph ph' where "a = Returned i" "i < length (wt_groups s)" "wt_groups s ! i = (g, ph)"
      "groupReturned g ph = Some ph'" "s' = setGroup i ph' s"
    | (tick) i g where "a = Tick i" "i < length (wt_groups s)" "wt_groups s ! i = (g, GroupWaiting)"
      "s' = setGroup i (GroupFetching (\<not> wt_cancelled s)) s"
    | (ended) i g where "a = SeeDone i" "i < length (wt_groups s)" "wt_groups s ! i = (g, GroupWaiting)" "wt_cancelled s"
      "s' = setGroup i GroupEnded s"
    | (cancelled) "a = CancelWatch" "s' = s\<lparr>wt_cancelled := True\<rparr>"
proof (cases a)
  case (Fetched i r)
  then show ?thesis using assms fetched by (cases "wt_groups s ! i") (auto split: if_splits)
next
  case (CallHandler i)
  then show ?thesis using assms called by (cases "wt_groups s ! i") (auto split: if_splits option.splits)
next
  case (Returned i)
  then show ?thesis using assms returned by (cases "wt_groups s ! i") (auto split: if_splits)
next
  case (Tick i)
  then show ?thesis using assms tick by (cases "wt_groups s ! i") (auto split: if_splits)
next
  case (SeeDone i)
  then show ?thesis using assms ended by (cases "wt_groups s ! i") (auto split: if_splits)
next
  case CancelWatch
  then show ?thesis using assms cancelled by simp
qed

lemma watch_groups:
  "watch a s = Some s' \<Longrightarrow> map fst (wt_groups s') = map fst (wt_groups s)"
  by (cases rule: watch_cases) (auto simp: map_update list_update_same_conv)

lemma watch_length: "watch a s = Some s' \<Longrightarrow> length (wt_groups s') = length (wt_groups s)"
  using watch_groups by (metis length_map)

lemma groupOk_watch:
  assumes "watch a s = Some s'" "\<forall>i < length (wt_groups s). groupOk s i"
  shows "\<forall>i < length (wt_groups s'). groupOk s' i"
proof (intro allI impI)
  fix j assume "j < length (wt_groups s')"
  then have j: "groupOk s j" "j < length (wt_groups s)" using assms(2) watch_length [OF assms(1)] by simp_all
  have mono: "phaseOk g c ph \<Longrightarrow> phaseOk g True ph" for g :: "'a poll_group" and c ph by (cases ph) auto
  from assms(1) show "groupOk s' j"
  proof (cases rule: watch_cases)
    case (fetched i r g ph ph')
    then show ?thesis using j
      by (cases "i = j") (auto simp: groupOk_def nextHandler_def elim!: groupFetched_cases split: if_splits)
  next
    case (called i g ph ph' h sha)
    then show ?thesis using j by (cases "i = j") (auto simp: groupOk_def elim!: groupCalled_cases)
  next
    case (returned i g ph ph')
    then show ?thesis using j by (cases "i = j") (auto simp: groupOk_def nextHandler_def elim!: groupReturned_cases)
  next
    case (tick i g)
    then show ?thesis using j by (cases "i = j") (auto simp: groupOk_def)
  next
    case (ended i g)
    then show ?thesis using j by (cases "i = j") (auto simp: groupOk_def)
  next
    case cancelled
    then show ?thesis using j mono by (simp add: groupOk_def)
  qed
qed

lemma groupOk_start: "\<forall>i < length (wt_groups (startWatcher gs)). groupOk (startWatcher gs) i"
  by (simp add: startWatcher_def groupOk_def)

text \<open>The calls made and those due are, after each step, those of before and a full poll per commit fetched.\<close>

lemma calls_watch:
  assumes "watch a s = Some s'" "i < length (wt_groups s)"
  shows "callsOf i s' @ callsDue (wt_groups s' ! i)
    = callsOf i s @ callsDue (wt_groups s ! i) @ concat (map (fullPoll (fst (wt_groups s ! i))) (commitsSeen i [a]))"
  using assms(1)
proof (cases rule: watch_cases)
  case (fetched j r g ph ph')
  then show ?thesis
    by (cases "j = i") (auto simp: callsDue_next elim!: groupFetched_cases split: sum.split)
next
  case (called j g ph ph' h sha)
  then show ?thesis
    by (cases "j = i") (auto simp: callsOf_append nth_fullPoll Cons_nth_drop_Suc [symmetric] elim!: groupCalled_cases)
next
  case (returned j g ph ph')
  then show ?thesis by (cases "j = i") (auto simp: callsDue_next elim!: groupReturned_cases)
next
  case (tick j g)
  then show ?thesis by (cases "j = i") auto
next
  case (ended j g)
  then show ?thesis by (cases "j = i") auto
next
  case cancelled
  then show ?thesis by (simp add: callsOf_def)
qed

lemma commitsSeen_Cons: "commitsSeen i (a # as) = commitsSeen i [a] @ commitsSeen i as"
  by (auto split: watcher_action.split sum.split)

lemma calls_watches:
  "\<lbrakk>watches as s = Some t; i < length (wt_groups s)\<rbrakk>
   \<Longrightarrow> callsOf i t @ callsDue (wt_groups t ! i)
       = callsOf i s @ callsDue (wt_groups s ! i) @ concat (map (fullPoll (fst (wt_groups s ! i))) (commitsSeen i as))
     \<and> map fst (wt_groups t) = map fst (wt_groups s)"
proof (induction as arbitrary: s)
  case (Cons a as)
  then obtain s' where s': "watch a s = Some s'" "watches as s' = Some t" by (auto split: option.splits)
  have i: "i < length (wt_groups s')" using watch_length [OF s'(1)] Cons.prems(2) by simp
  have "fst (wt_groups s' ! i) = fst (wt_groups s ! i)"
    using watch_groups [OF s'(1)] i Cons.prems(2) by (metis nth_map)
  then show ?case
    using Cons.IH [OF s'(2) i] calls_watch [OF s'(1) Cons.prems(2)] watch_groups [OF s'(1)]
    unfolding commitsSeen_Cons [of i a as] by simp
qed simp

section \<open>Stopping\<close>

text \<open>The calls that a group may still make after the cancellation, and the work until it has ended.\<close>

fun callsLeft :: "'h poll_group \<times> group_phase \<Rightarrow> nat" where
  "callsLeft (g, GroupFetching live) = (if live then length (pg_handlers g) else 0)"
| "callsLeft (g, GroupHandling sha k) = length (pg_handlers g) - k"
| "callsLeft (g, GroupCalling sha k) = length (pg_handlers g) - Suc k"
| "callsLeft (g, GroupWaiting) = 0"
| "callsLeft (g, GroupEnded) = 0"

fun groupWork :: "'h poll_group \<times> group_phase \<Rightarrow> nat" where
  "groupWork (g, GroupFetching live) = 2 * length (pg_handlers g) + 4"
| "groupWork (g, GroupHandling sha k) = 2 * (length (pg_handlers g) - k) + 3"
| "groupWork (g, GroupCalling sha k) = 2 * (length (pg_handlers g) - k) + 2"
| "groupWork (g, GroupWaiting) = 1"
| "groupWork (g, GroupEnded) = 0"

lemma callsLeft_le: "callsLeft e \<le> length (pg_handlers (fst e))"
  by (cases e; cases "snd e") auto

lemma callsLeft_watch:
  assumes "watch a s = Some s'" "wt_cancelled s" "i < length (wt_groups s)"
  shows "wt_cancelled s' \<and> length (callsOf i s') + callsLeft (wt_groups s' ! i) \<le> length (callsOf i s) + callsLeft (wt_groups s ! i)"
  using assms(1)
proof (cases rule: watch_cases)
  case (fetched j r g ph ph')
  then show ?thesis using assms
    by (cases "j = i") (auto simp: nextHandler_def elim!: groupFetched_cases)
next
  case (called j g ph ph' h sha)
  then show ?thesis using assms by (cases "j = i") (auto simp: callsOf_append elim!: groupCalled_cases)
next
  case (returned j g ph ph')
  then show ?thesis using assms by (cases "j = i") (auto simp: nextHandler_def elim!: groupReturned_cases)
next
  case (tick j g)
  then show ?thesis using assms by (cases "j = i") auto
next
  case (ended j g)
  then show ?thesis using assms by (cases "j = i") auto
next
  case cancelled
  then show ?thesis using assms by (simp add: callsOf_def)
qed

lemma callsLeft_watches:
  "\<lbrakk>watches as s = Some t; wt_cancelled s; i < length (wt_groups s)\<rbrakk>
   \<Longrightarrow> length (callsOf i t) + callsLeft (wt_groups t ! i) \<le> length (callsOf i s) + callsLeft (wt_groups s ! i)"
proof (induction as arbitrary: s)
  case (Cons a as)
  then obtain s' where s': "watch a s = Some s'" "watches as s' = Some t" by (auto split: option.splits)
  have "i < length (wt_groups s')" using watch_length [OF s'(1)] Cons.prems(3) by simp
  then show ?case using Cons.IH [OF s'(2)] callsLeft_watch [OF s'(1) Cons.prems(2,3)] by fastforce
qed simp

lemma watch_stopped:
  assumes "watch a s = Some s'" "watchStopped s"
  shows "watchStopped s' \<and> wt_calls s' = wt_calls s"
proof -
  have e: "i < length (wt_groups s) \<Longrightarrow> snd (wt_groups s ! i) = GroupEnded" for i
    using assms(2) by (simp add: watchStopped_def list_all_length)
  from assms(1) show ?thesis
    by (cases rule: watch_cases) (use e assms(2) in \<open>force simp: watchStopped_def\<close>)+
qed

lemma watches_stopped: "\<lbrakk>watches as s = Some t; watchStopped s\<rbrakk> \<Longrightarrow> wt_calls t = wt_calls s"
  by (induction as arbitrary: s) (auto split: option.splits dest!: watch_stopped)

text \<open>
  C25. Every poll that sees a commit calls every handler of its group with that commit, one after the other
  in the order of their registration. In whatever order the groups' goroutines, the ticks and a stop
  interleave, the calls a group has made, followed by those its current poll still owes, are exactly one
  full round for each commit its fetches returned; so a group that is in its select or has ended has
  called every handler with every such commit, and no call has another argument. From the
  cancellation on, a group makes at most one more round; and after \<open>Stop\<close> has returned, no handler
  is called any more.
\<close>

theorem watcher_rounds:
  assumes "watches as (startWatcher gs) = Some s" and "i < length gs"
  shows "callsOf i s @ callsDue (wt_groups s ! i) = concat (map (fullPoll (gs ! i)) (commitsSeen i as))
    \<and> (snd (wt_groups s ! i) = GroupWaiting \<or> snd (wt_groups s ! i) = GroupEnded \<longrightarrow>
         callsOf i s = concat (map (fullPoll (gs ! i)) (commitsSeen i as)))
    \<and> (wt_cancelled s \<longrightarrow> (\<forall>bs t. watches bs s = Some t \<longrightarrow>
         length (callsOf i t) \<le> length (callsOf i s) + length (pg_handlers (gs ! i))))
    \<and> (watchStopped s \<longrightarrow> (\<forall>bs t. watches bs s = Some t \<longrightarrow> wt_calls t = wt_calls s))"
proof -
  have i0: "i < length (wt_groups (startWatcher gs))" using assms(2) by (simp add: startWatcher_def)
  have st: "wt_groups (startWatcher gs) ! i = (gs ! i, GroupFetching True)" "callsOf i (startWatcher gs) = []"
    using assms(2) by (simp_all add: startWatcher_def callsOf_def)
  note c = calls_watches [OF assms(1) i0, unfolded st, simplified]
  have gs: "map fst (wt_groups s) = gs" using c by (simp add: startWatcher_def comp_def)
  then have i: "i < length (wt_groups s)" "fst (wt_groups s ! i) = gs ! i" using assms(2) by auto
  have "callsDue (wt_groups s ! i) = []" if "snd (wt_groups s ! i) = GroupWaiting \<or> snd (wt_groups s ! i) = GroupEnded"
    using that by (cases "wt_groups s ! i") auto
  moreover have "length (callsOf i t) \<le> length (callsOf i s) + length (pg_handlers (gs ! i))"
    if "wt_cancelled s" "watches bs s = Some t" for bs t
    using callsLeft_watches [OF that(2,1) i(1)] callsLeft_le [of "wt_groups s ! i"] i(2) by simp
  ultimately show ?thesis using c watches_stopped by auto
qed

definition demoGroup :: "nat poll_group" where
  "demoGroup = \<lparr>pg_url = ''u'', pg_branch = ''main'', pg_interval = second, pg_handlers = [7, 8]\<rparr>"

lemma watcher_rounds_witness:
  "\<exists>s. watches [Fetched 0 (Inr ''abc''), CancelWatch, CallHandler 0, Returned 0, CallHandler 0, Returned 0, SeeDone 0]
         (startWatcher [demoGroup]) = Some s
     \<and> callsOf 0 s = [(7, ''abc''), (8, ''abc'')] \<and> (\<forall>bs t. watches bs s = Some t \<longrightarrow> wt_calls t = wt_calls s)"
proof -
  let ?as = "[Fetched 0 (Inr ''abc''), CancelWatch, CallHandler 0, Returned 0, CallHandler 0, Returned 0, SeeDone 0]"
  let ?w = "watches ?as (startWatcher [demoGroup])"
  have "(case ?w of None \<Rightarrow> False | Some s \<Rightarrow> watchStopped s \<and> length (wt_groups s) = 1)" by code_simp
  then obtain s where s: "?w = Some s" "watchStopped s" "length (wt_groups s) = 1" by (auto split: option.splits)
  have e: "snd (wt_groups s ! 0) = GroupEnded" using s(2,3) by (simp add: watchStopped_def list_all_length)
  have f: "concat (map (fullPoll demoGroup) (commitsSeen 0 ?as)) = [(7, ''abc''), (8, ''abc'')]" by code_simp
  show ?thesis using watcher_rounds [OF s(1), of 0, unfolded e] f s(1,2) by (intro exI [of _ s]) simp
qed

end
