(* ===== verification/Shutdown.thy ===== *)
theory Shutdown
  imports Runner_Laws Watcher Daemon
begin

text \<open>
  The running daemon and its shutdown (\<open>internal/daemon/daemon.go\<close>: \<open>shutdown\<close>, \<open>onConfigReload\<close>,
  \<open>managedWatcher\<close> and the goroutines \<open>Run\<close> has started; \<open>reconcile_loop.go\<close>: \<open>run\<close>;
  \<open>engine/reconcile.go\<close>: the wait of \<open>ReconcileRemovals\<close>) as one transition system over the runner, the
  watchers, the reconcile worker, the reload in progress and the goroutine that shuts down. Every
  interleaving of the goroutines is a sequence of actions. Assumed of what they call: a deployment that
  runs returns in the end, and so does a handler of a watcher, although a git command of it runs under
  \<open>opsCtx\<close>, which nothing cancels before the grace deadline; the shutdown of an HTTP server returns by
  its deadline of 30 seconds. The handlers of HTTP requests, of watchers and of the local file's events
  may submit jobs and reload the configuration at any moment, after the end of the shutdown too.
  \<open>restart\<close> installs and starts the new watcher in one step.
\<close>

section \<open>State\<close>

text \<open>
  The reconcile worker: in its select; in \<open>ReconcileRemovals\<close> with the jobs it has submitted; in
  \<open>ReconcileAdditions\<close> and \<open>ReconcileProjectChanges\<close>; returned.
\<close>

datatype worker = WorkerIdle | WorkerRemoving "nat list" | WorkerDispatching "nat list" | WorkerExited

datatype grace_timer = NoTimer | TimerArmed | TimerFired | TimerStopped

text \<open>The next statement of \<open>shutdown\<close>; before it, the select of \<open>Run\<close>, and after it, its return.\<close>

datatype shutdown_stage =
    Serving | WaitWatcher | CloseAdmin | CloseHttp | CloseLogs | CancelIntake | ArmGrace | WaitWorker
  | StopRunner | CloseRunner | WaitRunner | StopTimer | CancelOps | Unlock | Stopped

fun workerJobs :: "worker \<Rightarrow> nat list" where
  "workerJobs (WorkerRemoving is) = is" | "workerJobs (WorkerDispatching is) = is" | "workerJobs w = []"

record app_state =
  ap_runner :: runner_state
  ap_watchers :: "poll_handler watcher_state list" \<comment> \<open>all that were started; the last is \<open>managedWatcher.instance\<close>\<close>
  ap_stopping :: nat \<comment> \<open>the one that the shutdown stops\<close>
  ap_reloading :: bool \<comment> \<open>\<open>onConfigReload\<close> has restarted the watcher and not sent its trigger yet\<close>
  ap_worker :: worker
  ap_removals :: "nat set" \<comment> \<open>the removal jobs submitted so far\<close>
  ap_trigger :: bool \<comment> \<open>the buffer of \<open>triggers\<close>\<close>
  ap_intake_done :: bool \<comment> \<open>\<open>intakeCtx\<close> is cancelled\<close>
  ap_ops_done :: bool \<comment> \<open>\<open>opsCtx\<close> is cancelled\<close>
  ap_timer :: grace_timer
  ap_stage :: shutdown_stage
  ap_locked :: bool

text \<open>After the start: the runner works, the watcher polls, the worker has its first trigger.\<close>

definition startApp :: "poll_handler poll_group list \<Rightarrow> app_state" where
  "startApp gs =
     \<lparr>ap_runner = startRunner, ap_watchers = [startWatcher gs], ap_stopping = 0, ap_reloading = False,
      ap_worker = WorkerIdle, ap_removals = {}, ap_trigger = True,
      ap_intake_done = False, ap_ops_done = False, ap_timer = NoTimer, ap_stage = Serving, ap_locked = True\<rparr>"

section \<open>Actions\<close>

datatype app_action =
    RunnerAct action \<comment> \<open>of the runner's goroutines, or a submission by a handler\<close>
  | WatcherAct nat watcher_action \<comment> \<open>of the groups of a watcher\<close>
  | Restart "poll_handler poll_group list" \<comment> \<open>\<open>onConfigReload\<close>: \<open>restart\<close> with the groups of the new configuration\<close>
  | StopOld nat \<comment> \<open>the goroutine of \<open>go old.Stop()\<close> cancels; nobody waits for it\<close>
  | TriggerPass \<comment> \<open>\<open>onConfigReload\<close>: the trigger of the reconcile loop\<close>
  | BeginPass | SubmitRemoval runner_job | EndRemovals | SubmitDeploy runner_job | EndPass | ExitWorker
  | FireTimer
  | Advance \<comment> \<open>the next statement of \<open>shutdown\<close>\<close>

definition jobPhase :: "runner_state \<Rightarrow> nat \<Rightarrow> phase" where
  "jobPhase r i = snd (r_jobs r ! i)"

text \<open>\<open>Submit\<close> has returned; \<open>wg.Done\<close> was called, by \<open>OnComplete\<close> or after a refused submission.\<close>

definition submitted :: "runner_state \<Rightarrow> nat \<Rightarrow> bool" where
  "submitted r i \<longleftrightarrow> jobPhase r i \<noteq> Submitting"

definition jobDone :: "runner_state \<Rightarrow> nat \<Rightarrow> bool" where
  "jobDone r i \<longleftrightarrow> jobPhase r i = Rejected \<or> told (jobPhase r i) \<noteq> None"

text \<open>The actions of the runner that are not the shutdown's: jobs run under \<open>opsCtx\<close>.\<close>

fun runnerFree :: "app_state \<Rightarrow> action \<Rightarrow> bool" where
  "runnerFree s (Cancel i) = ap_ops_done s"
| "runnerFree s SetStopped = False"
| "runnerFree s CloseStop = False"
| "runnerFree s DropQueue = False"
| "runnerFree s a = True"

definition onRunner :: "runner_limits \<Rightarrow> action \<Rightarrow> app_state \<Rightarrow> app_state option" where
  "onRunner c a s = map_option (\<lambda>r. s\<lparr>ap_runner := r\<rparr>) (perform c a (ap_runner s))"

definition onWatcher :: "nat \<Rightarrow> watcher_action \<Rightarrow> app_state \<Rightarrow> app_state option" where
  "onWatcher k a s =
     (if k < length (ap_watchers s)
      then map_option (\<lambda>w. s\<lparr>ap_watchers := (ap_watchers s)[k := w]\<rparr>) (watch a (ap_watchers s ! k)) else None)"

text \<open>A submission by the worker; a stopped runner refuses it at once.\<close>

definition workerSubmit ::
  "runner_limits \<Rightarrow> runner_job \<Rightarrow> (nat list \<Rightarrow> worker) \<Rightarrow> nat list \<Rightarrow> app_state \<Rightarrow> app_state option" where
  "workerSubmit c j next is s =
     (if \<not> list_all (submitted (ap_runner s)) is then None
      else (case perform c (Submit j) (ap_runner s) of
              None \<Rightarrow> Some s
            | Some r \<Rightarrow> Some (s\<lparr>ap_runner := r, ap_worker := next (is @ [length (r_jobs (ap_runner s))])\<rparr>)))"

fun advance :: "runner_limits \<Rightarrow> gotime \<Rightarrow> run_log_server \<Rightarrow> app_state \<Rightarrow> app_state option" where
  "advance c grace logs s =
     (case ap_stage s of
        Serving \<Rightarrow>
          (let k = length (ap_watchers s) - 1 in
           map_option (\<lambda>t. t\<lparr>ap_stopping := k, ap_stage := WaitWatcher\<rparr>) (onWatcher k CancelWatch s))
      | WaitWatcher \<Rightarrow> if watchStopped (ap_watchers s ! ap_stopping s) then Some (s\<lparr>ap_stage := CloseAdmin\<rparr>) else None
      | CloseAdmin \<Rightarrow> Some (s\<lparr>ap_stage := CloseHttp\<rparr>)
      | CloseHttp \<Rightarrow>
          Some (s\<lparr>ap_stage := (case logs of LogsOnPort p \<Rightarrow> CloseLogs | _ \<Rightarrow> CancelIntake)\<rparr>)
      | CloseLogs \<Rightarrow> Some (s\<lparr>ap_stage := CancelIntake\<rparr>)
      | CancelIntake \<Rightarrow> Some (s\<lparr>ap_intake_done := True, ap_stage := ArmGrace\<rparr>)
      | ArmGrace \<Rightarrow>
          Some (if grace > 0 then s\<lparr>ap_timer := TimerArmed, ap_stage := WaitWorker\<rparr>
                else s\<lparr>ap_ops_done := True, ap_stage := WaitWorker\<rparr>)
      | WaitWorker \<Rightarrow> if ap_worker s = WorkerExited then Some (s\<lparr>ap_stage := StopRunner\<rparr>) else None
      | StopRunner \<Rightarrow> map_option (\<lambda>t. t\<lparr>ap_stage := CloseRunner\<rparr>) (onRunner c SetStopped s)
      | CloseRunner \<Rightarrow> map_option (\<lambda>t. t\<lparr>ap_stage := WaitRunner\<rparr>) (onRunner c CloseStop s)
      | WaitRunner \<Rightarrow> map_option (\<lambda>t. t\<lparr>ap_stage := StopTimer\<rparr>) (onRunner c DropQueue s)
      | StopTimer \<Rightarrow>
          Some (s\<lparr>ap_timer := (if ap_timer s = TimerArmed then TimerStopped else ap_timer s), ap_stage := CancelOps\<rparr>)
      | CancelOps \<Rightarrow> Some (s\<lparr>ap_ops_done := True, ap_stage := Unlock\<rparr>)
      | Unlock \<Rightarrow> Some (s\<lparr>ap_locked := False, ap_stage := Stopped\<rparr>)
      | Stopped \<Rightarrow> None)"

fun act :: "runner_limits \<Rightarrow> gotime \<Rightarrow> run_log_server \<Rightarrow> app_action \<Rightarrow> app_state \<Rightarrow> app_state option" where
  "act c grace logs (RunnerAct a) s = (if runnerFree s a then onRunner c a s else None)"
| "act c grace logs (WatcherAct k a) s = (if a = CancelWatch then None else onWatcher k a s)"
| "act c grace logs (Restart gs) s =
     (if ap_reloading s then None
      else Some (s\<lparr>ap_watchers := ap_watchers s @ [startWatcher gs], ap_reloading := True\<rparr>))"
| "act c grace logs (StopOld k) s =
     (if Suc k < length (ap_watchers s) \<and> \<not> wt_cancelled (ap_watchers s ! k) then onWatcher k CancelWatch s else None)"
| "act c grace logs TriggerPass s =
     (if ap_reloading s then Some (s\<lparr>ap_trigger := True, ap_reloading := False\<rparr>) else None)"
| "act c grace logs BeginPass s =
     (if ap_worker s = WorkerIdle \<and> ap_trigger s
      then Some (s\<lparr>ap_worker := WorkerRemoving [], ap_trigger := False\<rparr>) else None)"
| "act c grace logs (SubmitRemoval j) s =
     (case ap_worker s of
        WorkerRemoving is \<Rightarrow>
          map_option (\<lambda>t. t\<lparr>ap_removals := ap_removals t \<union> set (workerJobs (ap_worker t))\<rparr>)
            (workerSubmit c j WorkerRemoving is s)
      | _ \<Rightarrow> None)"
| "act c grace logs EndRemovals s =
     (case ap_worker s of
        WorkerRemoving is \<Rightarrow>
          if list_all (jobDone (ap_runner s)) is then Some (s\<lparr>ap_worker := WorkerDispatching []\<rparr>) else None
      | _ \<Rightarrow> None)"
| "act c grace logs (SubmitDeploy j) s =
     (case ap_worker s of WorkerDispatching is \<Rightarrow> workerSubmit c j WorkerDispatching is s | _ \<Rightarrow> None)"
| "act c grace logs EndPass s =
     (case ap_worker s of
        WorkerDispatching is \<Rightarrow>
          if list_all (submitted (ap_runner s)) is then Some (s\<lparr>ap_worker := WorkerIdle\<rparr>) else None
      | _ \<Rightarrow> None)"
| "act c grace logs ExitWorker s =
     (if ap_worker s = WorkerIdle \<and> ap_intake_done s then Some (s\<lparr>ap_worker := WorkerExited\<rparr>) else None)"
| "act c grace logs FireTimer s =
     (if ap_timer s = TimerArmed then Some (s\<lparr>ap_timer := TimerFired, ap_ops_done := True\<rparr>) else None)"
| "act c grace logs Advance s = advance c grace logs s"

inductive app_reachable :: "runner_limits \<Rightarrow> gotime \<Rightarrow> run_log_server \<Rightarrow> app_state \<Rightarrow> bool" for c grace logs where
  app_start: "app_reachable c grace logs (startApp gs)"
| app_act: "\<lbrakk>app_reachable c grace logs s; act c grace logs a s = Some s'\<rbrakk> \<Longrightarrow> app_reachable c grace logs s'"

fun acts :: "runner_limits \<Rightarrow> gotime \<Rightarrow> run_log_server \<Rightarrow> app_action list \<Rightarrow> app_state \<Rightarrow> app_state option" where
  "acts c grace logs [] s = Some s"
| "acts c grace logs (a # as) s =
     (case act c grace logs a s of None \<Rightarrow> None | Some s' \<Rightarrow> acts c grace logs as s')"

lemma app_reachable_acts:
  "\<lbrakk>app_reachable c grace logs s; acts c grace logs as s = Some s'\<rbrakk> \<Longrightarrow> app_reachable c grace logs s'"
  by (induction as arbitrary: s) (auto split: option.splits intro: app_act)

end
