(* ===== verification/Shutdown_Laws.thy ===== *)
theory Shutdown_Laws
  imports Shutdown
begin

text \<open>
  Correctness of the shutdown in every interleaving with the runner, the watcher and the reconcile
  worker: the lock of the data directory is given up last, no deployment is cancelled before the grace
  has elapsed, and the shutdown always ends.
\<close>

section \<open>The invariant\<close>

fun stageNo :: "shutdown_stage \<Rightarrow> nat" where
  "stageNo Serving = 0" | "stageNo WaitWatcher = 1" | "stageNo CloseAdmin = 2" | "stageNo CloseHttp = 3"
| "stageNo CloseLogs = 4" | "stageNo CancelIntake = 5" | "stageNo ArmGrace = 6" | "stageNo WaitWorker = 7"
| "stageNo StopRunner = 8" | "stageNo CloseRunner = 9" | "stageNo WaitRunner = 10" | "stageNo StopTimer = 11"
| "stageNo CancelOps = 12" | "stageNo Unlock = 13" | "stageNo Stopped = 14"

definition stopAt :: "nat \<Rightarrow> stop_stage" where
  "stopAt n = (if n \<le> 8 then Active else if n = 9 then FlagSet else if n = 10 then ChannelClosed else Drained)"

definition contextOk :: "gotime \<Rightarrow> app_state \<Rightarrow> bool" where
  "contextOk grace s \<longleftrightarrow>
     (r_cancelled (ap_runner s) \<noteq> [] \<longrightarrow> ap_ops_done s)
     \<and> (ap_ops_done s \<longrightarrow> ap_timer s = TimerFired \<or> grace \<le> 0 \<and> 6 < stageNo (ap_stage s) \<or> 12 < stageNo (ap_stage s))
     \<and> (ap_timer s \<noteq> NoTimer \<longrightarrow> 0 < grace \<and> 6 < stageNo (ap_stage s))"

definition watchersOk :: "app_state \<Rightarrow> bool" where
  "watchersOk s \<longleftrightarrow>
     ap_watchers s \<noteq> [] \<and> (\<forall>w\<in>set (ap_watchers s). \<forall>i < length (wt_groups w). groupOk w i)
     \<and> (0 < stageNo (ap_stage s) \<longrightarrow>
          ap_stopping s < length (ap_watchers s) \<and> wt_cancelled (ap_watchers s ! ap_stopping s))
     \<and> (1 < stageNo (ap_stage s) \<longrightarrow> watchStopped (ap_watchers s ! ap_stopping s))"

lemma watchersOk_fields [simp]:
  "watchersOk (s\<lparr>ap_runner := r\<rparr>) = watchersOk s" "watchersOk (s\<lparr>ap_worker := w\<rparr>) = watchersOk s"
  "watchersOk (s\<lparr>ap_trigger := b\<rparr>) = watchersOk s" "watchersOk (s\<lparr>ap_reloading := b\<rparr>) = watchersOk s"
  "watchersOk (s\<lparr>ap_intake_done := b\<rparr>) = watchersOk s" "watchersOk (s\<lparr>ap_ops_done := b\<rparr>) = watchersOk s"
  "watchersOk (s\<lparr>ap_timer := x\<rparr>) = watchersOk s" "watchersOk (s\<lparr>ap_locked := b\<rparr>) = watchersOk s"
  "watchersOk (s\<lparr>ap_removals := y\<rparr>) = watchersOk s"
  by (simp_all add: watchersOk_def)

lemma watchersOk_stage:
  "\<lbrakk>watchersOk s; 1 < stageNo (ap_stage s)\<rbrakk> \<Longrightarrow> watchersOk (s\<lparr>ap_stage := st\<rparr>)"
  by (simp add: watchersOk_def)

text \<open>Every removal job is done, or the worker is waiting for it.\<close>

definition removalsOk :: "app_state \<Rightarrow> bool" where
  "removalsOk s \<longleftrightarrow>
     (\<forall>i\<in>ap_removals s. i < length (r_jobs (ap_runner s))
        \<and> (jobDone (ap_runner s) i \<or> (\<exists>is. ap_worker s = WorkerRemoving is \<and> i \<in> set is)))"

lemma removalsOk_fields [simp]:
  "removalsOk (s\<lparr>ap_trigger := b\<rparr>) = removalsOk s" "removalsOk (s\<lparr>ap_reloading := b\<rparr>) = removalsOk s"
  "removalsOk (s\<lparr>ap_intake_done := b\<rparr>) = removalsOk s" "removalsOk (s\<lparr>ap_ops_done := b\<rparr>) = removalsOk s"
  "removalsOk (s\<lparr>ap_timer := x\<rparr>) = removalsOk s" "removalsOk (s\<lparr>ap_locked := b\<rparr>) = removalsOk s"
  "removalsOk (s\<lparr>ap_stage := st\<rparr>) = removalsOk s" "removalsOk (s\<lparr>ap_watchers := ws\<rparr>) = removalsOk s"
  "removalsOk (s\<lparr>ap_stopping := k\<rparr>) = removalsOk s"
  by (simp_all add: removalsOk_def)

definition appInv :: "runner_limits \<Rightarrow> gotime \<Rightarrow> app_state \<Rightarrow> bool" where
  "appInv c grace s \<longleftrightarrow>
     reachable c (ap_runner s) \<and> r_stop (ap_runner s) = stopAt (stageNo (ap_stage s))
     \<and> watchersOk s \<and> removalsOk s
     \<and> (ap_intake_done s \<longleftrightarrow> 5 < stageNo (ap_stage s))
     \<and> (7 < stageNo (ap_stage s) \<longrightarrow> ap_worker s = WorkerExited)
     \<and> list_all (\<lambda>i. i < length (r_jobs (ap_runner s))) (workerJobs (ap_worker s))
     \<and> contextOk grace s \<and> (ap_locked s \<longleftrightarrow> ap_stage s \<noteq> Stopped)"

lemma appInvD:
  assumes "appInv c grace s"
  shows "reachable c (ap_runner s)" "r_stop (ap_runner s) = stopAt (stageNo (ap_stage s))"
    "watchersOk s" "removalsOk s" "ap_intake_done s \<longleftrightarrow> 5 < stageNo (ap_stage s)"
    "7 < stageNo (ap_stage s) \<Longrightarrow> ap_worker s = WorkerExited"
    "list_all (\<lambda>i. i < length (r_jobs (ap_runner s))) (workerJobs (ap_worker s))"
    "contextOk grace s" "ap_locked s \<longleftrightarrow> ap_stage s \<noteq> Stopped"
  using assms unfolding appInv_def by blast+

lemma appInv_start: "appInv c grace (startApp gs)"
proof -
  have "reachable c startRunner" by (rule reachable.start)
  moreover have "r_stop startRunner = Active" "r_cancelled startRunner = []" by (simp_all add: startRunner_def)
  moreover have "watchersOk (startApp gs)" using groupOk_start [of gs] by (simp add: watchersOk_def startApp_def)
  ultimately show ?thesis by (simp add: appInv_def startApp_def contextOk_def stopAt_def removalsOk_def)
qed

lemma perform_jobs: "perform c a r = Some r' \<Longrightarrow> length (r_jobs r) \<le> length (r_jobs r')"
  by (cases a) (auto dest: jobStep_frame(1) split: if_splits option.splits list.splits)

lemma perform_cancelled:
  "\<lbrakk>perform c a r = Some r'; \<forall>i. a \<noteq> Cancel i\<rbrakk> \<Longrightarrow> r_cancelled r' = r_cancelled r"
  by (cases a) (auto dest: jobStep_frame(4) split: if_splits option.splits list.splits)

lemma perform_stop:
  "\<lbrakk>perform c a r = Some r'; a \<noteq> SetStopped; a \<noteq> CloseStop; a \<noteq> DropQueue\<rbrakk> \<Longrightarrow> r_stop r' = r_stop r"
  by (cases a) (auto dest: jobStep_frame(2) split: if_splits option.splits list.splits)

text \<open>A job that is done stays done.\<close>

lemma perform_done:
  assumes "reachable c r" "perform c a r = Some r'" "i < length (r_jobs r)" "jobDone r i"
  shows "jobDone r' i"
proof -
  have d: "jobDone q i \<longleftrightarrow> jobPhase q i = Rejected \<or> told (jobPhase q i) \<noteq> None" for q by (simp add: jobDone_def)
  have keep: ?thesis if "jobPhase r' i = jobPhase r i" using assms(4) that by (simp add: d)
  show ?thesis
  proof (cases a)
    case (Submit j)
    then show ?thesis using assms(2,3) by (intro keep) (auto simp: jobPhase_def nth_append split: if_splits)
  next
    case (Move k m)
    then obtain ph q where q: "jobStep c k (fst (r_jobs r ! k)) (snd (r_jobs r ! k)) m r = Some (ph, q)" "r' = setPhase k ph q"
      using assms(2) by (auto split: if_splits option.splits)
    have jobs: "r_jobs q = r_jobs r" by (rule jobStep_frame(1) [OF q(1)])
    show ?thesis
    proof (cases "k = i")
      case True
      have "snd (r_jobs r ! i) \<noteq> Rejected" using q(1) True by (cases "snd (r_jobs r ! i)") auto
      then have "told (snd (r_jobs r ! i)) \<noteq> None" using assms(4) by (simp add: d jobPhase_def)
      then have "told ph = told (snd (r_jobs r ! i))" using jobStep_completed [OF q(1)] True by auto
      then show ?thesis using \<open>told (snd (r_jobs r ! i)) \<noteq> None\<close> assms(3) q(2) jobs True by (simp add: d jobPhase_def)
    next
      case False
      then show ?thesis using q(2) jobs by (intro keep) (simp add: jobPhase_def)
    qed
  next
    case Dispatch
    then obtain k q where q: "r_queue r = k # q" "r' = setPhase k Pending (r\<lparr>r_queue := q, r_wait := Suc (r_wait r)\<rparr>)"
      using assms(2) by (auto split: list.splits if_splits)
    have "queueOk r" using reachable_inv [OF assms(1)] by (simp add: runnerInv_def)
    then have "snd (r_jobs r ! k) = Queued" using q(1) by (auto simp: queueOk_def)
    then have "k \<noteq> i" using assms(4) by (auto simp: d jobPhase_def)
    then show ?thesis using q(2) by (intro keep) (simp add: jobPhase_def)
  next
    case DropQueue
    then show ?thesis using assms(2-4) by (auto simp: d jobPhase_def split: if_splits prod.splits)
  qed (use assms(2,4) in \<open>auto simp: d jobPhase_def split: if_splits\<close>)
qed

lemma removalsOk_runner:
  assumes "appInv c grace s" "perform c a (ap_runner s) = Some r"
  shows "removalsOk (s\<lparr>ap_runner := r\<rparr>)"
  unfolding removalsOk_def
proof
  fix i assume "i \<in> ap_removals (s\<lparr>ap_runner := r\<rparr>)"
  then have i: "i < length (r_jobs (ap_runner s))"
    "jobDone (ap_runner s) i \<or> (\<exists>is. ap_worker s = WorkerRemoving is \<and> i \<in> set is)"
    using appInvD(4) [OF assms(1)] by (simp_all add: removalsOk_def)
  then show "i < length (r_jobs (ap_runner (s\<lparr>ap_runner := r\<rparr>))) \<and> (jobDone (ap_runner (s\<lparr>ap_runner := r\<rparr>)) i
      \<or> (\<exists>is. ap_worker (s\<lparr>ap_runner := r\<rparr>) = WorkerRemoving is \<and> i \<in> set is))"
    using perform_done [OF appInvD(1) [OF assms(1)] assms(2) i(1)] perform_jobs [OF assms(2)] by auto
qed

lemma appInv_runner:
  assumes inv: "appInv c grace s" and f: "runnerFree s a" and p: "perform c a (ap_runner s) = Some r"
  shows "appInv c grace (s\<lparr>ap_runner := r\<rparr>)"
proof -
  have "reachable c r" using inv p by (auto simp: appInv_def intro: reachable.act)
  moreover have "r_stop r = r_stop (ap_runner s)" using f by (intro perform_stop [OF p]) auto
  moreover have "r_cancelled r \<noteq> [] \<longrightarrow> ap_ops_done s"
  proof (cases "\<exists>i. a = Cancel i")
    case True
    then show ?thesis using f by auto
  next
    case False
    then show ?thesis using perform_cancelled [OF p] inv by (auto simp: appInv_def contextOk_def)
  qed
  moreover have "list_all (\<lambda>i. i < length (r_jobs r)) (workerJobs (ap_worker s))"
    using inv perform_jobs [OF p] by (auto simp: appInv_def list_all_iff)
  ultimately show ?thesis using inv removalsOk_runner [OF inv p] by (auto simp: appInv_def contextOk_def)
qed

lemma watchersOk_update:
  assumes "watchersOk s" "k < length (ap_watchers s)" "watch a (ap_watchers s ! k) = Some w"
  shows "watchersOk (s\<lparr>ap_watchers := (ap_watchers s)[k := w]\<rparr>)"
proof -
  have g: "\<forall>i < length (wt_groups w). groupOk w i"
    using groupOk_watch [OF assms(3)] assms(1,2) by (simp add: watchersOk_def)
  have c: "wt_cancelled (ap_watchers s ! k) \<longrightarrow> wt_cancelled w"
    using assms(3) by (cases rule: watch_cases) auto
  have st: "watchStopped (ap_watchers s ! k) \<longrightarrow> watchStopped w" using watch_stopped [OF assms(3)] by blast
  have all: "\<forall>v\<in>set ((ap_watchers s)[k := w]). \<forall>i < length (wt_groups v). groupOk v i"
    using assms(1) g set_update_subset_insert [of "ap_watchers s" k w] by (auto simp: watchersOk_def)
  show ?thesis using assms(1,2) all c st by (auto simp: watchersOk_def nth_list_update)
qed

lemma appInv_watchers:
  assumes "appInv c grace s" "watchersOk (s\<lparr>ap_watchers := ws\<rparr>)"
  shows "appInv c grace (s\<lparr>ap_watchers := ws\<rparr>)"
  using assms unfolding appInv_def contextOk_def by simp

lemma appInv_reloading: "appInv c grace s \<Longrightarrow> appInv c grace (s\<lparr>ap_reloading := b\<rparr>)"
  unfolding appInv_def contextOk_def by simp

lemma appInv_watcher:
  assumes inv: "appInv c grace s" and w: "onWatcher k a s = Some s'"
  shows "appInv c grace s'"
proof -
  obtain v where v: "k < length (ap_watchers s)" "watch a (ap_watchers s ! k) = Some v"
    "s' = s\<lparr>ap_watchers := (ap_watchers s)[k := v]\<rparr>"
    using w by (auto simp: onWatcher_def split: if_splits)
  show ?thesis unfolding v(3) by (rule appInv_watchers [OF inv watchersOk_update [OF appInvD(3) [OF inv] v(1,2)]])
qed

text \<open>The worker moves on: it leaves the removals only when they are done.\<close>

lemma appInv_worker:
  assumes "appInv c grace s" "ap_worker s \<noteq> WorkerExited" "w = WorkerExited \<longrightarrow> ap_intake_done s"
    and "list_all (\<lambda>i. i < length (r_jobs (ap_runner s))) (workerJobs w)"
    and "\<And>is i. ap_worker s = WorkerRemoving is \<Longrightarrow> i \<in> set is \<Longrightarrow>
           jobDone (ap_runner s) i \<or> (\<exists>is'. w = WorkerRemoving is' \<and> i \<in> set is')"
  shows "appInv c grace (s\<lparr>ap_worker := w, ap_trigger := t\<rparr>)"
proof -
  have "removalsOk (s\<lparr>ap_worker := w, ap_trigger := t\<rparr>)"
    using appInvD(4) [OF assms(1)] assms(5) unfolding removalsOk_def by fastforce
  then show ?thesis using assms(1-4) by (auto simp: appInv_def contextOk_def)
qed

lemma appInv_workerSubmit:
  assumes inv: "appInv c grace s" and w: "ap_worker s \<noteq> WorkerExited" "is = workerJobs (ap_worker s)"
    and nx: "\<And>xs. workerJobs (next xs) = xs" "\<And>xs. next xs \<noteq> WorkerExited"
      "\<And>is. ap_worker s = WorkerRemoving is \<Longrightarrow> next = WorkerRemoving"
    and p: "workerSubmit c j next is s = Some s'"
  shows "appInv c grace s'"
proof (cases "perform c (Submit j) (ap_runner s)")
  case None
  then show ?thesis using p inv by (auto simp: workerSubmit_def simp del: perform.simps split: if_splits)
next
  case (Some r)
  have s': "s' = s\<lparr>ap_runner := r, ap_worker := next (is @ [length (r_jobs (ap_runner s))])\<rparr>"
    using p Some by (auto simp: workerSubmit_def simp del: perform.simps split: if_splits)
  have r: "appInv c grace (s\<lparr>ap_runner := r\<rparr>)" by (rule appInv_runner [OF inv _ Some]) simp
  have "r_jobs r = r_jobs (ap_runner s) @ [(j, Submitting)]" using Some by (auto split: if_splits)
  then have "list_all (\<lambda>i. i < length (r_jobs r)) (is @ [length (r_jobs (ap_runner s))])"
    using inv w(2) by (auto simp: appInv_def list_all_iff)
  then have "appInv c grace ((s\<lparr>ap_runner := r\<rparr>)\<lparr>ap_worker := next (is @ [length (r_jobs (ap_runner s))]), ap_trigger := ap_trigger s\<rparr>)"
    using w nx by (intro appInv_worker [OF r]) auto
  then show ?thesis by (simp add: s')
qed

lemma workerSubmit_fields:
  assumes "workerSubmit c j next is s = Some t"
  shows "ap_removals t = ap_removals s" "t = s \<or> (\<exists>xs. ap_worker t = next xs)"
  using assms by (auto simp: workerSubmit_def simp del: perform.simps split: if_splits option.splits)

lemma appInv_removals:
  assumes inv: "appInv c grace s" and w: "ap_worker s = WorkerRemoving is"
  shows "appInv c grace (s\<lparr>ap_removals := ap_removals s \<union> set is\<rparr>)"
proof -
  have "removalsOk (s\<lparr>ap_removals := ap_removals s \<union> set is\<rparr>)"
    using appInvD(4,7) [OF inv] w by (auto simp: removalsOk_def list_all_iff)
  then show ?thesis using inv by (auto simp: appInv_def contextOk_def)
qed

lemma appInv_stage:
  assumes inv: "appInv c grace s" and "reachable c r" "r_stop r = stopAt (stageNo st)"
    and "r_cancelled r = r_cancelled (ap_runner s)" "length (r_jobs r) = length (r_jobs (ap_runner s))"
    and "stageNo st = Suc (stageNo (ap_stage s)) \<or> stageNo (ap_stage s) = 3 \<and> stageNo st = 5"
    and "stageNo (ap_stage s) = 1 \<longrightarrow> watchStopped (ap_watchers s ! ap_stopping s)"
    and "\<And>i. i < length (r_jobs (ap_runner s)) \<Longrightarrow> jobDone (ap_runner s) i \<Longrightarrow> jobDone r i"
    and "stageNo (ap_stage s) = 7 \<longrightarrow> ap_worker s = WorkerExited"
    and "0 < stageNo (ap_stage s)" "stageNo (ap_stage s) \<noteq> 5" "stageNo (ap_stage s) \<noteq> 13"
  shows "appInv c grace (s\<lparr>ap_runner := r, ap_stage := st\<rparr>)"
proof -
  note D = appInvD [OF inv]
  have n: "st \<noteq> Stopped" "ap_stage s \<noteq> Stopped" using assms(6,11,12) by (cases st; cases "ap_stage s"; simp)+
  have w: "watchersOk (s\<lparr>ap_runner := r, ap_stage := st\<rparr>)"
    using D(3) assms(6,7,10) unfolding watchersOk_def by (cases "stageNo (ap_stage s) = 1") auto
  have k: "ap_worker s = WorkerExited" if "7 < stageNo st"
    using assms(6,9) that D(6) by (cases "stageNo (ap_stage s) = 7") simp_all
  have x: "contextOk grace (s\<lparr>ap_runner := r, ap_stage := st\<rparr>)"
    using D(8) assms(4,6) unfolding contextOk_def by auto
  have q: "ap_intake_done s \<longleftrightarrow> 5 < stageNo st" using D(5) assms(6,11) by auto
  have m: "removalsOk (s\<lparr>ap_runner := r, ap_stage := st\<rparr>)" using D(4) assms(5,8) unfolding removalsOk_def by fastforce
  show ?thesis unfolding appInv_def using D(7,9) w k x q m n assms(2,3,5) by simp
qed

lemma appInv_advance:
  assumes inv: "appInv c grace s" and a: "advance c grace logs s = Some s'"
  shows "appInv c grace s'"
proof -
  have rch: "perform c x (ap_runner s) = Some r \<Longrightarrow> reachable c r" for x r
    using inv by (auto simp: appInv_def intro: reachable.act)
  have done': "perform c x (ap_runner s) = Some r \<Longrightarrow> i < length (r_jobs (ap_runner s)) \<Longrightarrow> jobDone (ap_runner s) i \<Longrightarrow> jobDone r i"
    for x r i by (rule perform_done [OF appInvD(1) [OF inv]])
  have r: "reachable c (ap_runner s)" "r_stop (ap_runner s) = stopAt (stageNo (ap_stage s))"
    using inv by (simp_all add: appInv_def)
  have keep: "appInv c grace (s\<lparr>ap_stage := st\<rparr>)"
    if "stageNo st = Suc (stageNo (ap_stage s)) \<or> stageNo (ap_stage s) = 3 \<and> stageNo st = 5"
      "stageNo (ap_stage s) = 1 \<longrightarrow> watchStopped (ap_watchers s ! ap_stopping s)"
      "stageNo (ap_stage s) = 7 \<longrightarrow> ap_worker s = WorkerExited"
      "0 < stageNo (ap_stage s)" "stageNo (ap_stage s) \<noteq> 5" "stageNo (ap_stage s) \<noteq> 13"
      "stopAt (stageNo st) = stopAt (stageNo (ap_stage s))" for st
    using appInv_stage [OF inv r(1) _ refl refl that(1,2) _ that(3-6)] r(2) that(7) by simp
  show ?thesis
  proof (cases "ap_stage s")
    case Serving
    let ?k = "length (ap_watchers s) - 1"
    obtain t where t: "onWatcher ?k CancelWatch s = Some t" "s' = t\<lparr>ap_stopping := ?k, ap_stage := WaitWatcher\<rparr>"
      using a Serving by (auto simp: Let_def)
    have k: "?k < length (ap_watchers s)" using appInvD(3) [OF inv] by (cases "ap_watchers s") (simp_all add: watchersOk_def)
    have e: "t = s\<lparr>ap_watchers := (ap_watchers s)[?k := (ap_watchers s ! ?k)\<lparr>wt_cancelled := True\<rparr>]\<rparr>"
      using t(1) k by (simp add: onWatcher_def)
    note D = appInvD [OF appInv_watcher [OF inv t(1)]]
    have st: "ap_stage t = Serving" "ap_stopping s' < length (ap_watchers s')" "wt_cancelled (ap_watchers s' ! ap_stopping s')"
      using Serving k by (simp_all add: e t(2))
    have "watchersOk s'" using D(3) st by (simp add: watchersOk_def t(2))
    then show ?thesis using D(1,2,4,5,7,8,9) st(1) unfolding appInv_def t(2) contextOk_def by (auto simp: stopAt_def)
  next
    case WaitWatcher
    then show ?thesis using a keep [of CloseAdmin] by (simp add: stopAt_def split: if_splits)
  next
    case CloseAdmin
    then show ?thesis using a keep [of CloseHttp] by (simp add: stopAt_def)
  next
    case CloseHttp
    then show ?thesis using a keep [of CloseLogs] keep [of CancelIntake] by (cases logs) (auto simp: stopAt_def)
  next
    case CloseLogs
    then show ?thesis using a keep [of CancelIntake] by (simp add: stopAt_def)
  next
    case CancelIntake
    then show ?thesis using inv a unfolding appInv_def contextOk_def by (auto simp: stopAt_def intro: watchersOk_stage)
  next
    case ArmGrace
    have k: "appInv c grace (s\<lparr>ap_stage := WaitWorker\<rparr>)" using ArmGrace keep [of WaitWorker] by (simp add: stopAt_def)
    have "ap_timer s = NoTimer" using appInvD(8) [OF inv] ArmGrace by (simp add: contextOk_def)
    moreover have "ap_ops_done s \<longrightarrow> ap_timer s = TimerFired" using appInvD(8) [OF inv] ArmGrace by (auto simp: contextOk_def)
    ultimately show ?thesis using k a ArmGrace appInvD(3) [OF inv]
      by (cases "0 < grace") (auto simp: appInv_def contextOk_def intro: watchersOk_stage)
  next
    case WaitWorker
    then show ?thesis using a keep [of StopRunner] by (simp add: stopAt_def split: if_splits)
  next
    case StopRunner
    then obtain q where q: "perform c SetStopped (ap_runner s) = Some q" "s' = s\<lparr>ap_runner := q, ap_stage := CloseRunner\<rparr>"
      using a by (auto simp: onRunner_def simp del: perform.simps)
    show ?thesis unfolding q(2)
      by (rule appInv_stage [OF inv rch [OF q(1)] _ _ _ _ _ done' [OF q(1)]]) (use q(1) StopRunner in \<open>auto simp: stopAt_def split: if_splits\<close>)
  next
    case CloseRunner
    then obtain q where q: "perform c CloseStop (ap_runner s) = Some q" "s' = s\<lparr>ap_runner := q, ap_stage := WaitRunner\<rparr>"
      using a by (auto simp: onRunner_def simp del: perform.simps)
    show ?thesis unfolding q(2)
      by (rule appInv_stage [OF inv rch [OF q(1)] _ _ _ _ _ done' [OF q(1)]]) (use q(1) CloseRunner in \<open>auto simp: stopAt_def split: if_splits\<close>)
  next
    case WaitRunner
    then obtain q where q: "perform c DropQueue (ap_runner s) = Some q" "s' = s\<lparr>ap_runner := q, ap_stage := StopTimer\<rparr>"
      using a by (auto simp: onRunner_def simp del: perform.simps)
    show ?thesis unfolding q(2)
      by (rule appInv_stage [OF inv rch [OF q(1)] _ _ _ _ _ done' [OF q(1)]]) (use q(1) WaitRunner in \<open>auto simp: stopAt_def split: if_splits\<close>)
  next
    case StopTimer
    have k: "appInv c grace (s\<lparr>ap_stage := CancelOps\<rparr>)" using StopTimer keep [of CancelOps] by (simp add: stopAt_def)
    have s': "s' = s\<lparr>ap_timer := (if ap_timer s = TimerArmed then TimerStopped else ap_timer s), ap_stage := CancelOps\<rparr>"
      using a StopTimer by simp
    have "contextOk grace s'" using appInvD(8) [OF k] unfolding s' contextOk_def by auto
    moreover have "watchersOk s'" using appInvD(3) [OF inv] StopTimer by (simp add: s' watchersOk_stage)
    ultimately show ?thesis using appInvD [OF k] unfolding appInv_def s' by simp
  next
    case CancelOps
    have k: "appInv c grace (s\<lparr>ap_stage := Unlock\<rparr>)" using CancelOps keep [of Unlock] by (simp add: stopAt_def)
    show ?thesis using k a CancelOps appInvD(3) [OF inv]
      unfolding appInv_def contextOk_def by (auto intro: watchersOk_stage)
  next
    case Unlock
    then show ?thesis using inv a unfolding appInv_def contextOk_def by (auto simp: stopAt_def intro: watchersOk_stage)
  next
    case Stopped
    then show ?thesis using a by simp
  qed
qed

lemma appInv_act:
  assumes inv: "appInv c grace s" and a: "act c grace logs x s = Some s'"
  shows "appInv c grace s'"
proof (cases x)
  case (RunnerAct y)
  then obtain r where r: "runnerFree s y" "perform c y (ap_runner s) = Some r" "s' = s\<lparr>ap_runner := r\<rparr>"
    using a by (auto simp: onRunner_def split: if_splits)
  show ?thesis unfolding r(3) by (rule appInv_runner [OF inv r(1,2)])
next
  case (WatcherAct k y)
  then have "onWatcher k y s = Some s'" using a by (simp split: if_splits)
  then show ?thesis by (rule appInv_watcher [OF inv])
next
  case (Restart gs)
  then have s': "s' = s\<lparr>ap_watchers := ap_watchers s @ [startWatcher gs], ap_reloading := True\<rparr>" using a by (simp split: if_splits)
  have "watchersOk (s\<lparr>ap_watchers := ap_watchers s @ [startWatcher gs]\<rparr>)"
    using appInvD(3) [OF inv] groupOk_start [of gs] by (auto simp: watchersOk_def nth_append)
  from appInv_reloading [OF appInv_watchers [OF inv this], of True] show ?thesis by (simp add: s')
next
  case (StopOld k)
  then have "onWatcher k CancelWatch s = Some s'" using a by (simp split: if_splits)
  then show ?thesis by (rule appInv_watcher [OF inv])
next
  case TriggerPass
  then have "s' = s\<lparr>ap_trigger := True, ap_reloading := False\<rparr>" using a by (simp split: if_splits)
  then show ?thesis using inv by (simp add: appInv_def contextOk_def)
next
  case BeginPass
  then show ?thesis using a appInv_worker [OF inv, of "WorkerRemoving []" False] by (auto split: if_splits)
next
  case (SubmitRemoval j)
  then obtain "is" t where t: "ap_worker s = WorkerRemoving is" "workerSubmit c j WorkerRemoving is s = Some t"
    "s' = t\<lparr>ap_removals := ap_removals t \<union> set (workerJobs (ap_worker t))\<rparr>"
    using a by (auto split: worker.splits)
  have "appInv c grace t" using t(1,2) by (intro appInv_workerSubmit [OF inv, of "is" WorkerRemoving j]) auto
  moreover obtain xs where "ap_worker t = WorkerRemoving xs" using workerSubmit_fields(2) [OF t(2)] t(1) by auto
  ultimately show ?thesis using appInv_removals by (simp add: t(3))
next
  case EndRemovals
  then show ?thesis using a appInv_worker [OF inv, of "WorkerDispatching []" "ap_trigger s"]
    by (auto simp: list_all_iff split: if_splits worker.splits)
next
  case (SubmitDeploy j)
  then obtain "is" where "ap_worker s = WorkerDispatching is" "workerSubmit c j WorkerDispatching is s = Some s'"
    using a by (auto split: worker.splits)
  then show ?thesis by (intro appInv_workerSubmit [OF inv, of "is" WorkerDispatching j]) auto
next
  case EndPass
  then show ?thesis using a appInv_worker [OF inv, of WorkerIdle "ap_trigger s"] by (auto split: if_splits worker.splits)
next
  case ExitWorker
  then show ?thesis using a appInv_worker [OF inv, of WorkerExited "ap_trigger s"] by (auto split: if_splits)
next
  case FireTimer
  then have t: "ap_timer s = TimerArmed" and s': "s' = s\<lparr>ap_timer := TimerFired, ap_ops_done := True\<rparr>"
    using a by (simp_all split: if_splits)
  have "contextOk grace s'" using appInvD(8) [OF inv] t by (simp add: s' contextOk_def)
  then show ?thesis using appInvD [OF inv] unfolding appInv_def s' by simp
next
  case Advance
  then show ?thesis using a appInv_advance [OF inv] by simp
qed

lemma app_reachable_inv: "app_reachable c grace logs s \<Longrightarrow> appInv c grace s"
  by (induction rule: app_reachable.induct) (auto intro: appInv_start appInv_act simp del: act.simps)

lemma jobStep_not_dropped: "jobStep c i j ph m r = Some (ph', r') \<Longrightarrow> ph' \<noteq> Dropped"
  by (cases ph) (auto simp: step_defs split: if_splits option.splits move.splits)

text \<open>Only the end of \<open>Stop\<close> drops jobs.\<close>

lemma reachable_not_dropped:
  "reachable c r \<Longrightarrow> r_stop r \<noteq> Drained \<Longrightarrow> \<forall>e\<in>set (r_jobs r). snd e \<noteq> Dropped"
proof (induction rule: reachable.induct)
  case start
  then show ?case by (simp add: startRunner_def)
next
  case (act r a r')
  have upd: "\<forall>e\<in>set (xs[i := (j, ph)]). snd e \<noteq> Dropped"
    if "\<forall>e\<in>set xs. snd e \<noteq> Dropped" "ph \<noteq> Dropped" for xs i and j :: runner_job and ph
    using that set_update_subset_insert [of xs i "(j, ph)"] by auto
  show ?case
  proof (cases a)
    case (Move i m)
    then obtain ph q where q: "jobStep c i (fst (r_jobs r ! i)) (snd (r_jobs r ! i)) m r = Some (ph, q)" "r' = setPhase i ph q"
      using act.hyps(2) by (auto split: if_splits option.splits)
    then show ?thesis
      using act.IH act.prems upd jobStep_not_dropped [OF q(1)] jobStep_frame(1,2) [OF q(1)] by simp
  next
    case Dispatch
    then obtain i q where "r' = setPhase i Pending (r\<lparr>r_queue := q, r_wait := Suc (r_wait r)\<rparr>)"
      using act.hyps(2) by (auto split: list.splits if_splits)
    then show ?thesis using upd [of "r_jobs r" Pending] act.IH act.prems by simp
  qed (use act in \<open>fastforce split: if_splits\<close>)+
qed

lemma drained_no_flight:
  assumes "appInv c grace s" "r_stop (ap_runner s) = Drained" "i < length (r_jobs (ap_runner s))"
  shows "\<not> inFlight (jobPhase (ap_runner s) i)"
proof -
  have "flightOk (ap_runner s)" using reachable_inv [OF appInvD(1) [OF assms(1)]] by (simp add: runnerInv_def)
  then have "cnt (\<lambda>e. inFlight (snd e)) (r_jobs (ap_runner s)) = 0" using assms(2) by (simp add: flightOk_def)
  then show ?thesis using assms(3) by (simp add: cnt_zero jobPhase_def)
qed

lemma worker_not_dropped:
  assumes inv: "appInv c grace s" and i: "i \<in> set (workerJobs (ap_worker s))"
  shows "i < length (r_jobs (ap_runner s)) \<and> jobPhase (ap_runner s) i \<noteq> Dropped \<and> r_stop (ap_runner s) = Active"
proof -
  have "ap_worker s \<noteq> WorkerExited" using i by auto
  then have n: "stageNo (ap_stage s) \<le> 7" using appInvD(6) [OF inv] by (meson not_le)
  then have a: "r_stop (ap_runner s) = Active" using appInvD(2) [OF inv] by (simp add: stopAt_def)
  have l: "i < length (r_jobs (ap_runner s))" using appInvD(7) [OF inv] i by (simp add: list_all_iff)
  then have "r_jobs (ap_runner s) ! i \<in> set (r_jobs (ap_runner s))" by simp
  then have "jobPhase (ap_runner s) i \<noteq> Dropped"
    using reachable_not_dropped [OF appInvD(1) [OF inv]] a by (auto simp: jobPhase_def)
  then show ?thesis using a l by simp
qed

text \<open>
  C3. A shutdown is orderly in every interleaving, reloads that restart the watcher included. When the lock
  of the data directory is given up, no deployment or removal is in progress, the reconcile worker has
  returned, the watcher that the shutdown stopped runs no handler, and the runner refuses every further
  job, so that whatever still runs then, such as a watcher that a reload replaced or installed
  meanwhile, works on no host beside a second daemon. With a grace period no job's context is cancelled
  before the period has elapsed or every job has ended. And no removal that a reconciliation ever
  submitted is dropped from the queue, because the worker waits for them and the runner is stopped only
  after the worker has returned; a deployment that is still queued is dropped, for the next start to
  resume.
\<close>

theorem shutdown_safe:
  assumes "app_reachable c grace logs s"
  shows "(\<not> ap_locked s \<longrightarrow> ap_worker s = WorkerExited
        \<and> ap_stopping s < length (ap_watchers s) \<and> watchStopped (ap_watchers s ! ap_stopping s)
        \<and> (\<forall>i < length (r_jobs (ap_runner s)). \<not> inFlight (jobPhase (ap_runner s) i))
        \<and> (\<forall>j. perform c (Submit j) (ap_runner s) = None))
    \<and> (0 < grace \<and> r_cancelled (ap_runner s) \<noteq> [] \<longrightarrow> ap_timer s = TimerFired
        \<or> (\<forall>i < length (r_jobs (ap_runner s)). \<not> inFlight (jobPhase (ap_runner s) i)))
    \<and> (\<forall>i\<in>ap_removals s. jobPhase (ap_runner s) i \<noteq> Dropped)"
proof -
  note inv = app_reachable_inv [OF assms]
  have quiet: "\<forall>i < length (r_jobs (ap_runner s)). \<not> inFlight (jobPhase (ap_runner s) i)" if "12 < stageNo (ap_stage s)"
    using drained_no_flight [OF inv] appInvD(2) [OF inv] that by (simp add: stopAt_def)
  have "stageNo (ap_stage s) = 14" if "\<not> ap_locked s" using appInvD(9) [OF inv] that by simp
  then have "\<not> ap_locked s \<longrightarrow> ap_worker s = WorkerExited
      \<and> ap_stopping s < length (ap_watchers s) \<and> watchStopped (ap_watchers s ! ap_stopping s)
      \<and> (\<forall>i < length (r_jobs (ap_runner s)). \<not> inFlight (jobPhase (ap_runner s) i))
      \<and> (\<forall>j. perform c (Submit j) (ap_runner s) = None)"
    using quiet appInvD(2,3,6) [OF inv] by (simp add: watchersOk_def stopAt_def)
  moreover have "ap_timer s = TimerFired \<or> (\<forall>i < length (r_jobs (ap_runner s)). \<not> inFlight (jobPhase (ap_runner s) i))"
    if "0 < grace" "r_cancelled (ap_runner s) \<noteq> []"
    using that quiet appInvD(8) [OF inv] unfolding contextOk_def by auto
  moreover have "jobPhase (ap_runner s) i \<noteq> Dropped" if "i \<in> ap_removals s" for i
    using appInvD(4) [OF inv] that worker_not_dropped [OF inv, of i] unfolding removalsOk_def by (auto simp: jobDone_def)
  ultimately show ?thesis by blast
qed

section \<open>Progress\<close>

text \<open>What goes on without a new event: no submission, reload or tick.\<close>

fun innerAct :: "app_action \<Rightarrow> bool" where
  "innerAct (RunnerAct a) = (case a of Submit j \<Rightarrow> False | Cancel i \<Rightarrow> False | _ \<Rightarrow> True)"
| "innerAct (WatcherAct k a) = (case a of Tick i \<Rightarrow> False | _ \<Rightarrow> True)"
| "innerAct (Restart gs) = False" | "innerAct BeginPass = False"
| "innerAct (SubmitRemoval j) = False" | "innerAct (SubmitDeploy j) = False"
| "innerAct a = True"

fun queueRank :: "phase \<Rightarrow> nat" where
  "queueRank Submitting = 14" | "queueRank Queued = 13" | "queueRank ph = rank ph"

definition runnerWork :: "runner_state \<Rightarrow> nat" where
  "runnerWork r = 2 * sum_list (map (\<lambda>e. queueRank (snd e)) (r_jobs r)) + r_results r + of_bool (r_dispatching r)"

fun workerWork :: "worker \<Rightarrow> nat" where
  "workerWork (WorkerRemoving is) = 3" | "workerWork (WorkerDispatching is) = 2" | "workerWork WorkerIdle = 1"
| "workerWork WorkerExited = 0"

definition watcherWork :: "'h watcher_state \<Rightarrow> nat" where
  "watcherWork w = sum_list (map groupWork (wt_groups w)) + of_bool (\<not> wt_cancelled w)"

definition appWork :: "app_state \<Rightarrow> nat" where
  "appWork s = runnerWork (ap_runner s) + sum_list (map watcherWork (ap_watchers s))
     + of_bool (ap_reloading s) + workerWork (ap_worker s) + of_bool (ap_timer s = TimerArmed) + 2 * (14 - stageNo (ap_stage s))"

lemma queueRank_flight: "inFlight ph \<Longrightarrow> queueRank ph = rank ph"
  by (cases ph) auto

lemma queueRank_le: "queueRank ph \<le> 14 \<or> 3 < held ph"
  by (cases ph) auto

lemma jobStep_queueRank:
  assumes "jobStep c i j ph m s = Some (ph', s')" "held ph \<le> 3"
  shows "2 * queueRank ph' + r_results s' < 2 * queueRank ph + r_results s"
  using assms by (cases ph) (auto simp: step_defs split: if_splits option.splits move.splits)

lemma runnerWork_decreases:
  assumes inv: "runnerInv c r" and p: "perform c a r = Some r'" and a: "innerAct (RunnerAct a)" "runnerFree s a"
  shows "runnerWork r' < runnerWork r"
proof (cases a)
  case (Move i m)
  then obtain ph' t where st: "i < length (r_jobs r)" "r' = setPhase i ph' t"
    "jobStep c i (fst (r_jobs r ! i)) (snd (r_jobs r ! i)) m r = Some (ph', t)"
    using p by (auto split: if_splits option.splits)
  have "held (snd (r_jobs r ! i)) \<le> 3" using inv st(1) by (simp add: runnerInv_def flightOk_def list_all_length)
  from jobStep_queueRank [OF st(3) this] show ?thesis
    using sum_list_set [OF st(1), of "\<lambda>e. queueRank (snd e)" "(fst (r_jobs r ! i), ph')"] jobStep_frame(1,3) [OF st(3)]
    by (simp add: runnerWork_def st(2))
next
  case Dispatch
  then obtain i q where q: "r_queue r = i # q" "r' = setPhase i Pending (r\<lparr>r_queue := q, r_wait := Suc (r_wait r)\<rparr>)"
    using p by (auto split: list.splits if_splits)
  then have i: "i < length (r_jobs r)" "snd (r_jobs r ! i) = Queued" using inv by (auto simp: runnerInv_def queueOk_def)
  show ?thesis
    using sum_list_set [OF i(1), of "\<lambda>e. queueRank (snd e)" "(fst (r_jobs r ! i), Pending)"] i(2)
    by (simp add: runnerWork_def q(2))
qed (use p a in \<open>auto simp: runnerWork_def split: if_splits\<close>)

lemma groupWork_decreases:
  assumes w: "watch a s = Some s'" and a: "\<forall>i. a \<noteq> Tick i" "a \<noteq> CancelWatch"
  shows "watcherWork s' < watcherWork s"
proof -
  have set: "sum_list (map groupWork ((wt_groups s)[i := e])) < sum_list (map groupWork (wt_groups s))"
    if "i < length (wt_groups s)" "groupWork e < groupWork (wt_groups s ! i)" for i e
    using sum_list_set [OF that(1), of groupWork e] that(2) by simp
  from w show ?thesis
  proof (cases rule: watch_cases)
    case (fetched i r g ph ph')
    have "groupWork (g, ph') < groupWork (g, ph)"
      using fetched(4) by (auto simp: nextHandler_def elim!: groupFetched_cases)
    then show ?thesis using set [OF fetched(2)] fetched by (simp add: watcherWork_def)
  next
    case (called i g ph ph' h sha)
    have "groupWork (g, ph') < groupWork (g, ph)" using called(4) by (auto elim!: groupCalled_cases)
    then show ?thesis using set [OF called(2)] called by (simp add: watcherWork_def)
  next
    case (returned i g ph ph')
    have "groupWork (g, ph') < groupWork (g, ph)" using returned(4) by (auto simp: nextHandler_def elim!: groupReturned_cases)
    then show ?thesis using set [OF returned(2)] returned by (simp add: watcherWork_def)
  next
    case (ended i g)
    then show ?thesis using set [OF ended(2)] by (simp add: watcherWork_def)
  qed (use a in auto)
qed

lemma onWatcher_work:
  assumes "onWatcher k a s = Some s'"
  obtains w where "k < length (ap_watchers s)" "watch a (ap_watchers s ! k) = Some w"
    "s' = s\<lparr>ap_watchers := (ap_watchers s)[k := w]\<rparr>"
    "appWork s' + watcherWork (ap_watchers s ! k) = appWork s + watcherWork w"
proof -
  obtain w where w: "k < length (ap_watchers s)" "watch a (ap_watchers s ! k) = Some w"
    "s' = s\<lparr>ap_watchers := (ap_watchers s)[k := w]\<rparr>"
    using assms by (auto simp: onWatcher_def split: if_splits)
  then show ?thesis using that sum_list_set [OF w(1), of watcherWork w] by (simp add: appWork_def)
qed

lemma appWork_advance:
  assumes a: "advance c grace logs s = Some s'"
  shows "appWork s' < appWork s"
proof (cases "ap_stage s")
  case Serving
  let ?k = "length (ap_watchers s) - 1"
  obtain t where t: "onWatcher ?k CancelWatch s = Some t" "s' = t\<lparr>ap_stopping := ?k, ap_stage := WaitWatcher\<rparr>"
    using a Serving by (auto simp: Let_def)
  obtain w where w: "watch CancelWatch (ap_watchers s ! ?k) = Some w" "t = s\<lparr>ap_watchers := (ap_watchers s)[?k := w]\<rparr>"
    "appWork t + watcherWork (ap_watchers s ! ?k) = appWork s + watcherWork w"
    by (rule onWatcher_work [OF t(1)])
  have "watcherWork w \<le> watcherWork (ap_watchers s ! ?k)" using w(1) by (auto simp: watcherWork_def)
  moreover have "appWork s' < appWork t" using Serving by (simp add: t(2) w(2) appWork_def)
  ultimately show ?thesis using w(3) by simp
next
  case StopRunner
  then obtain q where "perform c SetStopped (ap_runner s) = Some q" "s' = s\<lparr>ap_runner := q, ap_stage := CloseRunner\<rparr>"
    using a by (auto simp: onRunner_def simp del: perform.simps)
  then show ?thesis using StopRunner by (auto simp: appWork_def runnerWork_def split: if_splits)
next
  case CloseRunner
  then obtain q where "perform c CloseStop (ap_runner s) = Some q" "s' = s\<lparr>ap_runner := q, ap_stage := WaitRunner\<rparr>"
    using a by (auto simp: onRunner_def simp del: perform.simps)
  then show ?thesis using CloseRunner by (auto simp: appWork_def runnerWork_def split: if_splits)
next
  case WaitRunner
  then obtain q where q: "perform c DropQueue (ap_runner s) = Some q" "s' = s\<lparr>ap_runner := q, ap_stage := StopTimer\<rparr>"
    using a by (auto simp: onRunner_def simp del: perform.simps)
  have "sum_list (map (\<lambda>e. queueRank (snd (dropPhase e))) xs) \<le> sum_list (map (\<lambda>e. queueRank (snd e)) xs)" for xs
    by (rule sum_list_mono) (auto simp: dropPhase_def)
  then have "runnerWork q \<le> runnerWork (ap_runner s)"
    using q(1) by (auto simp: runnerWork_def dropPhase_def comp_def split: if_splits)
  then show ?thesis using WaitRunner q(2) by (simp add: appWork_def)
qed (use a in \<open>auto simp: appWork_def split: if_splits run_log_server.splits\<close>)

lemma appWork_decreases:
  assumes inv: "appInv c grace s" and a: "act c grace logs x s = Some s'" "innerAct x"
  shows "appWork s' < appWork s"
proof (cases x)
  case (RunnerAct y)
  then obtain r where r: "runnerFree s y" "perform c y (ap_runner s) = Some r" "s' = s\<lparr>ap_runner := r\<rparr>"
    using a(1) by (auto simp: onRunner_def split: if_splits)
  show ?thesis
    using runnerWork_decreases [OF reachable_inv [OF appInvD(1) [OF inv]] r(2) _ r(1)] a(2) RunnerAct
    by (simp add: appWork_def r(3))
next
  case (WatcherAct k y)
  then have w: "y \<noteq> CancelWatch" "\<forall>i. y \<noteq> Tick i" "onWatcher k y s = Some s'"
    using a by (auto split: if_splits watcher_action.splits)
  show ?thesis by (rule onWatcher_work [OF w(3)]) (use groupWork_decreases [OF _ w(2,1)] in fastforce)
next
  case (StopOld k)
  then have w: "\<not> wt_cancelled (ap_watchers s ! k)" "onWatcher k CancelWatch s = Some s'" using a by (auto split: if_splits)
  show ?thesis by (rule onWatcher_work [OF w(2)]) (use w(1) in \<open>auto simp: watcherWork_def\<close>)
next
  case Advance
  then show ?thesis using a(1) appWork_advance by simp
qed (use a in \<open>auto simp: appWork_def split: if_splits worker.splits\<close>)

definition canGoOn :: "runner_limits \<Rightarrow> gotime \<Rightarrow> run_log_server \<Rightarrow> app_state \<Rightarrow> bool" where
  "canGoOn c grace logs s \<longleftrightarrow> (\<exists>x s'. innerAct x \<and> act c grace logs x s = Some s')"

lemma canGoOnI: "act c grace logs x s \<noteq> None \<Longrightarrow> innerAct x \<Longrightarrow> canGoOn c grace logs s"
  by (auto simp: canGoOn_def)

lemma runner_goes_on:
  assumes "perform c a (ap_runner s) \<noteq> None" "innerAct (RunnerAct a)" "runnerFree s a"
  shows "canGoOn c grace logs s"
  using assms by (intro canGoOnI [where x = "RunnerAct a"]) (auto simp: onRunner_def)

lemma flying_goes_on:
  assumes inv: "appInv c grace s" and lim: "0 < lim_workers c" "0 < lim_host c"
    and i: "i < length (r_jobs (ap_runner s))" "inFlight (jobPhase (ap_runner s) i)"
  shows "canGoOn c grace logs s"
proof -
  obtain a r where "inner (ap_runner s) a" "perform c a (ap_runner s) = Some r"
    using runner_enabled [OF reachable_inv [OF appInvD(1) [OF inv]] lim i(1) i(2) [unfolded jobPhase_def]] by blast
  then show ?thesis by (intro runner_goes_on [of c a]) (auto simp: inner_def)
qed

lemma queue_goes_on:
  assumes inv: "appInv c grace s" and q: "r_queue (ap_runner s) \<noteq> []" "r_stop (ap_runner s) = Active"
  shows "canGoOn c grace logs s"
proof -
  have "flightOk (ap_runner s)" using reachable_inv [OF appInvD(1) [OF inv]] by (simp add: runnerInv_def)
  then have "r_dispatching (ap_runner s)" using q(2) by (auto simp: flightOk_def stopClosed_def)
  then show ?thesis using q(1) by (intro runner_goes_on [of c Dispatch]) (auto split: list.splits)
qed

lemma awaited_goes_on:
  assumes inv: "appInv c grace s" and lim: "0 < lim_workers c" "0 < lim_host c"
    and i: "i \<in> set (workerJobs (ap_worker s))" "\<not> jobDone (ap_runner s) i"
  shows "canGoOn c grace logs s"
proof -
  let ?r = "ap_runner s"
  note w = worker_not_dropped [OF inv i(1)]
  have q: "queueOk ?r" using reachable_inv [OF appInvD(1) [OF inv]] by (simp add: runnerInv_def)
  have fly: "inFlight (jobPhase ?r i)" if "jobPhase ?r i \<noteq> Submitting" "jobPhase ?r i \<noteq> Queued"
    using that i(2) w by (cases "jobPhase ?r i") (auto simp: jobDone_def)
  show ?thesis
  proof (cases "jobPhase ?r i = Submitting")
    case True
    show ?thesis
    proof (cases "length (r_queue ?r) < jobBuffer")
      case True
      then show ?thesis using \<open>jobPhase ?r i = Submitting\<close> w
        by (intro runner_goes_on [of c "Move i Proceed"]) (auto simp: jobPhase_def)
    next
      case False
      then have "r_queue ?r \<noteq> []" by (auto simp: jobBuffer_def)
      then show ?thesis using queue_goes_on [OF inv] w by blast
    qed
  next
    case False
    have "r_queue ?r \<noteq> []" if "jobPhase ?r i = Queued"
    proof -
      have "i \<in> set (r_queue ?r)" using q w that by (simp add: queueOk_def jobPhase_def)
      then show ?thesis by auto
    qed
    then show ?thesis
      using False fly flying_goes_on [OF inv lim, of i] queue_goes_on [OF inv] w by (cases "jobPhase ?r i = Queued") auto
  qed
qed

lemma watcher_goes_on:
  assumes inv: "appInv c grace s" and n: "0 < stageNo (ap_stage s)" and w: "\<not> watchStopped (ap_watchers s ! ap_stopping s)"
  shows "canGoOn c grace logs s"
proof -
  let ?k = "ap_stopping s" let ?w = "ap_watchers s ! ?k"
  have c: "wt_cancelled ?w" "?k < length (ap_watchers s)" using appInvD(3) [OF inv] n by (simp_all add: watchersOk_def)
  then obtain i where i: "i < length (wt_groups ?w)" "snd (wt_groups ?w ! i) \<noteq> GroupEnded"
    using w by (auto simp: watchStopped_def list_all_length)
  have "?w \<in> set (ap_watchers s)" using c(2) by simp
  then have ok: "groupOk ?w i" using appInvD(3) [OF inv] i(1) by (auto simp: watchersOk_def)
  obtain g ph where g: "wt_groups ?w ! i = (g, ph)" by (rule prod.exhaust)
  have go: ?thesis if "watch a ?w \<noteq> None" "innerAct (WatcherAct ?k a)" "a \<noteq> CancelWatch" for a
    using that c(2) by (intro canGoOnI [where x = "WatcherAct ?k a"]) (auto simp: onWatcher_def simp del: watch.simps)
  show ?thesis
  proof (cases ph)
    case (GroupFetching live)
    then show ?thesis using i g by (intro go [of "Fetched i (Inl [])"]) auto
  next
    case (GroupHandling sha k)
    then show ?thesis using i g ok by (intro go [of "CallHandler i"]) (auto simp: groupOk_def)
  next
    case (GroupCalling sha k)
    then show ?thesis using i g by (intro go [of "Returned i"]) auto
  next
    case GroupWaiting
    then show ?thesis using i g c by (intro go [of "SeeDone i"]) auto
  next
    case GroupEnded
    then show ?thesis using i g by simp
  qed
qed

lemma worker_goes_on:
  assumes inv: "appInv c grace s" and lim: "0 < lim_workers c" "0 < lim_host c"
    and n: "5 < stageNo (ap_stage s)" and w: "ap_worker s \<noteq> WorkerExited"
  shows "canGoOn c grace logs s"
proof (cases "\<forall>i\<in>set (workerJobs (ap_worker s)). jobDone (ap_runner s) i")
  case True
  have d: "jobDone r i \<Longrightarrow> submitted r i" for r i by (auto simp: jobDone_def submitted_def)
  show ?thesis
  proof (cases "ap_worker s")
    case WorkerIdle
    then show ?thesis using appInvD(5) [OF inv] n by (intro canGoOnI [where x = ExitWorker]) auto
  next
    case (WorkerRemoving "is")
    then show ?thesis using True by (intro canGoOnI [where x = EndRemovals]) (auto simp: list_all_iff)
  next
    case (WorkerDispatching "is")
    then show ?thesis using True d by (intro canGoOnI [where x = EndPass]) (auto simp: list_all_iff)
  qed (use w in simp)
next
  case False
  then show ?thesis using awaited_goes_on [OF inv lim] by blast
qed

lemma shutdown_goes_on:
  assumes inv: "appInv c grace s" and lim: "0 < lim_workers c" "0 < lim_host c" and n: "ap_stage s \<noteq> Stopped"
  shows "canGoOn c grace logs s"
proof (cases "advance c grace logs s = None")
  case False
  then show ?thesis by (intro canGoOnI [where x = Advance]) simp_all
next
  case True
  note st = appInvD(2) [OF inv]
  have "onWatcher (length (ap_watchers s) - 1) CancelWatch s \<noteq> None"
    using appInvD(3) [OF inv] by (cases "ap_watchers s") (simp_all add: watchersOk_def onWatcher_def)
  then consider "ap_stage s = WaitWatcher" "\<not> watchStopped (ap_watchers s ! ap_stopping s)" | "ap_stage s = WaitWorker" "ap_worker s \<noteq> WorkerExited"
    | "ap_stage s = WaitRunner" "r_wait (ap_runner s) \<noteq> 0"
    using True n st by (cases "ap_stage s") (auto simp: onRunner_def stopAt_def Let_def split: if_splits)
  then show ?thesis
  proof cases
    case 1
    then show ?thesis using watcher_goes_on [OF inv] by simp
  next
    case 2
    then show ?thesis using worker_goes_on [OF inv lim] by simp
  next
    case 3
    have f: "flightOk (ap_runner s)" using reachable_inv [OF appInvD(1) [OF inv]] by (simp add: runnerInv_def)
    show ?thesis
    proof (cases "r_dispatching (ap_runner s)")
      case True
      then show ?thesis using 3 st
        by (intro runner_goes_on [of c StopDispatch]) (auto simp: stopClosed_def stopAt_def)
    next
      case False
      then have "cnt (\<lambda>e. inFlight (snd e)) (r_jobs (ap_runner s)) \<noteq> 0" using 3(2) f by (simp add: flightOk_def)
      then obtain i where "i < length (r_jobs (ap_runner s))" "inFlight (jobPhase (ap_runner s) i)"
        by (auto simp: cnt_zero jobPhase_def)
      then show ?thesis by (rule flying_goes_on [OF inv lim])
    qed
  qed
qed

fun innerActs :: "app_action list \<Rightarrow> bool" where
  "innerActs [] = True"
| "innerActs (a # as) = (innerAct a \<and> innerActs as)"

lemma acts_bound:
  "\<lbrakk>appInv c grace s; innerActs as; acts c grace logs as s = Some t\<rbrakk> \<Longrightarrow> length as + appWork t \<le> appWork s"
proof (induction as arbitrary: s)
  case (Cons a as)
  then obtain s' where s': "act c grace logs a s = Some s'" "acts c grace logs as s' = Some t" "innerAct a" "innerActs as"
    by (auto simp del: act.simps split: option.splits)
  show ?case
    using Cons.IH [OF appInv_act [OF Cons.prems(1) s'(1)] s'(4,2)] appWork_decreases [OF Cons.prems(1) s'(1,3)] by simp
qed simp

lemma shutdown_completes:
  assumes "appInv c grace s" "0 < lim_workers c" "0 < lim_host c"
  shows "\<exists>as t. innerActs as \<and> acts c grace logs as s = Some t \<and> ap_stage t = Stopped"
  using assms(1)
proof (induction "appWork s" arbitrary: s rule: less_induct)
  case less
  show ?case
  proof (cases "ap_stage s = Stopped")
    case True
    then show ?thesis by (intro exI [of _ "[]"] exI [of _ s]) simp
  next
    case False
    obtain x s' where x: "innerAct x" "act c grace logs x s = Some s'"
      using shutdown_goes_on [OF less.prems assms(2,3) False] unfolding canGoOn_def by blast
    obtain as t where t: "innerActs as" "acts c grace logs as s' = Some t" "ap_stage t = Stopped"
      using less.hyps [OF appWork_decreases [OF less.prems x(2,1)] appInv_act [OF less.prems x(2)]] by blast
    then show ?thesis using x by (intro exI [of _ "x # as"] exI [of _ t]) (simp del: act.simps)
  qed
qed

text \<open>
  C13. The shutdown always ends. From any state the daemon can reach, as long as the shutdown has not
  ended, a goroutine can move without a new event from outside, so nothing blocks: neither the wait for
  the watcher, nor that for the worker, which itself waits for removals in the runner, nor that for the
  jobs; every sequence of such moves is at most as long as a bound computed from the state; and one
  leads to the end.
\<close>

theorem shutdown_terminates:
  assumes "app_reachable c grace logs s" and "0 < lim_workers c" and "0 < lim_host c"
  shows "(ap_stage s \<noteq> Stopped \<longrightarrow> (\<exists>x s'. innerAct x \<and> act c grace logs x s = Some s'))
    \<and> (\<forall>as t. innerActs as \<and> acts c grace logs as s = Some t \<longrightarrow> length as \<le> appWork s)
    \<and> (\<exists>as t. innerActs as \<and> acts c grace logs as s = Some t \<and> ap_stage t = Stopped)"
  using app_reachable_inv [OF assms(1)] shutdown_goes_on [OF _ assms(2,3)] acts_bound shutdown_completes [OF _ assms(2,3)]
  unfolding canGoOn_def by (meson add_leE)

section \<open>A shutdown during a reconciliation\<close>

definition demoShutdown :: "app_action list" where
  "demoShutdown =
     [BeginPass, SubmitRemoval (demoRunnerJob ''a''), RunnerAct (Move 0 Proceed), Advance,
      WatcherAct 0 (Fetched 0 (Inl ''down'')), WatcherAct 0 (SeeDone 0), Advance, Advance, Advance, Advance, Advance,
      RunnerAct Dispatch] @ replicate 5 (RunnerAct (Move 0 Proceed)) @ [FireTimer, RunnerAct (Cancel 0)]"

definition demoStopping :: app_state where
  "demoStopping = the (acts demoLimits second NoLogServer demoShutdown (startApp [\<lparr>pg_url = ''u'', pg_branch = ''main'',
     pg_interval = second, pg_handlers = [PollConfig]\<rparr>]))"

lemma demoStopping_reachable: "app_reachable demoLimits second NoLogServer demoStopping"
proof -
  let ?a = "acts demoLimits second NoLogServer demoShutdown (startApp [\<lparr>pg_url = ''u'', pg_branch = ''main'',
     pg_interval = second, pg_handlers = [PollConfig]\<rparr>])"
  have "(case ?a of None \<Rightarrow> False | Some s \<Rightarrow> True)" by code_simp
  then have "?a = Some demoStopping" by (auto simp: demoStopping_def split: option.splits)
  then show ?thesis by (rule app_reachable_acts [OF app_start])
qed

text \<open>
  A reload whose old watcher is in a handler when the daemon is shut down: only the new watcher is stopped
  and waited for, so the handler of the old one still runs when the lock has been given up.
\<close>

definition demoOutlive :: "app_action list" where
  "demoOutlive =
     [WatcherAct 0 (Fetched 0 (Inr ''abc'')), WatcherAct 0 (CallHandler 0),
      Restart [\<lparr>pg_url = ''u'', pg_branch = ''main'', pg_interval = second, pg_handlers = [PollConfig]\<rparr>],
      StopOld 0, TriggerPass, Advance, WatcherAct 1 (Fetched 0 (Inl ''down'')), WatcherAct 1 (SeeDone 0),
      Advance, Advance, Advance, Advance, Advance, ExitWorker, Advance, Advance, Advance, RunnerAct StopDispatch,
      Advance, Advance, Advance, Advance]"

definition demoStopped :: app_state where
  "demoStopped = the (acts demoLimits second NoLogServer demoOutlive (startApp [\<lparr>pg_url = ''u'', pg_branch = ''main'',
     pg_interval = second, pg_handlers = [PollConfig]\<rparr>]))"

lemma demoStopped_reachable: "app_reachable demoLimits second NoLogServer demoStopped"
proof -
  let ?a = "acts demoLimits second NoLogServer demoOutlive (startApp [\<lparr>pg_url = ''u'', pg_branch = ''main'',
     pg_interval = second, pg_handlers = [PollConfig]\<rparr>])"
  have "(case ?a of None \<Rightarrow> False | Some s \<Rightarrow> True)" by code_simp
  then have "?a = Some demoStopped" by (auto simp: demoStopped_def split: option.splits)
  then show ?thesis by (rule app_reachable_acts [OF app_start])
qed

lemma replaced_watcher_outlives_lock:
  "app_reachable demoLimits second NoLogServer demoStopped \<and> \<not> ap_locked demoStopped
   \<and> map snd (wt_groups (ap_watchers demoStopped ! 0)) = [GroupCalling ''abc'' 0]"
proof -
  have "\<not> ap_locked demoStopped" "map snd (wt_groups (ap_watchers demoStopped ! 0)) = [GroupCalling ''abc'' 0]" by code_simp+
  then show ?thesis using demoStopped_reachable by blast
qed

lemma shutdown_safe_witness:
  "ap_worker demoStopped = WorkerExited \<and> watchStopped (ap_watchers demoStopped ! ap_stopping demoStopped)
   \<and> perform demoLimits (Submit (demoRunnerJob ''a'')) (ap_runner demoStopped) = None"
  using shutdown_safe [OF demoStopped_reachable] replaced_watcher_outlives_lock by blast

lemma shutdown_terminates_witness:
  "\<exists>as t. innerActs as \<and> acts demoLimits second NoLogServer as demoStopping = Some t \<and> ap_stage t = Stopped"
  using shutdown_terminates [OF demoStopping_reachable] by (simp add: demoLimits_def)

end
