(* ===== verification/Ssh_Server.thy ===== *)
theory Ssh_Server
  imports Go_Glob "HOL-Library.Word" "HOL-Library.Numeral_Type"
begin

text \<open>
  The SSH server of the tests (\<open>internal/testutils/sshserver.go\<close>): who is let in, which channels and
  requests are accepted, the strings of the wire format, and the end of a command. The SSH and SFTP
  protocols and the commands themselves are the library's and the system's: their outcomes are
  parameters, and what happens while a command works is a sequence of events.
\<close>

unbundle bit_operations_syntax

section \<open>Strings on the wire\<close>

text \<open>\<open>binary.BigEndian\<close> on 32 bits; bytes outside the slice would be a panic, so the reader takes four.\<close>

definition putUint32 :: "32 word \<Rightarrow> gostring" where
  "putUint32 n = map (\<lambda>k. char_of (unat (drop_bit k n AND 0xFF))) [24, 16, 8, 0]"

fun getUint32 :: "gostring \<Rightarrow> 32 word" where
  "getUint32 (a # b # c # d # rest) =
     push_bit 24 (of_nat (byteVal a)) OR push_bit 16 (of_nat (byteVal b)) OR push_bit 8 (of_nat (byteVal c)) OR of_nat (byteVal d)"
| "getUint32 short = 0"

text \<open>The result is \<open>None\<close> where the slice expression panics: its bound is computed on 32 bits.\<close>

definition parseSSHString :: "gostring \<Rightarrow> (gostring \<times> bool) option" where
  "parseSSHString payload =
     (if length payload < 4 then Some ([], False)
      else let n = getUint32 (take 4 payload) in
        if unat n > length payload - 4 then Some ([], False)
        else let hi = unat (4 + n) in
          if hi < 4 \<or> hi > length payload then None
          else Some (take (hi - 4) (drop 4 payload), True))"

definition sshString :: "gostring \<Rightarrow> gostring" where
  "sshString s = putUint32 (of_nat (length s)) @ s"

section \<open>Connections\<close>

record ssh_test_server =
  ts_host_key :: gostring
  ts_auth_key :: gostring \<comment> \<open>as marshalled\<close>

definition publicKeyCallback :: "ssh_test_server \<Rightarrow> gostring \<Rightarrow> goerror" where
  "publicKeyCallback srv key = (if key = ts_auth_key srv then None else Some ''unauthorized key'')"

datatype channel_result = Rejected gostring | NotAccepted | SessionStarted

definition handleChannel :: "gostring \<Rightarrow> goerror \<Rightarrow> channel_result" where
  "handleChannel channelType acceptErr =
     (if channelType \<noteq> ''session'' then Rejected ''unknown channel type''
      else if acceptErr \<noteq> None then NotAccepted else SessionStarted)"

text \<open>A connection: the offered key decides the handshake, then come its channels.\<close>

definition handleConn :: "ssh_test_server \<Rightarrow> gostring \<Rightarrow> goerror \<Rightarrow> (gostring \<times> goerror) list \<Rightarrow> channel_result list" where
  "handleConn srv key transportErr channels =
     (if publicKeyCallback srv key \<noteq> None \<or> transportErr \<noteq> None then []
      else map (\<lambda>(t, e). handleChannel t e) channels)"

section \<open>Sessions\<close>

record ssh_request =
  sr_type :: gostring
  sr_want_reply :: bool
  sr_payload :: gostring

definition answer :: "ssh_request \<Rightarrow> bool \<Rightarrow> bool list" where
  "answer r ok = (if sr_want_reply r then [ok] else [])"

datatype session_end =
    ChannelClosed                              \<comment> \<open>no more requests\<close>
  | ExecStarted gostring "ssh_request list"    \<comment> \<open>the command, and the requests that come after it\<close>
  | SftpStarted
  | SessionPanic

text \<open>The requests of a session up to the one that starts a command or the file server.\<close>

fun handleSession :: "ssh_request list \<Rightarrow> bool list \<times> session_end" where
  "handleSession [] = ([], ChannelClosed)"
| "handleSession (r # rs) =
     (let refuse = (case handleSession rs of (as, e) \<Rightarrow> (answer r False @ as, e)) in
      if sr_type r = ''exec'' then
        (case parseSSHString (sr_payload r) of
           None \<Rightarrow> ([], SessionPanic)
         | Some (command, ok) \<Rightarrow> if \<not> ok then refuse else (answer r True, ExecStarted command rs))
      else if sr_type r = ''subsystem'' then
        (case parseSSHString (sr_payload r) of
           None \<Rightarrow> ([], SessionPanic)
         | Some (name, ok) \<Rightarrow> if \<not> ok \<or> name \<noteq> ''sftp'' then refuse else (answer r True, SftpStarted))
      else refuse)"

text \<open>How \<open>cmd.Run\<close> ends: well, with the code of the process (negative when a signal killed it), or not started.\<close>

datatype run_result = RunOk | RunExit int | RunFailed gostring

definition exitCode :: "run_result \<Rightarrow> 32 word" where
  "exitCode res = (case res of RunOk \<Rightarrow> 0 | RunExit code \<Rightarrow> if code \<ge> 0 then of_int code else 1 | RunFailed e \<Rightarrow> 1)"

text \<open>What happens while a command works: \<open>runExec\<close> and the goroutine that reads the further requests.\<close>

datatype exec_event = RequestIn ssh_request | RequestsEnd | ConnectionLost | CommandEnds run_result

record exec_state =
  xs_cancelled :: bool
  xs_answers :: "bool list"
  xs_ended :: bool
  xs_status :: "gostring option" \<comment> \<open>the payload of the exit-status request that was sent\<close>

definition execBegun :: exec_state where
  "execBegun = \<lparr>xs_cancelled = False, xs_answers = [], xs_ended = False, xs_status = None\<rparr>"

fun execStep :: "exec_event \<Rightarrow> exec_state \<Rightarrow> exec_state" where
  "execStep (RequestIn r) s =
     s\<lparr>xs_cancelled := (xs_cancelled s \<or> sr_type r = ''signal''), xs_answers := xs_answers s @ answer r False\<rparr>"
| "execStep RequestsEnd s = s\<lparr>xs_cancelled := True\<rparr>"
| "execStep ConnectionLost s = s\<lparr>xs_cancelled := True\<rparr>"
| "execStep (CommandEnds res) s =
     (if xs_ended s then s
      else s\<lparr>xs_ended := True, xs_cancelled := True,
             xs_status := (if xs_cancelled s then None else Some (putUint32 (exitCode res)))\<rparr>)"

section \<open>The start of the server\<close>

record test_keys =
  tk_private_key :: "gostring \<times> nat" \<comment> \<open>content and mode\<close>
  tk_known_hosts :: gostring

text \<open>The steps in their order; the first that fails ends the test with its message.\<close>

definition startSSHServer ::
  "gostring + gostring \<Rightarrow> goerror \<Rightarrow> gostring + gostring \<Rightarrow> (gostring + gostring) \<Rightarrow> goerror \<Rightarrow> gostring + nat
   \<Rightarrow> goerror \<Rightarrow> goerror \<Rightarrow> (gostring \<Rightarrow> gostring) \<Rightarrow> gostring + ssh_test_server \<times> test_keys" where
  "startSSHServer hostKey hostSigner clientKey clientSigner writeKey listen createHosts writeHosts marshalKey =
     (case hostKey of
        Inl e \<Rightarrow> Inl (''generate host key: '' @ e)
      | Inr hostPriv \<Rightarrow>
          (case hostSigner of
             Some e \<Rightarrow> Inl (''host signer: '' @ e)
           | None \<Rightarrow>
               (case clientKey of
                  Inl e \<Rightarrow> Inl (''generate client key: '' @ e)
                | Inr clientPEM \<Rightarrow>
                    (case clientSigner of
                       Inl e \<Rightarrow> Inl (''client signer: '' @ e)
                     | Inr clientPublic \<Rightarrow>
                         (case writeKey of
                            Some e \<Rightarrow> Inl (''write private key: '' @ e)
                          | None \<Rightarrow>
                              (case listen of
                                 Inl e \<Rightarrow> Inl (''listen: '' @ e)
                               | Inr port \<Rightarrow>
                                   (case createHosts of
                                      Some e \<Rightarrow> Inl (''create known_hosts: '' @ e)
                                    | None \<Rightarrow>
                                        (case writeHosts of
                                           Some e \<Rightarrow> Inl (''write known_hosts: '' @ e)
                                         | None \<Rightarrow>
                                             Inr (\<lparr>ts_host_key = hostPriv, ts_auth_key = clientPublic\<rparr>,
                                                  \<lparr>tk_private_key = (clientPEM, 384),
                                                   tk_known_hosts = ''[127.0.0.1]:'' @ itoaNat port @ '' '' @ marshalKey hostPriv\<rparr>)))))))))"

section \<open>Laws\<close>

lemma byteVal_char_of: "n < 256 \<Longrightarrow> byteVal (char_of n) = n"
  by (simp add: byteVal_def)

lemma low_byte: "(x :: 32 word) AND 0xFF = take_bit 8 x"
  by (simp add: take_bit_eq_mask mask_eq_exp_minus_1)

lemma put_byte: "of_nat (byteVal (char_of (unat (drop_bit k n AND 0xFF)))) = take_bit 8 (drop_bit k (n :: 32 word))"
proof -
  have "unat (take_bit 8 (drop_bit k n)) < 256"
    by (simp add: unsigned_take_bit_eq take_bit_nat_less_exp [of 8, simplified])
  then show ?thesis by (simp add: low_byte byteVal_char_of)
qed

lemma word_bytes:
  "push_bit 24 (take_bit 8 (drop_bit 24 n)) OR push_bit 16 (take_bit 8 (drop_bit 16 n))
     OR push_bit 8 (take_bit 8 (drop_bit 8 n)) OR take_bit 8 n = (n :: 32 word)"
proof (rule bit_word_eqI)
  fix k :: nat
  assume "k < LENGTH(32)"
  then consider "k < 8" | "8 \<le> k" "k < 16" | "16 \<le> k" "k < 24" | "24 \<le> k" "k < 32" by fastforce
  then show "bit (push_bit 24 (take_bit 8 (drop_bit 24 n)) OR push_bit 16 (take_bit 8 (drop_bit 16 n))
     OR push_bit 8 (take_bit 8 (drop_bit 8 n)) OR take_bit 8 n) k \<longleftrightarrow> bit n k"
    by cases (auto simp: bit_simps)
qed

lemma get_put: "getUint32 (putUint32 n @ s) = n"
  using word_bytes [of n] put_byte [of _ n] put_byte [of 0 n] by (simp add: putUint32_def)

lemma length_put [simp]: "length (putUint32 n) = 4"
  by (simp add: putUint32_def)

lemma byteVal_less: "byteVal c < 256"
  by (simp add: byteVal_def)

abbreviation byteWord :: "char \<Rightarrow> 32 word" where
  "byteWord c \<equiv> of_nat (byteVal c)"

lemma byteWord_unat: "unat (byteWord c) = byteVal c"
  using byteVal_less [of c] by (simp add: unsigned_of_nat take_bit_nat_eq_self)

lemma byteWord_take: "take_bit 8 (byteWord c) = byteWord c"
proof (rule word_eq_iff_unsigned [THEN iffD2])
  show "unat (take_bit 8 (byteWord c)) = unat (byteWord c)"
    using byteVal_less [of c] by (simp add: unsigned_take_bit_eq byteWord_unat take_bit_nat_eq_self)
qed

lemma byteWord_bit: "bit (byteWord c) k \<Longrightarrow> k < 8"
  by (subst (asm) byteWord_take [symmetric]) (simp only: bit_take_bit_iff)

lemma word_split:
  fixes a1 a2 a3 a4 :: char
  defines "w \<equiv> push_bit 24 (byteWord a1) OR push_bit 16 (byteWord a2) OR push_bit 8 (byteWord a3) OR byteWord a4"
  shows "take_bit 8 (drop_bit 24 w) = byteWord a1" "take_bit 8 (drop_bit 16 w) = byteWord a2"
    "take_bit 8 (drop_bit 8 w) = byteWord a3" "take_bit 8 w = byteWord a4"
  unfolding w_def
  by (rule bit_word_eqI; simp only: bit_take_bit_iff bit_drop_bit_eq comp_apply bit_or_iff bit_push_bit_iff;
      use byteWord_bit in fastforce)+

lemma put_get: "length b = 4 \<Longrightarrow> putUint32 (getUint32 b) = b"
proof -
  assume "length b = 4"
  then obtain a1 a2 a3 a4 where b: "b = [a1, a2, a3, a4]" by (auto simp: numeral_eq_Suc length_Suc_conv)
  have c: "char_of (unat (byteWord a)) = a" for a using byteWord_unat [of a] by (simp add: byteVal_def)
  have "drop_bit 0 (getUint32 b) = getUint32 b" by simp
  then show ?thesis
    using word_split [of a1 a2 a3 a4] c unfolding b putUint32_def low_byte by simp
qed

lemma parseSSHString_cases:
  assumes "length p < 2 ^ 32"
  shows "parseSSHString p =
     (if 4 \<le> length p \<and> unat (getUint32 (take 4 p)) \<le> length p - 4
      then Some (take (unat (getUint32 (take 4 p))) (drop 4 p), True) else Some ([], False))"
proof -
  let ?n = "getUint32 (take 4 p)"
  have "unat (4 + ?n) = 4 + unat ?n" if "4 \<le> length p" "unat ?n \<le> length p - 4"
  proof -
    have "4 + unat ?n < 2 ^ 32" using that assms by linarith
    then show ?thesis by (simp add: unat_word_ariths)
  qed
  then show ?thesis by (auto simp: parseSSHString_def Let_def)
qed

lemma parseSSHString_sshString:
  "length (sshString s @ rest) < 2 ^ 32 \<Longrightarrow> parseSSHString (sshString s @ rest) = Some (s, True)"
proof -
  assume l: "length (sshString s @ rest) < 2 ^ 32"
  then have "unat (of_nat (length s) :: 32 word) = length s"
    by (simp add: sshString_def unsigned_of_nat take_bit_nat_eq_self)
  moreover have "getUint32 (take 4 (sshString s @ rest)) = of_nat (length s)"
    using get_put [of _ "[]"] by (simp add: sshString_def)
  ultimately show ?thesis
    unfolding parseSSHString_cases [OF l] by (simp add: sshString_def)
qed

text \<open>
  C39. The reader of the wire format is the inverse of its writer: on a payload of less than 4 GiB it never
  panics, and it yields a string exactly if the payload begins with the encoding of this string, whatever
  follows; in particular a length that the payload does not have is refused.
\<close>

theorem parseSSHString_exact:
  assumes "length p < 2 ^ 32"
  shows "(parseSSHString p = Some (s, True) \<longleftrightarrow> (\<exists>rest. p = sshString s @ rest))
    \<and> ((\<forall>x rest. p \<noteq> sshString x @ rest) \<longrightarrow> parseSSHString p = Some ([], False))"
proof -
  have read: "\<exists>rest. p = sshString x @ rest" if "parseSSHString p = Some (x, True)" for x
  proof -
    let ?n = "getUint32 (take 4 p)"
    have n: "4 \<le> length p" "unat ?n \<le> length p - 4" "x = take (unat ?n) (drop 4 p)"
      using that unfolding parseSSHString_cases [OF assms] by (auto split: if_splits)
    have "length x = unat ?n" using n by simp
    then have "sshString x = take 4 p @ x" using put_get [of "take 4 p"] n(1) by (simp add: sshString_def)
    then have "p = sshString x @ drop (4 + unat ?n) p"
      using n(3) by (metis append.assoc append_take_drop_id drop_drop add.commute)
    then show ?thesis ..
  qed
  have "parseSSHString p = Some (s, True)" if "p = sshString s @ rest" for rest
    using parseSSHString_sshString assms unfolding that by blast
  moreover have "parseSSHString p = Some ([], False)" if "\<forall>x rest. p \<noteq> sshString x @ rest"
    using read that parseSSHString_cases [OF assms] by metis
  ultimately show ?thesis using read by blast
qed

lemma parseSSHString_exact_witness:
  "parseSSHString [char_of (0::nat), char_of (0::nat), char_of (0::nat), char_of (9::nat), CHR ''l'', CHR ''s''] = Some ([], False)
   \<and> parseSSHString (sshString ''ls'' @ ''x'') = Some (''ls'', True)"
proof
  let ?p = "[char_of (0::nat), char_of (0::nat), char_of (0::nat), char_of (9::nat), CHR ''l'', CHR ''s'']"
  have "length x = 9" if "?p = sshString x @ rest" for x rest
  proof -
    have l: "length x < 2 ^ 32" using that [THEN arg_cong, of length] by (simp add: sshString_def)
    have "getUint32 (take 4 ?p) = of_nat (length x)" unfolding that using get_put [of _ "[]"] by (simp add: sshString_def)
    moreover have "getUint32 (take 4 ?p) = 9" by code_simp
    ultimately have "unat (of_nat (length x) :: 32 word) = 9" by simp
    then show ?thesis using l by (simp add: unsigned_of_nat take_bit_nat_eq_self)
  qed
  then have "\<forall>x rest. ?p \<noteq> sshString x @ rest" by (fastforce simp: sshString_def dest: arg_cong [where f = length])
  then show "parseSSHString ?p = Some ([], False)" using parseSSHString_exact [of ?p] by simp
  show "parseSSHString (sshString ''ls'' @ ''x'') = Some (''ls'', True)"
    using parseSSHString_exact [of "sshString ''ls'' @ ''x''" "''ls''"] by (auto simp: sshString_def)
qed

section \<open>Sessions and commands\<close>

definition startsCommand :: "ssh_request \<Rightarrow> gostring \<Rightarrow> bool" where
  "startsCommand r c \<longleftrightarrow> sr_type r = ''exec'' \<and> parseSSHString (sr_payload r) = Some (c, True)"

definition startsSftp :: "ssh_request \<Rightarrow> bool" where
  "startsSftp r \<longleftrightarrow> sr_type r = ''subsystem'' \<and> parseSSHString (sr_payload r) = Some (''sftp'', True)"

definition refusals :: "ssh_request list \<Rightarrow> bool list" where
  "refusals rs = concat (map (\<lambda>r. answer r False) rs)"

definition idle :: "ssh_request \<Rightarrow> bool" where
  "idle r \<longleftrightarrow> (\<forall>c. \<not> startsCommand r c) \<and> \<not> startsSftp r"

lemma handleSession_idle:
  "\<lbrakk>\<forall>x\<in>set pre. idle x \<and> length (sr_payload x) < 2 ^ 32; handleSession rs = (as, e)\<rbrakk>
   \<Longrightarrow> handleSession (pre @ rs) = (refusals pre @ as, e)"
proof (induction pre)
  case (Cons r pre)
  have "handleSession (pre @ rs) = (refusals pre @ as, e)" using Cons by simp
  moreover have "length (sr_payload r) < 2 ^ 32" using Cons.prems(1) by simp
  from parseSSHString_cases [OF this] obtain name ok where "parseSSHString (sr_payload r) = Some (name, ok)"
    by (metis (full_types))
  ultimately show ?case using Cons.prems(1)
    by (cases ok) (auto simp: idle_def startsCommand_def startsSftp_def refusals_def Let_def)
qed (simp add: refusals_def)

lemma handleSession_start:
  "startsCommand r c \<Longrightarrow> handleSession (r # rs) = (answer r True, ExecStarted c rs)"
  "startsSftp r \<Longrightarrow> handleSession (r # rs) = (answer r True, SftpStarted)"
  by (simp_all add: startsCommand_def startsSftp_def)

text \<open>What cancels a command.\<close>

definition cancels :: "exec_event \<Rightarrow> bool" where
  "cancels ev \<longleftrightarrow> (case ev of RequestIn r \<Rightarrow> sr_type r = ''signal'' | CommandEnds res \<Rightarrow> False | _ \<Rightarrow> True)"

definition ends :: "exec_event \<Rightarrow> bool" where
  "ends ev \<longleftrightarrow> (\<exists>res. ev = CommandEnds res)"

lemma exec_quiet:
  "list_all (\<lambda>ev. \<not> cancels ev \<and> \<not> ends ev) evs \<Longrightarrow>
   xs_cancelled (fold execStep evs s) = xs_cancelled s \<and> xs_ended (fold execStep evs s) = xs_ended s
   \<and> xs_status (fold execStep evs s) = xs_status s"
proof (induction evs arbitrary: s)
  case (Cons ev evs)
  then show ?case by (cases ev) (auto simp: cancels_def ends_def)
qed simp

lemma exec_fixed:
  "\<lbrakk>xs_cancelled s; xs_ended s \<or> xs_status s = None\<rbrakk> \<Longrightarrow> xs_status (fold execStep evs s) = xs_status s"
proof (induction evs arbitrary: s)
  case (Cons ev evs)
  then have "xs_cancelled (execStep ev s) \<and> xs_status (execStep ev s) = xs_status s
      \<and> (xs_ended (execStep ev s) \<or> xs_status (execStep ev s) = None)"
    by (cases ev) auto
  with Cons.IH [of "execStep ev s"] show ?case by (metis fold_simps(2))
qed simp

lemma exec_cancelled:
  "\<lbrakk>list_ex cancels evs; \<not> list_ex ends evs; xs_status s = None\<rbrakk> \<Longrightarrow>
   xs_cancelled (fold execStep evs s) \<and> xs_status (fold execStep evs s) = None"
proof (induction evs rule: rev_induct)
  case (snoc ev evs)
  have "xs_status (fold execStep evs s) = None"
  proof (cases "list_ex cancels evs")
    case False
    then have "list_all (\<lambda>ev. \<not> cancels ev \<and> \<not> ends ev) evs" using snoc.prems(2) by (auto simp: list_all_iff list_ex_iff)
    then show ?thesis using exec_quiet snoc.prems(3) by simp
  qed (use snoc in auto)
  then show ?case using snoc by (cases ev) (auto simp: cancels_def ends_def)
qed simp

lemma exitCode_nonzero:
  assumes "res \<noteq> RunOk" "\<forall>code. res = RunExit code \<longrightarrow> code \<noteq> 0 \<and> code < 2 ^ 32"
  shows "exitCode res \<noteq> 0"
proof (cases res)
  case (RunExit code)
  show ?thesis
  proof (cases "code \<ge> 0")
    case True
    have "take_bit 32 code = code" using True assms(2) RunExit by (simp add: take_bit_int_eq_self)
    then have "uint (of_int code :: 32 word) = code" using True by (simp add: unsigned_of_int)
    then have "(of_int code :: 32 word) \<noteq> 0" using assms(2) RunExit by force
    then show ?thesis using True RunExit by (simp add: exitCode_def)
  qed (simp add: exitCode_def RunExit)
qed (use assms in \<open>simp_all add: exitCode_def\<close>)

text \<open>
  A session runs one command and reports how it ended: the requests before the first well-formed exec
  are refused, each with one answer if it wants one, and that request starts the command; when the
  command ends, its exit status is sent as 32 bits that the client reads as the code, zero only for
  success, unless a signal, the end of the requests or the loss of the connection came before: then
  none is sent, whatever follows.
\<close>

theorem session_reports_exit:
  assumes "\<forall>x\<in>set pre. idle x \<and> length (sr_payload x) < 2 ^ 32" and "startsCommand r c" and "\<not> list_ex ends before"
  shows "handleSession (pre @ r # rest) = (refusals pre @ answer r True, ExecStarted c rest)
    \<and> xs_status (fold execStep (before @ CommandEnds res # after) execBegun)
        = (if list_ex cancels before then None else Some (putUint32 (exitCode res)))
    \<and> getUint32 (putUint32 (exitCode res)) = exitCode res
    \<and> (res \<noteq> RunOk \<and> (\<forall>code. res = RunExit code \<longrightarrow> code \<noteq> 0 \<and> code < 2 ^ 32) \<longrightarrow> exitCode res \<noteq> 0)"
proof -
  let ?s = "fold execStep before execBegun"
  have h: "handleSession (pre @ r # rest) = (refusals pre @ answer r True, ExecStarted c rest)"
    by (rule handleSession_idle [OF assms(1) handleSession_start(1) [OF assms(2)]])
  have b: "xs_cancelled execBegun = False" "xs_ended execBegun = False" "xs_status execBegun = None"
    by (simp_all add: execBegun_def)
  have "xs_status (fold execStep after (execStep (CommandEnds res) ?s))
      = (if list_ex cancels before then None else Some (putUint32 (exitCode res)))"
  proof (cases "list_ex cancels before")
    case True
    then have s: "xs_cancelled ?s" "xs_status ?s = None" using exec_cancelled [OF True assms(3)] b by auto
    then show ?thesis using True exec_fixed [of "execStep (CommandEnds res) ?s" after] by simp
  next
    case False
    then have "list_all (\<lambda>ev. \<not> cancels ev \<and> \<not> ends ev) before" using assms(3) by (auto simp: list_all_iff list_ex_iff)
    then have s: "\<not> xs_cancelled ?s" "\<not> xs_ended ?s" using exec_quiet b by auto
    then show ?thesis using False exec_fixed [of "execStep (CommandEnds res) ?s" after] by simp
  qed
  then show ?thesis using h get_put [of _ "[]"] exitCode_nonzero by auto
qed

lemma session_reports_exit_witness:
  "xs_status (fold execStep ([RequestIn \<lparr>sr_type = ''env'', sr_want_reply = True, sr_payload = []\<rparr>]
      @ CommandEnds (RunExit 3) # [RequestsEnd]) execBegun) = Some (putUint32 (exitCode (RunExit 3)))"
proof -
  let ?r = "\<lparr>sr_type = ''exec'', sr_want_reply = True, sr_payload = sshString ''ls'' @ []\<rparr>"
  have "startsCommand ?r ''ls''"
    by (simp add: startsCommand_def parseSSHString_sshString [of _ "[]", simplified] sshString_def del: append_Nil2)
       (use parseSSHString_sshString [of "''ls''" "[]"] in \<open>simp add: sshString_def\<close>)
  from session_reports_exit [of "[]", OF _ this, of "[RequestIn \<lparr>sr_type = ''env'', sr_want_reply = True, sr_payload = []\<rparr>]"
      "[]" "RunExit 3" "[RequestsEnd]"] show ?thesis by (auto simp: ends_def cancels_def)
qed

end
