(* ===== verification/Startup.thy ===== *)
theory Startup
  imports Shutdown
begin

text \<open>
  The start of the daemon (\<open>internal/daemon/daemon.go\<close>: \<open>Run\<close> up to its select): the steps in the order of
  the code, with every early return. What a failed start has already begun is part of the result. The
  goroutines begin their work concurrently; their first state is that of \<open>Shutdown\<close>, and the resumed
  deployments are found on the disk as it is before the first of them works.
\<close>

section \<open>What the start works with\<close>

record 'w boot_io =
  bo_loader :: "'w loader"
  bo_local_file :: "gostring file_state"
  bo_mkdir :: "gostring \<Rightarrow> goerror"
  bo_lock_open :: goerror
  bo_lock :: flock
  bo_read_file :: "gostring \<Rightarrow> gostring + gostring"
  bo_transport :: "'w transport"
  bo_applied :: "config file_state"
  bo_cores :: nat
  bo_now :: gotime
  bo_admin_start :: goerror

record 'w boot_state =
  bs_cache :: "'w cache_state"
  bs_disk :: disk

datatype startup_error =
    InvalidBootstrap "gostring list" | DataDir gostring | NotAlone gostring | ConfigFailed load_error
  | StoreFailed store_error | ReposDirFailed gostring | RunsDirFailed gostring | ReporterFailed gostring
  | AdminFailed gostring | WebhooksError gostring | StorePanic

text \<open>What has been begun, in the order of the code.\<close>

record started =
  sd_locked :: bool
  sd_config :: "config option"
  sd_incomplete :: "validation_issue list"
  sd_stale :: "nat option" \<comment> \<open>the deployments marked as failed\<close>
  sd_limits :: "runner_limits option" \<comment> \<open>the runner works\<close>
  sd_loop :: "loop_state option"
  sd_resumed :: "repo_event list" \<comment> \<open>dispatched to \<open>deployHandler\<close>\<close>
  sd_watched :: "poll_handler poll_group list"
  sd_local_watch :: bool
  sd_webhooks :: "webhook_setup option"
  sd_log_server :: run_log_server
  sd_cleanup :: bool

definition nothingStarted :: started where
  "nothingStarted =
     \<lparr>sd_locked = False, sd_config = None, sd_incomplete = [], sd_stale = None, sd_limits = None, sd_loop = None,
      sd_resumed = [], sd_watched = [], sd_local_watch = False, sd_webhooks = None, sd_log_server = NoLogServer,
      sd_cleanup = False\<rparr>"

section \<open>The steps\<close>

text \<open>The bootstrap configuration, the data directory and the lock.\<close>

definition bootLock :: "'w boot_io \<Rightarrow> env_config \<Rightarrow> startup_error option" where
  "bootLock io env =
     (if validateEnv env \<noteq> [] then Some (InvalidBootstrap (validateEnv env))
      else (case bo_mkdir io (env_data_path env) of
              Some e \<Rightarrow> Some (DataDir (''create data dir: '' @ e))
            | None \<Rightarrow> map_option NotAlone (acquireSingleInstanceLock (env_data_path env) (bo_lock_open io) (bo_lock io))))"

text \<open>The state store; an error of the marking is only logged.\<close>

definition bootStore ::
  "'w boot_io \<Rightarrow> env_config \<Rightarrow> started \<Rightarrow> disk \<Rightarrow> startup_error option \<times> started \<times> disk" where
  "bootStore io env sd d =
     (case initStore (env_data_path env) d of
        Some e \<Rightarrow> (Some (StoreFailed e), sd, d)
      | None \<Rightarrow>
          (case markStaleRunningDeploymentsFailed (env_data_path env) (bo_now io) d of
             (Panic, d1) \<Rightarrow> (Some StorePanic, sd, d1)
           | (Ret (n, err), d1) \<Rightarrow>
               (let sd1 = sd\<lparr>sd_stale := Some n\<rparr> in
                case bo_mkdir io (pathJoin [env_data_path env, ''repos'']) of
                  Some e \<Rightarrow> (Some (ReposDirFailed (''create repos dir: '' @ e)), sd1, d1)
                | None \<Rightarrow>
                    (case bo_mkdir io (pathJoin [env_data_path env, ''runs'']) of
                       Some e \<Rightarrow> (Some (RunsDirFailed (''create runs dir: '' @ e)), sd1, d1)
                     | None \<Rightarrow> (None, sd1, d1)))))"

text \<open>The runner and the reporter; an unreadable baseline counts as a first start.\<close>

definition bootEngine ::
  "'w boot_io \<Rightarrow> env_config \<Rightarrow> config \<Rightarrow> started \<Rightarrow> startup_error option \<times> started" where
  "bootEngine io env c sd =
     (let sd1 = sd\<lparr>sd_limits := Some (runnerLimits (bo_cores io) (env_max_workers env) (env_max_host_concurrency env))\<rparr> in
      case buildReporter (bo_transport io) env (bo_read_file io (env_github_token_file env)) of
        Inl e \<Rightarrow> (Some (ReporterFailed (''build reporter: '' @ e)), sd1)
      | Inr reporter \<Rightarrow>
          (let previous = (case loadAppliedConfig (bo_applied io) of Inl e \<Rightarrow> None | Inr p \<Rightarrow> p)
           in (None, sd1\<lparr>sd_loop := Some (startLoop c previous)\<rparr>)))"

text \<open>Intake: the resumed deployments, the watchers, the admin server, the webhooks and the log server.\<close>

definition bootIntake ::
  "'w boot_io \<Rightarrow> env_config \<Rightarrow> config \<Rightarrow> started \<Rightarrow> disk \<Rightarrow> 'w \<Rightarrow> (startup_error option \<times> started) \<times> 'w" where
  "bootIntake io env c sd d w =
     (let senv = sshEnv (env_ssh_private_key_file env) (env_ssh_known_hosts env) (env_ssh_host_key_policy env) in
      case resumeIncompleteDeploys (Some c) (Some (env_data_path env, d)) (resolveMirror (ld_os (bo_loader io)) env senv) w of
        (evs, w1) \<Rightarrow>
          (let sd1 = sd\<lparr>sd_resumed := evs, sd_watched := buildGroups (buildWatcher env c),
                        sd_local_watch := (env_source env \<noteq> SourceGit \<and> env_config_watch env)\<rparr> in
           (case bo_admin_start io of
              Some e \<Rightarrow> (Some (AdminFailed (''admin server: '' @ e)), sd1)
            | None \<Rightarrow>
                (let hooks = registerWebhooks env (Some c) (bo_read_file io) in
                 case hooks of
                   WebhooksFailed e \<Rightarrow> (Some (WebhooksError (''register webhooks: '' @ e)), sd1)
                 | _ \<Rightarrow> (None, sd1\<lparr>sd_webhooks := Some hooks, sd_log_server := newRunLogServer env,
                                  sd_cleanup := (env_log_retention_days env > 0)\<rparr>)), w1)))"

definition runStart ::
  "'w boot_io \<Rightarrow> env_config \<Rightarrow> 'w boot_state \<Rightarrow> (startup_error option \<times> started) \<times> 'w boot_state" where
  "runStart io env s =
     (case bootLock io env of
        Some e \<Rightarrow> ((Some e, nothingStarted), s)
      | None \<Rightarrow>
          (let sd = nothingStarted\<lparr>sd_locked := True\<rparr> in
           case loadConfig (bo_loader io) env (bo_local_file io) (bs_cache s) of
             (Inl e, ca) \<Rightarrow> ((Some (ConfigFailed e), sd), s\<lparr>bs_cache := ca\<rparr>)
           | (Inr res, ca) \<Rightarrow>
               (let c = cr_config res in
                case bootStore io env (sd\<lparr>sd_config := Some c, sd_incomplete := blockingIssues c\<rparr>) (bs_disk s) of
                  (Some e, sd1, d1) \<Rightarrow> ((Some e, sd1), \<lparr>bs_cache = ca, bs_disk = d1\<rparr>)
                | (None, sd1, d1) \<Rightarrow>
                    (case bootEngine io env c sd1 of
                       (Some e, sd2) \<Rightarrow> ((Some e, sd2), \<lparr>bs_cache = ca, bs_disk = d1\<rparr>)
                     | (None, sd2) \<Rightarrow>
                         (case bootIntake io env c sd2 d1 (ca_world ca) of
                            (r, w) \<Rightarrow> (r, \<lparr>bs_cache = ca\<lparr>ca_world := w\<rparr>, bs_disk = d1\<rparr>))))))"

text \<open>The goroutines after a start.\<close>

definition appStarted :: "started \<Rightarrow> app_state" where
  "appStarted sd = startApp (sd_watched sd)"

section \<open>Order of the start\<close>

lemma bootStore_started:
  assumes "bootStore io env sd d = (err, sd', d')"
  shows "sd_locked sd' = sd_locked sd \<and> sd_config sd' = sd_config sd \<and> sd_resumed sd' = sd_resumed sd
    \<and> sd_watched sd' = sd_watched sd \<and> sd_limits sd' = sd_limits sd \<and> sd_loop sd' = sd_loop sd
    \<and> (err = None \<longrightarrow> (\<exists>n e. markStaleRunningDeploymentsFailed (env_data_path env) (bo_now io) d = (Ret (n, e), d')
         \<and> sd_stale sd' = Some n))"
  using assms by (auto simp: bootStore_def Let_def split: option.splits prod.splits call.splits)

lemma bootEngine_started:
  assumes "bootEngine io env c sd = (err, sd')"
  shows "sd_locked sd' = sd_locked sd \<and> sd_config sd' = sd_config sd \<and> sd_resumed sd' = sd_resumed sd
    \<and> sd_watched sd' = sd_watched sd \<and> sd_stale sd' = sd_stale sd \<and> sd_limits sd' \<noteq> None
    \<and> (err = None \<longrightarrow> sd_loop sd' \<noteq> None)"
  using assms by (auto simp: bootEngine_def Let_def split: sum.splits)

lemma bootIntake_started:
  assumes "bootIntake io env c sd d w = ((err, sd'), w')"
  shows "sd_locked sd' = sd_locked sd \<and> sd_config sd' = sd_config sd \<and> sd_stale sd' = sd_stale sd
    \<and> sd_limits sd' = sd_limits sd \<and> sd_loop sd' = sd_loop sd
    \<and> sd_watched sd' = buildGroups (buildWatcher env c)
    \<and> sd_resumed sd' = fst (resumeIncompleteDeploys (Some c) (Some (env_data_path env, d))
          (resolveMirror (ld_os (bo_loader io)) env
            (sshEnv (env_ssh_private_key_file env) (env_ssh_known_hosts env) (env_ssh_host_key_policy env))) w)"
  using assms by (auto simp: bootIntake_def Let_def split: option.splits prod.splits webhook_setup.splits)

text \<open>How far a start came.\<close>

lemma runStart_cases:
  assumes "runStart io env s = ((err, sd), s')"
  obtains (unlocked) e where "bootLock io env = Some e" "err = Some e" "sd = nothingStarted" "s' = s"
    | (early) "bootLock io env = None" "err \<noteq> None" "sd_locked sd" "sd_resumed sd = []" "sd_watched sd = []"
    | (intake) res ca sd1 sd2 d1 w where "bootLock io env = None"
        "loadConfig (bo_loader io) env (bo_local_file io) (bs_cache s) = (Inr res, ca)"
        "bootStore io env (nothingStarted\<lparr>sd_locked := True, sd_config := Some (cr_config res),
            sd_incomplete := blockingIssues (cr_config res)\<rparr>) (bs_disk s) = (None, sd1, d1)"
        "bootEngine io env (cr_config res) sd1 = (None, sd2)"
        "bootIntake io env (cr_config res) sd2 d1 (ca_world ca) = ((err, sd), w)"
        "s' = \<lparr>bs_cache = ca\<lparr>ca_world := w\<rparr>, bs_disk = d1\<rparr>"
proof (cases "bootLock io env")
  case (Some e)
  then show ?thesis using assms by (intro unlocked [of e]) (simp_all add: runStart_def)
next
  case None
  obtain l ca where l: "loadConfig (bo_loader io) env (bo_local_file io) (bs_cache s) = (l, ca)" by (rule prod.exhaust)
  show ?thesis
  proof (cases l)
    case (Inl e)
    then show ?thesis using assms None l by (intro early) (auto simp: runStart_def nothingStarted_def)
  next
    case (Inr res)
    let ?sd = "nothingStarted\<lparr>sd_locked := True, sd_config := Some (cr_config res), sd_incomplete := blockingIssues (cr_config res)\<rparr>"
    obtain e1 sd1 d1 where b: "bootStore io env ?sd (bs_disk s) = (e1, sd1, d1)" by (metis prod.exhaust)
    obtain e2 sd2 where g: "bootEngine io env (cr_config res) sd1 = (e2, sd2)" by (rule prod.exhaust)
    obtain r w where i: "bootIntake io env (cr_config res) sd2 d1 (ca_world ca) = (r, w)" by (rule prod.exhaust)
    note b' = bootStore_started [OF b] and g' = bootEngine_started [OF g]
    have "runStart io env s = (case e1 of
          Some e \<Rightarrow> ((Some e, sd1), \<lparr>bs_cache = ca, bs_disk = d1\<rparr>)
        | None \<Rightarrow> (case e2 of
            Some e \<Rightarrow> ((Some e, sd2), \<lparr>bs_cache = ca, bs_disk = d1\<rparr>)
          | None \<Rightarrow> (r, \<lparr>bs_cache = ca\<lparr>ca_world := w\<rparr>, bs_disk = d1\<rparr>)))"
      using None l Inr b g i by (cases e1; cases e2) (simp_all add: runStart_def Let_def)
    note eq = this [unfolded assms]
    show ?thesis
    proof (cases e1)
      case (Some e)
      then show ?thesis using eq None b' by (intro early) (simp_all add: nothingStarted_def)
    next
      case e1: None
      show ?thesis
      proof (cases e2)
        case (Some e)
        then show ?thesis using eq e1 None b' g' by (intro early) (simp_all add: nothingStarted_def)
      next
        case e2: None
        have r: "r = (err, sd)" "s' = \<lparr>bs_cache = ca\<lparr>ca_world := w\<rparr>, bs_disk = d1\<rparr>" using eq e1 e2 by simp_all
        show ?thesis
          by (rule intake [OF None _ b [unfolded e1] g [unfolded e2] i [unfolded r(1)] r(2)]) (use l Inr in simp)
      qed
    qed
  qed
qed

text \<open>
  A start that is refused changes nothing, and nothing is deployed or polled too early: without the
  lock of the data directory, because the bootstrap configuration is invalid, the directory cannot be
  made or another daemon holds the lock, the state of the disk, the cache and git is as before and
  nothing has begun; and whenever a deployment was resumed or a repository is polled, the lock is held,
  the bootstrap configuration is valid, the interrupted deployments were marked, and the runner and the
  reconcile loop work.
\<close>

theorem start_in_order:
  assumes "runStart io env s = ((err, sd), s')"
  shows "(\<not> sd_locked sd \<longrightarrow> err \<noteq> None \<and> sd = nothingStarted \<and> s' = s)
    \<and> (sd_locked sd \<longrightarrow> validateEnv env = [] \<and> bo_lock_open io = None \<and> bo_lock io = FlockTaken)
    \<and> (sd_resumed sd \<noteq> [] \<or> sd_watched sd \<noteq> [] \<longrightarrow>
         sd_locked sd \<and> sd_stale sd \<noteq> None \<and> sd_limits sd \<noteq> None \<and> sd_loop sd \<noteq> None)
    \<and> (err = None \<longrightarrow> sd_locked sd)"
proof -
  have lk: "validateEnv env = [] \<and> bo_lock_open io = None \<and> bo_lock io = FlockTaken" if "bootLock io env = None"
    using that by (auto simp: bootLock_def acquireSingleInstanceLock_def Let_def split: if_splits option.splits flock.splits)
  show ?thesis
  using assms
  proof (cases rule: runStart_cases)
    case (unlocked e)
    then show ?thesis by (simp add: nothingStarted_def)
  next
    case early
    then show ?thesis using lk by simp
  next
    case (intake res ca sd1 sd2 d1 w)
    then show ?thesis
      using lk bootStore_started [OF intake(3)] bootEngine_started [OF intake(4)] bootIntake_started [OF intake(5)] by auto
  qed
qed

section \<open>Interrupted deployments are taken up again\<close>

lemma resumeRepos_has:
  fixes resolve :: "'w resolver"
  assumes "(n, ts) \<in> set groups" "t \<in> set ts"
    and head: "\<And>v. \<exists>m sha v'. resolve (repo_url (t_repo (hd ts))) (repo_branch (t_repo (hd ts))) v = ((m, sha, True), v') \<and> sha \<noteq> []"
    and failed: "\<And>sha. \<not> shouldSkipDeploy dp d (proj_name (t_project t)) (host_name (t_host t)) sha"
    and stale: "\<And>(m :: 'w mirror_repo option) sha v. \<not> fst (targetUntouchedSinceLastDeploy dp d m t sha v)"
  shows "\<exists>ev\<in>set (fst (resumeRepos dp d resolve groups w)). \<exists>src r b sha rest. ev = forcedEvent src r b sha rest False \<and> t \<in> set rest"
  using assms(1)
proof (induction groups arbitrary: w)
  case (Cons g groups)
  obtain n' ts' where g: "g = (n', ts')" by (rule prod.exhaust)
  obtain m head ok w1 where r: "resolve (repo_url (t_repo (hd ts'))) (repo_branch (t_repo (hd ts'))) w = ((m, head, ok), w1)"
    by (metis prod.exhaust)
  let ?sha = "if \<not> ok \<or> head = [] then lastDeployedSha dp d n' (repo_branch (t_repo (hd ts'))) else Some head"
  show ?case
  proof (cases ?sha)
    case None
    have "(n', ts') \<noteq> (n, ts)" using head [of w] r None by (auto split: if_splits)
    then have "(n, ts) \<in> set groups" using Cons.prems g by auto
    from Cons.IH [OF this, of w1] show ?thesis using g r None by (simp add: Let_def)
  next
    case (Some sha)
    define w2 where "w2 = (case m of None \<Rightarrow> w1
        | Some mr \<Rightarrow> (case mr_has_commit mr sha w1 of (True, w') \<Rightarrow> w' | (False, w') \<Rightarrow> snd (mr_ensure_commit mr sha w')))"
    obtain pending w3 where p: "pendingTargetsForHead dp d ts' sha m w2 = (pending, w3)" by (rule prod.exhaust)
    have e: "fst (resumeRepos dp d resolve (g # groups) w)
        = (if pending = [] then [] else [forcedEvent TriggerResume n' (repo_branch (t_repo (hd ts'))) sha pending False])
          @ fst (resumeRepos dp d resolve groups w3)"
      using g r Some p by (simp add: Let_def w2_def [symmetric] split: prod.split)
    show ?thesis
    proof (cases "(n', ts') = (n, ts)")
      case True
      have "\<forall>v. \<not> fst (targetUntouchedSinceLastDeploy dp d m t sha v)" using stale by blast
      then have "t \<in> set (fst (pendingTargetsForHead dp d ts sha m w2))" by (rule pending_mem [OF assms(2) failed])
      then have "t \<in> set pending" using p True by simp
      then have "pending \<noteq> []" by auto
      with \<open>t \<in> set pending\<close> show ?thesis unfolding e by auto
    next
      case False
      then have "(n, ts) \<in> set groups" using Cons.prems g by auto
      from Cons.IH [OF this, of w3] show ?thesis unfolding e by auto
    qed
  qed
qed simp

lemma allTargets_same_repo:
  "\<lbrakk>t \<in> set (allTargets c); u \<in> set (allTargets c); repoOfTarget t = repoOfTarget u\<rbrakk> \<Longrightarrow> t_repo t = t_repo u"
proof -
  have "repoIndex c (repoOfTarget x) = Some (t_repo x)" if "x \<in> set (allTargets c)" for x
  proof -
    have x: "repoIndex c (proj_repo (t_project x)) = Some (t_repo x)"
      using that by (auto simp: allTargets_def allTargetsOf_iff)
    then have "repo_name (t_repo x) = proj_repo (t_project x)" using indexBy_SomeD [of repo_name "cfg_repos c"] by (simp add: repoIndex_def)
    then show ?thesis using x by (simp add: repoOfTarget_def)
  qed
  then show "\<lbrakk>t \<in> set (allTargets c); u \<in> set (allTargets c); repoOfTarget t = repoOfTarget u\<rbrakk> \<Longrightarrow> t_repo t = t_repo u"
    by (metis option.inject)
qed

text \<open>
  C18. A deployment that the death of the daemon interrupted is taken up by the next start: if the last
  record of a target of the loaded configuration is still running on the disk found at the start, then
  after a successful start a resumed event leads to a job for this target, provided that the mirror of
  its repository has a head.
\<close>

theorem start_resumes_interrupted:
  assumes "runStart io env s = ((None, sd), s')" and "sd_config sd = Some c" and "t \<in> set (allTargets c)"
    and "dp = env_data_path env" and "healthy dp (bs_disk s)"
    and "\<forall>k dep. latestOf dp (bs_disk s) k = Some dep \<longrightarrow> slash \<notin> set (dep_id dep)"
    and "latestOf dp (bs_disk s) (targetKey t) = Some run" and "dep_status run = StatusRunning"
    and "\<forall>v. \<exists>m sha v'. resolveMirror (ld_os (bo_loader io)) env
            (sshEnv (env_ssh_private_key_file env) (env_ssh_known_hosts env) (env_ssh_host_key_policy env))
            (repo_url (t_repo t)) (repo_branch (t_repo t)) v = ((m, sha, True), v') \<and> sha \<noteq> []"
  shows "\<exists>ev\<in>set (sd_resumed sd). \<exists>j\<in>set (pushJobs c dp (bs_disk s') ev). pj_target j = t"
  using assms(1)
proof (cases rule: runStart_cases)
  case (intake res ca sd1 sd2 d1 w)
  note b = bootStore_started [OF intake(3)] and g = bootEngine_started [OF intake(4)] and i = bootIntake_started [OF intake(5)]
  have c: "c = cr_config res" using b g i assms(2) by simp
  obtain n e where mark: "markStaleRunningDeploymentsFailed dp (bo_now io) (bs_disk s) = (Ret (n, e), d1)"
    using b assms(4) by blast
  obtain n' d' where d': "markStaleRunningDeploymentsFailed dp (bo_now io) (bs_disk s) = (Ret (n', None), d')" "healthy dp d'"
    "latestOf dp d' = (\<lambda>k. map_option (repaired (bo_now io)) (latestOf dp (bs_disk s) k))"
    using markStale_spec [OF assms(5,6)] by blast
  have d1: "d1 = d'" using mark d'(1) by simp
  have l: "getLatestDeployment dp (proj_name (t_project t)) (host_name (t_host t)) d1 = Inr (Some (failStale (bo_now io) run))"
    using getLatest_healthy [OF d'(2)] d'(3) assms(7,8) unfolding d1 by (simp add: targetKey_def repaired_def)
  have failed: "\<not> shouldSkipDeploy dp d1 (proj_name (t_project t)) (host_name (t_host t)) sha" for sha
    by (simp add: shouldSkipDeploy_def l)
  have stale: "\<not> fst (targetUntouchedSinceLastDeploy dp d1 m t sha v)" for m sha v
    using untouched_not_success [of dp t d1 m sha v] by (simp add: l)
  let ?ts = "allTargets c" and ?n = "repoOfTarget t"
  let ?g = "groupBy repoOfTarget ?ts ?n"
  have tg: "t \<in> set ?g" using assms(3) by (simp add: groupBy_filter)
  then have "hd ?g \<in> set ?g" by (cases ?g) auto
  then have hd: "t_repo (hd ?g) = t_repo t"
    using allTargets_same_repo [of "hd ?g" c t] assms(3) by (simp add: groupBy_filter)
  have mem: "(?n, ?g) \<in> set (map (\<lambda>n. (n, groupBy repoOfTarget ?ts n)) (firsts (map repoOfTarget ?ts)))"
    using assms(3) by auto
  let ?res = "resolveMirror (ld_os (bo_loader io)) env
            (sshEnv (env_ssh_private_key_file env) (env_ssh_known_hosts env) (env_ssh_host_key_policy env))"
  have head: "\<exists>m sha v'. ?res (repo_url (t_repo (hd ?g))) (repo_branch (t_repo (hd ?g))) v = ((m, sha, True), v') \<and> sha \<noteq> []" for v
    using assms(9) unfolding hd by blast
  obtain ev src r bn sha rest where ev: "ev \<in> set (sd_resumed sd)" "ev = forcedEvent src r bn sha rest False" "t \<in> set rest"
    using resumeRepos_has [where resolve = ?res and w = "ca_world ca", OF mem tg head failed stale] i c assms(4)
    by (simp add: resumeIncompleteDeploys_def Let_def) blast
  have "rest \<noteq> []" using ev(3) by auto
  moreover have "\<not> skipForEvent dp d1 ev t" using failed by (simp add: skipForEvent_def)
  moreover have "bs_disk s' = d1" using intake(6) by simp
  ultimately have "jobFor ev t \<in> set (pushJobs c dp (bs_disk s') ev)"
    using ev(2,3) by (simp add: pushJobs_def plan_forcedEvent)
  then show ?thesis using ev(1) by (metis jobFor_fields(3))
qed simp_all

section \<open>A start\<close>

definition demoBoot :: "unit boot_io" where
  "demoBoot = \<lparr>bo_loader = demoLoader, bo_local_file = FileMissing, bo_mkdir = (\<lambda>p. None), bo_lock_open = None,
     bo_lock = FlockTaken, bo_read_file = (\<lambda>p. Inl ''missing''), bo_transport = (\<lambda>p b w. (NoAnswer ''down'', w)), bo_applied = FileMissing,
     bo_cores = 4, bo_now = 9, bo_admin_start = None\<rparr>"

definition demoBootState :: "unit boot_state" where
  "demoBootState = \<lparr>bs_cache = demoCache, bs_disk = saveDisk ''/data'' (demoDeployment ''1'' 5) emptyDisk\<rparr>"

lemma demo_interrupted:
  "healthy ''/data'' (bs_disk demoBootState)"
  "latestOf ''/data'' (bs_disk demoBootState) = [''h1/web'' \<mapsto> demoDeployment ''1'' 5]"
  by (simp_all add: demoBootState_def fs.ok_save [OF demo_facts(1,2)] fs.latest_save [OF demo_facts(1,2)] demo_facts mergeLatest_def)

lemma demo_latest:
  "\<forall>k dep. latestOf ''/data'' (bs_disk demoBootState) k = Some dep \<longrightarrow> slash \<notin> set (dep_id dep)"
  "latestOf ''/data'' (bs_disk demoBootState) (targetKey demoTarget) = Some (demoDeployment ''1'' 5)"
  unfolding demo_interrupted(2)
  by (auto simp: demo_facts targetKey_def demoTarget_def demoProject_def demoHost_def indexKeyForProjectHost_def)

lemma demoEnv_boot: "validateEnv demoEnv = []" "env_source demoEnv = SourceGit" "env_github_token_file demoEnv = []"
  "env_github_webhook_secret_file demoEnv = []"
  by code_simp+

lemma saveDisk_mkdir: "dk_mkdir_fails (saveDisk dp dep d) = dk_mkdir_fails d"
  by (simp add: saveDisk_def saveDeployment_def updateProjectsIndex_def writeJSON_def Let_def
      split: prod.split read_result.split option.split)

lemma demo_init: "initStore dp (bs_disk demoBootState) = None"
  by (simp add: initStore_def demoBootState_def saveDisk_mkdir emptyDisk_def Let_def)

lemma demo_head:
  "\<exists>m sha v'. resolveMirror (ld_os (bo_loader demoBoot)) demoEnv senv url branch v = ((m, sha, True), v') \<and> sha \<noteq> []"
  by (simp add: resolveMirror_def demoEnv_boot mirrorWithHead_def findRepo_def localHead_def gitIn_def demoBoot_def
      demoLoader_def goodGit_def demoSha_read Let_def)

lemma demo_start: "\<exists>sd s'. runStart demoBoot demoEnv demoBootState = ((None, sd), s') \<and> sd_config sd = Some demoConfig"
proof -
  obtain n d' where m: "markStaleRunningDeploymentsFailed ''/data'' 9 (bs_disk demoBootState) = (Ret (n, None), d')"
    using markStale_spec [OF demo_interrupted(1) demo_latest(1)] by blast
  have l: "bootLock demoBoot demoEnv = None"
    by (simp add: bootLock_def demoBoot_def demoEnv_boot acquireSingleInstanceLock_def)
  have c: "loadConfig (bo_loader demoBoot) demoEnv (bo_local_file demoBoot) (bs_cache demoBootState)
      = (Inr \<lparr>cr_config = demoConfig, cr_from_cache = False, cr_commit_sha = demoSha,
          cr_source_url = env_config_repo_url demoEnv\<rparr>, cachedDemo)"
    by (simp add: demoBoot_def demoBootState_def loadConfig_def demoEnv_boot demo_first_load)
  obtain sd1 where b: "bootStore demoBoot demoEnv (nothingStarted\<lparr>sd_locked := True, sd_config := Some demoConfig,
        sd_incomplete := blockingIssues demoConfig\<rparr>) (bs_disk demoBootState) = (None, sd1, d')"
    using m by (simp add: bootStore_def demo_init demoEnv_data demoBoot_def Let_def)
  obtain sd2 where e: "bootEngine demoBoot demoEnv demoConfig sd1 = (None, sd2)"
    by (simp add: bootEngine_def buildReporter_def demoEnv_boot Let_def)
  have "fst (fst (bootIntake demoBoot demoEnv demoConfig sd2 d' (ca_world cachedDemo))) = None"
    by (simp add: bootIntake_def registerWebhooks_def demoEnv_boot demoBoot_def Let_def split: prod.split)
  then obtain sd3 w where i: "bootIntake demoBoot demoEnv demoConfig sd2 d' (ca_world cachedDemo) = ((None, sd3), w)"
    by (metis prod.collapse)
  have "sd_config sd3 = Some demoConfig"
    using bootStore_started [OF b] bootEngine_started [OF e] bootIntake_started [OF i] by simp
  then show ?thesis using b e i by (simp add: runStart_def l c Let_def)
qed

lemma start_in_order_witness:
  "\<exists>sd s'. runStart demoBoot demoEnv demoBootState = ((None, sd), s') \<and> sd_locked sd"
proof -
  obtain sd s' where s: "runStart demoBoot demoEnv demoBootState = ((None, sd), s')" using demo_start by blast
  then show ?thesis using start_in_order [OF s] by blast
qed

lemma start_resumes_interrupted_witness:
  "\<exists>sd s'. runStart demoBoot demoEnv demoBootState = ((None, sd), s')
     \<and> (\<exists>ev\<in>set (sd_resumed sd). \<exists>j\<in>set (pushJobs demoConfig ''/data'' (bs_disk s') ev). pj_target j = demoTarget)"
proof -
  obtain sd s' where s: "runStart demoBoot demoEnv demoBootState = ((None, sd), s')" "sd_config sd = Some demoConfig"
    using demo_start by blast
  have "demoTarget \<in> set (allTargets demoConfig)" by code_simp
  moreover have "dep_status (demoDeployment ''1'' 5) = StatusRunning" by (simp add: demoDeployment_def zeroDeployment_def)
  ultimately show ?thesis
    using start_resumes_interrupted [OF s _ demoEnv_data [symmetric] demo_interrupted(1) demo_latest] demo_head s(1) by blast
qed

section \<open>An incomplete configuration\<close>

text \<open>
  The start warns of blocking issues ("cannot deploy until fixed"), but nothing refuses the deployments:
  a local configuration with a broken host still plans the jobs of the other targets.
\<close>

definition brokenConfig :: config where
  "brokenConfig = demoConfig\<lparr>cfg_hosts := cfg_hosts demoConfig @ [demoHost\<lparr>host_name := ''h2'', host_address := []\<rparr>]\<rparr>"

lemma incomplete_still_deploys:
  "blockingIssues brokenConfig \<noteq> []" "map pj_target (pushJobs brokenConfig ''/data'' emptyDisk demoEvent) = [demoTarget]"
proof -
  show "blockingIssues brokenConfig \<noteq> []" by code_simp
  have "skipForEvent ''/data'' emptyDisk demoEvent t = False" for t
    by (simp add: skipForEvent_def shouldSkipDeploy_def emptyDisk_latest)
  moreover have "plan brokenConfig demoEvent = [demoTarget]" by code_simp
  ultimately show "map pj_target (pushJobs brokenConfig ''/data'' emptyDisk demoEvent) = [demoTarget]"
    by (simp add: pushJobs_def)
qed

end
