(* ===== verification/Spec2Isabelle.thy ===== *)
theory Spec2Isabelle
  imports Cli_Commands Local_Watch Runner_Refines Shutdown_Laws Ssh_Server Startup
begin

text \<open>
  A model of deeplo, a daemon that deploys Docker Compose projects over SSH when their repositories
  change. A configuration names hosts, repositories and projects; commits arrive by polling, webhooks
  or by hand; the planner selects the targets, pairs of a project and a host; the runner executes one
  job per target, which copies the project's files to the host, swaps them in and starts them; the
  state store records every run. A changed configuration is reconciled: what is no longer wanted is
  torn down, what is new or changed is deployed.

  Conventions. Strings are Go's byte strings, as lists of characters. An error is \<open>goerror\<close>, a string
  option, or the left side of a sum; a panic is a value of its own (\<open>call\<close> in \<open>File_Store\<close>). Times and
  durations are integers in nanoseconds; where a duration can overflow it is reduced to 64 bits
  (\<open>Runlog\<close>). The outside, git, SSH, HTTP, is a world of any type that operations take and return;
  the data directory is a \<open>disk\<close> of JSON documents. Every definition is total; recursion ends by structure
  or by a measure, so there is no fuel; only the directories above a path are collected with a bound, the
  length of the path, which no path is deeper than (\<open>Admin_Server\<close>). Interfaces are locales, each interpreted on the model:
  the memory of deliveries, the semaphores and locks, the reporter and the store.

  The theories, with the code under \<open>src/internal\<close> that they model:

  \<^item> \<open>Prelude\<close>, \<open>Go_Strings\<close>, \<open>Go_Path\<close>, \<open>Go_Glob\<close>: generic lemmas and the functions of \<open>strings\<close>,
    \<open>strconv\<close>, \<open>path\<close> and \<open>path.Match\<close> that the code uses.
  \<^item> \<open>Config\<close>, \<open>Config_Validate\<close> (\<open>config\<close>): the data, environment expansion, defaults and the validator,
    which decides the predicate \<open>wfConfig\<close>. The YAML decoder is a parameter.
  \<^item> \<open>Planner\<close> (\<open>planner\<close>): watch patterns and the selection of targets for an event.
  \<^item> \<open>Atomic_File\<close> (\<open>utils\<close>): atomic replacement of a file, every intermediate state of the directory.
  \<^item> \<open>File_Store\<close>, \<open>Store_Laws\<close>, \<open>Store_Index\<close>, \<open>Store_History\<close> (\<open>state\<close>): all operations of the store, with
    its paths, the index of latest deployments, and the history of runs.
  \<^item> \<open>Compose\<close>, \<open>Compose_Laws\<close> (\<open>compose\<close>): remote commands with their quoting, and the sequence of a
    deployment on a host: stage, check, swap, start, verify.
  \<^item> \<open>Mirror\<close> (\<open>mirror\<close>): local mirrors of repositories over the git command.
  \<^item> \<open>Bootstrap\<close> (\<open>bootstrap\<close>): the environment, the loader with its last good configuration, the applied
    configuration.
  \<^item> \<open>Engine_Deploy\<close>, \<open>Engine_Reconcile\<close>, \<open>Engine_Events\<close> and their \<open>_Laws\<close> (\<open>engine\<close>, \<open>reporter\<close>): one
    deployment with its record and report; what a configuration change tears down and deploys; pushes,
    pending targets and the resumption at start-up.
  \<^item> \<open>Runner\<close>, \<open>Runner_Laws\<close>, \<open>Runner_Refines\<close> (\<open>runner\<close>): the workers as a transition system over the queue,
    the slots, the host semaphores and the keyed lock, for every interleaving; and the scheduler, without
    any of these, that it refines.
  \<^item> \<open>Webhook\<close> (\<open>webhook\<close>): signatures, payloads and the memory of deliveries.
  \<^item> \<open>Reload\<close>, \<open>Poller\<close>, \<open>Daemon\<close> (\<open>daemon\<close>, \<open>poller\<close>, \<open>repowatcher\<close>, \<open>providers\<close>): reloading and the reconcile
    loop as a transition system, poll groups and what a poll does, the wiring of the daemon, manual
    deployments, refresh and probe.
  \<^item> \<open>Local_Watch\<close>, \<open>Watcher\<close> (\<open>daemon/reloader.go\<close>, \<open>repowatcher\<close>): the watcher of a local configuration file,
    and the goroutines of a repository watcher as a transition system.
  \<^item> \<open>Startup\<close>, \<open>Shutdown\<close>, \<open>Shutdown_Laws\<close> (\<open>daemon/daemon.go\<close>): the start in the order of \<open>Run\<close> with every early
    return; the running daemon, runner, watchers, reconcile worker, reloads that restart the watcher, and
    the goroutine that shuts down, as one transition system.
  \<^item> \<open>Ssh\<close> (\<open>ssh\<close>): the dial sequence with the host key policy, sessions and uploads.
  \<^item> \<open>Github\<close> (\<open>reporter/github\<close>, \<open>providers\<close>): the requests made for a deployment.
  \<^item> \<open>Runlog\<close>, \<open>Logger\<close> (\<open>runlog\<close>, \<open>logger\<close>): serving and cleaning the logs of runs; log lines.
  \<^item> \<open>Api\<close>, \<open>Admin_Server\<close> (\<open>api\<close>, \<open>client\<close>): routes, handlers, and the client's requests and answers; the
    socket with its modes and group over a file tree, and the methods of the client over it.
  \<^item> \<open>Cli\<close>, \<open>Cli_System\<close>, \<open>Cli_Commands\<close> (\<open>cli\<close>): tables and reports, the checks of the configuration and of the
    environment, the authorization of hosts with its script; the processes of the service commands, of
    updates and of an uninstall; the tree of commands and what each prints and returns.
  \<^item> \<open>Ssh_Server\<close> (\<open>testutils\<close>): the SSH server of the tests, its wire format and its sessions.

  What the theorems show, from an event to its effect. An authentic push is dispatched once, and a poll
  loses no commit (\<open>Webhook\<close>, \<open>Engine_Events_Laws\<close>, \<open>Poller\<close>); the targets selected are exactly those the
  configuration and the changed files call for (\<open>Planner\<close>, \<open>Engine_Events_Laws\<close>, \<open>Daemon\<close>); jobs of one
  target never overlap, the limits hold, and the runner comes to rest (\<open>Runner_Laws\<close>); a deployment
  touches only the staging directory until its files are complete, and is recorded with its true outcome,
  which decides whether the same commit is deployed again (\<open>Compose_Laws\<close>, \<open>Engine_Deploy_Laws\<close>,
  \<open>Store_Index\<close>); a removal does nothing once its project is wanted in that directory again, though a
  project renamed in place is not protected (\<open>Engine_Reconcile_Laws\<close>);
  an invalid configuration is never taken into use and no reload is lost (\<open>Bootstrap\<close>, \<open>Reload\<close>, \<open>Local_Watch\<close>);
  connections are made to remembered servers only (\<open>Ssh\<close>). The life of the daemon: a start takes up
  what the death of the last daemon interrupted (\<open>Startup\<close>), every poll of a group reaches all its
  handlers with every commit it sees (\<open>Watcher\<close>), and a shutdown ends from every state, releases the lock
  last, cancels a deployment only when the grace is over, drops no removal of a reconciliation and leaves
  a runner that refuses every job; a watcher that a reload replaced may still run a handler then
  (\<open>Shutdown_Laws\<close>). Its operators: only those let in reach the socket (\<open>Admin_Server\<close>), the deploy command
  has the effect that it prints (\<open>Cli_Commands\<close>), and an uninstall removes what it says (\<open>Cli_System\<close>).

  Hypotheses stand for the outside: a healthy disk for what is written to it, a mirror that answers the
  same question alike (\<open>steadyMirror\<close>, \<open>pureMirror\<close>), a known-hosts library that remembers keys
  (\<open>knownHostsLaws\<close>), a host whose processes do what they report (\<open>machineLaws\<close>), directories in clean form and
  file names without a parent segment (\<open>tidyDir\<close>, \<open>localName\<close>). In the transition systems, a deployment
  that runs returns in the end, and so does a handler of a watcher, although a git command of it runs
  under \<open>opsCtx\<close>, which nothing cancels before the grace deadline is armed and over; the shutdown of an HTTP
  server returns by its deadline of 30 seconds; \<open>restart\<close> installs and starts the new watcher in one
  step; the context of the command is the background context.

  Not modelled. Serving over HTTP and TLS, signals, and the parsing of flags belong to the libraries; so
  do the SSH and SFTP protocols and the processes that are started, the generated completion scripts
  among them. The resumed deployments of a start are planned on the disk as it is before the first of
  them works. Work per host of a refresh or probe is taken in sequence. Contexts appear where a
  cancellation changes a result. The texts of log lines are left out except in \<open>Logger\<close>, and so are
  log summaries. Build variables and the entry of the program carry no logic.
\<close>

end
